(* ===== verification/Prelude.thy ===== *)
theory Prelude
  imports Main "HOL-Library.Word" "HOL-Library.Sublist" "HOL-Library.Multiset"
begin

text \<open>
  Shared vocabulary of the development: the machine integers of the program, the errors of
  \<^verbatim>\<open>std::io\<close>, Rust strings, the little-endian layout of integers, and the generic
  lemmas on lists and words that the components use. Nothing here models a function of
  the repository by itself; the component theories do.
\<close>

named_theorems codec_intro \<open>rules that build a parsing fact along the fields of a decoder\<close>
named_theorems sound_intro \<open>rules that build a soundness fact along the fields of a decoder\<close>
named_theorems wire_simps \<open>byte images of encoders\<close>

section \<open>Machine integers\<close>

type_synonym u8 = "8 word"
type_synonym u16 = "16 word"
type_synonym u32 = "32 word"
type_synonym u64 = "64 word"

section \<open>Errors of the standard library\<close>

text \<open>
  \<open>std::io::ErrorKind\<close>: the kinds the sources name; \<open>OtherKind\<close> stands for any
  kind they do not name.
\<close>

datatype ErrorKind =
    NotFound | PermissionDenied | ConnectionRefused | ConnectionReset | ConnectionAborted
  | NotConnected | AddrInUse | AddrNotAvailable | BrokenPipe | AlreadyExists | WouldBlock
  | InvalidInput | InvalidData | TimedOut | WriteZero | Interrupted | UnexpectedEof | Other
  | OtherKind nat

text \<open>
  An \<open>io::Error\<close> either carries an OS error number (\<open>raw_os_error() = Some n\<close>; the
  kind the standard library derives from the number is its second component) or is built
  from a kind and a message.
\<close>

datatype io_error = Os int ErrorKind | Simple ErrorKind string

fun raw_os_error :: "io_error \<Rightarrow> int option" where
  "raw_os_error (Os n k) = Some n"
| "raw_os_error (Simple k msg) = None"

fun io_kind :: "io_error \<Rightarrow> ErrorKind" where
  "io_kind (Os n k) = k"
| "io_kind (Simple k msg) = k"

text \<open>The errors of \<open>Read::read_exact\<close> and \<open>Write::write_all\<close>.\<close>

definition eof_error :: io_error where
  "eof_error = Simple UnexpectedEof ''failed to fill whole buffer''"

definition write_zero_error :: io_error where
  "write_zero_error = Simple WriteZero ''failed to write whole buffer''"

section \<open>Little-endian integers\<close>

text \<open>
  The bytes of an integer, least significant first (\<open>to_le_bytes\<close>), and the integer
  they stand for (\<open>from_le_bytes\<close>).
\<close>

fun le_bytes :: "nat \<Rightarrow> nat \<Rightarrow> u8 list" where
  "le_bytes 0 v = []"
| "le_bytes (Suc n) v = of_nat (v mod 256) # le_bytes n (v div 256)"

fun le_nat :: "u8 list \<Rightarrow> nat" where
  "le_nat [] = 0"
| "le_nat (b # bs) = unat b + 256 * le_nat bs"

lemma unat_u8_less [simp]: "unat (b :: u8) < 256"
  using unsigned_less [of b] by simp

lemma length_le_bytes [simp]: "length (le_bytes n v) = n"
  by (induction n arbitrary: v) auto

lemma le_nat_le_bytes: "le_nat (le_bytes n v) = v mod 256 ^ n"
proof (induction n arbitrary: v)
  case 0
  then show ?case by simp
next
  case (Suc n)
  have "unat (of_nat (v mod 256) :: u8) = v mod 256"
    by (simp add: unat_of_nat)
  with Suc show ?case by (simp add: mod_mult2_eq mult.commute)
qed

lemma le_nat_bound: "le_nat bs < 256 ^ length bs"
proof (induction bs)
  case Nil
  then show ?case by simp
next
  case (Cons b bs)
  have "unat b + 256 * le_nat bs < 256 * Suc (le_nat bs)" by simp
  also have "\<dots> \<le> 256 * 256 ^ length bs"
    using Cons by (intro mult_le_mono) simp_all
  finally show ?case by simp
qed

lemma le_bytes_le_nat: "le_bytes (length bs) (le_nat bs) = bs"
proof (induction bs)
  case Nil
  then show ?case by simp
next
  case (Cons b bs)
  then show ?case by simp
qed

section \<open>Rust strings\<close>

text \<open>
  A Rust \<open>String\<close> is its UTF-8 bytes, kept as HOL characters so that literals can be
  written; \<open>as_bytes\<close> and \<open>from_bytes\<close> are the two views. \<open>utf8_valid\<close> is the
  check of \<open>String::from_utf8\<close>: one scalar value at a time, no surrogates, no overlong
  forms, nothing above U+10FFFF.
\<close>

definition as_bytes :: "string \<Rightarrow> u8 list" where
  "as_bytes s = map (\<lambda>c. of_nat (of_char c)) s"

definition from_bytes :: "u8 list \<Rightarrow> string" where
  "from_bytes bs = map (\<lambda>b. char_of (unat b)) bs"

definition utf8_cont :: "u8 \<Rightarrow> bool" where
  "utf8_cont b \<longleftrightarrow> 0x80 \<le> b \<and> b \<le> 0xBF"

definition utf8_second :: "u8 \<Rightarrow> u8 \<Rightarrow> bool" where
  "utf8_second b0 b1 \<longleftrightarrow>
     (if b0 = 0xE0 then 0xA0 \<le> b1 \<and> b1 \<le> 0xBF
      else if b0 = 0xED then 0x80 \<le> b1 \<and> b1 \<le> 0x9F
      else if b0 = 0xF0 then 0x90 \<le> b1 \<and> b1 \<le> 0xBF
      else if b0 = 0xF4 then 0x80 \<le> b1 \<and> b1 \<le> 0x8F
      else utf8_cont b1)"

fun utf8_valid :: "u8 list \<Rightarrow> bool" where
  "utf8_valid [] = True"
| "utf8_valid (b0 # bs) =
     (if b0 < 0x80 then utf8_valid bs
      else if 0xC2 \<le> b0 \<and> b0 \<le> 0xDF then
        (case bs of b1 # r \<Rightarrow> utf8_second b0 b1 \<and> utf8_valid r | _ \<Rightarrow> False)
      else if 0xE0 \<le> b0 \<and> b0 \<le> 0xEF then
        (case bs of b1 # b2 # r \<Rightarrow> utf8_second b0 b1 \<and> utf8_cont b2 \<and> utf8_valid r | _ \<Rightarrow> False)
      else if 0xF0 \<le> b0 \<and> b0 \<le> 0xF4 then
        (case bs of b1 # b2 # b3 # r \<Rightarrow>
            utf8_second b0 b1 \<and> utf8_cont b2 \<and> utf8_cont b3 \<and> utf8_valid r
          | _ \<Rightarrow> False)
      else False)"

lemma length_as_bytes [simp]: "length (as_bytes s) = length s"
  by (simp add: as_bytes_def)

lemma length_from_bytes [simp]: "length (from_bytes bs) = length bs"
  by (simp add: from_bytes_def)

lemma from_bytes_as_bytes [simp]: "from_bytes (as_bytes s) = s"
  by (simp add: from_bytes_def as_bytes_def comp_def unat_of_nat map_idI)

lemma of_char_char_of_byte: "of_nat (of_char (char_of (unat b) :: char)) = (b :: u8)"
  by simp

lemma as_bytes_from_bytes [simp]: "as_bytes (from_bytes bs) = bs"
  by (simp add: from_bytes_def as_bytes_def comp_def map_idI)

text \<open>
  \<open>String::from_utf8_lossy\<close> (\<open>to_string_lossy\<close> of a path): well-formed characters are
  kept, and each longest part of a bad one becomes U+FFFD. \<open>utf8_chunk\<close> says whether the
  bytes start with a well-formed character and how long it, or the bad part, is.
\<close>

definition byte_at :: "u8 list \<Rightarrow> nat \<Rightarrow> u8" where
  "byte_at bs i = (if i < length bs then bs ! i else 0)"

definition utf8_chunk :: "u8 list \<Rightarrow> bool \<times> nat" where
  "utf8_chunk bs =
     (let b0 = byte_at bs 0; b1 = byte_at bs 1; b2 = byte_at bs 2; b3 = byte_at bs 3
      in if b0 < 0x80 then (True, 1)
         else if 0xC2 \<le> b0 \<and> b0 \<le> 0xDF then
           (if utf8_cont b1 then (True, 2) else (False, 1))
         else if 0xE0 \<le> b0 \<and> b0 \<le> 0xEF then
           (if \<not> utf8_second b0 b1 then (False, 1)
            else if \<not> utf8_cont b2 then (False, 2) else (True, 3))
         else if 0xF0 \<le> b0 \<and> b0 \<le> 0xF4 then
           (if \<not> utf8_second b0 b1 then (False, 1)
            else if \<not> utf8_cont b2 then (False, 2)
            else if \<not> utf8_cont b3 then (False, 3) else (True, 4))
         else (False, 1))"

lemma utf8_chunk_pos: "0 < snd (utf8_chunk bs)"
  by (simp add: utf8_chunk_def Let_def)

function utf8_lossy :: "u8 list \<Rightarrow> u8 list" where
  "utf8_lossy [] = []"
| "utf8_lossy (b # bs) =
     (let (ok, n) = utf8_chunk (b # bs)
      in (if ok then take n (b # bs) else [0xEF, 0xBF, 0xBD]) @ utf8_lossy (drop n (b # bs)))"
  by pat_completeness auto
termination
proof (relation "measure length")
  fix b :: u8 and bs x y ok n
  assume "x = utf8_chunk (b # bs)" "(ok, n) = x"
  then have "0 < n" using utf8_chunk_pos [of "b # bs"] by (metis snd_conv)
  then show "(drop n (b # bs), b # bs) \<in> measure length" by simp
qed simp

definition to_string_lossy :: "string \<Rightarrow> string" where
  "to_string_lossy s = from_bytes (utf8_lossy (as_bytes s))"

lemma utf8_cont_0 [simp]: "\<not> utf8_cont 0" "\<not> utf8_second b 0"
  by (simp_all add: utf8_cont_def utf8_second_def)

lemma utf8_valid_1: "b0 < 0x80 \<Longrightarrow> utf8_valid (b0 # r) = utf8_valid r"
  by simp

lemma utf8_valid_2:
  "0xC2 \<le> b0 \<Longrightarrow> b0 \<le> 0xDF \<Longrightarrow> utf8_cont b1 \<Longrightarrow> utf8_valid (b0 # b1 # r) = utf8_valid r"
  by (auto simp: word_less_nat_alt word_le_nat_alt utf8_second_def)

lemma utf8_valid_3:
  "0xE0 \<le> b0 \<Longrightarrow> b0 \<le> 0xEF \<Longrightarrow> utf8_second b0 b1 \<Longrightarrow> utf8_cont b2 \<Longrightarrow>
     utf8_valid (b0 # b1 # b2 # r) = utf8_valid r"
  by (auto simp: word_less_nat_alt word_le_nat_alt)

lemma utf8_valid_4:
  "0xF0 \<le> b0 \<Longrightarrow> b0 \<le> 0xF4 \<Longrightarrow> utf8_second b0 b1 \<Longrightarrow> utf8_cont b2 \<Longrightarrow> utf8_cont b3 \<Longrightarrow>
     utf8_valid (b0 # b1 # b2 # b3 # r) = utf8_valid r"
  by (auto simp: word_less_nat_alt word_le_nat_alt)

lemmas utf8_valid_chars = utf8_valid_1 utf8_valid_2 utf8_valid_3 utf8_valid_4

lemma byte_at_cont: "utf8_cont (byte_at bs i) \<Longrightarrow> i < length bs"
  by (auto simp: byte_at_def split: if_splits)

lemma byte_at_second: "utf8_second b (byte_at bs i) \<Longrightarrow> i < length bs"
  by (auto simp: byte_at_def split: if_splits)

lemma take_bytes:
  "0 < length bs \<Longrightarrow> take 1 bs = [byte_at bs 0]"
  "1 < length bs \<Longrightarrow> take 2 bs = [byte_at bs 0, byte_at bs 1]"
  "2 < length bs \<Longrightarrow> take 3 bs = [byte_at bs 0, byte_at bs 1, byte_at bs 2]"
  "3 < length bs \<Longrightarrow> take 4 bs = [byte_at bs 0, byte_at bs 1, byte_at bs 2, byte_at bs 3]"
  by (auto simp add: byte_at_def eval_nat_numeral take_Suc_conv_app_nth)

lemma utf8_chunk_ok:
  assumes "utf8_chunk bs = (True, n)" "bs \<noteq> []"
  shows "utf8_valid (take n bs @ r) = utf8_valid r"
proof -
  have "0 < length bs" using assms(2) by simp
  with assms(1) show ?thesis
    unfolding utf8_chunk_def Let_def
    by (auto simp del: utf8_valid.simps take_Suc_Cons One_nat_def
        simp: take_bytes byte_at_cont byte_at_second utf8_valid_chars split: if_splits)
qed

lemma utf8_valid_replacement: "utf8_valid (0xEF # 0xBF # 0xBD # r) = utf8_valid r"
  by (simp add: utf8_second_def utf8_cont_def)

lemma utf8_valid_lossy: "utf8_valid (utf8_lossy bs)"
proof (induction bs rule: utf8_lossy.induct)
  case (2 b bs)
  then show ?case
    using utf8_chunk_ok [of "b # bs"]
    by (cases "utf8_chunk (b # bs)") (auto simp del: utf8_valid.simps simp: utf8_valid_replacement)
qed simp

lemma utf8_chunk_valid:
  assumes "utf8_valid (b # bs)"
  shows "\<exists>n. utf8_chunk (b # bs) = (True, n) \<and> utf8_valid (drop n (b # bs))"
proof -
  have two: "utf8_second b b1 = utf8_cont b1" if "0xC2 \<le> b" "b \<le> 0xDF" for b1
    using that by (auto simp: utf8_second_def word_le_nat_alt)
  show ?thesis
    using assms unfolding utf8_valid.simps(2) [of b bs] utf8_chunk_def Let_def
    by (auto simp: byte_at_def two simp del: utf8_valid.simps split: if_splits list.splits)
qed

lemma utf8_lossy_valid: "utf8_valid bs \<Longrightarrow> utf8_lossy bs = bs"
proof (induction bs rule: utf8_lossy.induct)
  case (2 b bs)
  then obtain n where "utf8_chunk (b # bs) = (True, n)" "utf8_valid (drop n (b # bs))"
    using utf8_chunk_valid by blast
  with 2 show ?case by (auto simp: append_take_drop_id simp del: drop_Suc_Cons take_Suc_Cons)
qed simp

lemma to_string_lossy_id: "utf8_valid (as_bytes s) \<Longrightarrow> to_string_lossy s = s"
  by (simp add: to_string_lossy_def utf8_lossy_valid)

lemma to_string_lossy_valid [simp]: "utf8_valid (as_bytes (to_string_lossy s))"
  by (simp add: to_string_lossy_def utf8_valid_lossy)

text \<open>\<open>str::split\<close> on a character: always at least one piece.\<close>

fun split_on :: "char \<Rightarrow> string \<Rightarrow> string list" where
  "split_on c [] = [[]]"
| "split_on c (x # xs) =
     (if x = c then [] # split_on c xs
      else case split_on c xs of [] \<Rightarrow> [[x]] | y # ys \<Rightarrow> (x # y) # ys)"

lemma split_on_no_sep: "c \<notin> set xs \<Longrightarrow> split_on c xs = [xs]"
  by (induction xs) auto

lemma split_on_append: "c \<notin> set xs \<Longrightarrow> split_on c (xs @ c # ys) = xs # split_on c ys"
  by (induction xs) auto

lemma split_on_not_Nil [simp]: "split_on c xs \<noteq> []"
  by (induction xs) (auto split: list.split)

section \<open>Lists\<close>

lemma strict_prefix_append_cases:
  assumes "strict_prefix p (xs @ ys)"
  obtains (left) "strict_prefix p xs" | (right) q where "p = xs @ q" "strict_prefix q ys"
proof (cases "prefix xs p")
  case True
  then obtain q where "p = xs @ q" by (auto simp: prefix_def)
  with assms show ?thesis by (intro right [of q]) (auto simp: strict_prefix_def)
next
  case False
  with assms have "strict_prefix p xs"
    by (auto simp: strict_prefix_def prefix_append)
  then show ?thesis by (rule left)
qed

lemma strict_prefix_length: "strict_prefix p xs \<Longrightarrow> length p < length xs"
  by (auto simp: strict_prefix_def prefix_def)

text \<open>Replacing one element of a list, seen on the multiset of its elements.\<close>

lemma mset_list_update:
  assumes "i < length xs"
  obtains M where "mset xs = add_mset (xs ! i) M" "mset (xs[i := y]) = add_mset y M"
proof
  show "mset xs = add_mset (xs ! i) (mset xs - {#xs ! i#})"
    using assms by (simp add: nth_mem_mset)
  show "mset (xs[i := y]) = add_mset y (mset xs - {#xs ! i#})"
    using assms by (simp add: mset_update)
qed

lemma list_all_list_update: "list_all P xs \<Longrightarrow> P y \<Longrightarrow> list_all P (xs[i := y])"
  by (auto simp: list_all_iff dest: set_update_subset_insert [THEN subsetD])

end
