(* ===== verification/Text.thy ===== *)
theory Text
  imports Prelude
begin

text \<open>
  What the programs use of Rust's string functions: splitting at white space, joining,
  parsing an \<open>i32\<close>, printing integers, and joining paths.
\<close>

section \<open>White space\<close>

text \<open>
  The number of bytes of a white-space character (Unicode \<open>White_Space\<close>, in UTF-8) at the
  start of a string, 0 when there is none.
\<close>

definition byte :: "string \<Rightarrow> nat \<Rightarrow> nat" where
  "byte s i = (if i < length s then of_char (s ! i) else 0)"

definition ws_len :: "string \<Rightarrow> nat" where
  "ws_len s =
     (let a = byte s 0; b = byte s 1; c = byte s 2
      in if (9 \<le> a \<and> a \<le> 13) \<or> a = 32 then 1
         else if a = 0xC2 \<and> (b = 0x85 \<or> b = 0xA0) then 2
         else if (a = 0xE1 \<and> b = 0x9A \<and> c = 0x80) \<or>
             (a = 0xE2 \<and> b = 0x80 \<and> ((0x80 \<le> c \<and> c \<le> 0x8A) \<or> c = 0xA8 \<or> c = 0xA9 \<or> c = 0xAF)) \<or>
             (a = 0xE2 \<and> b = 0x81 \<and> c = 0x9F) \<or> (a = 0xE3 \<and> b = 0x80 \<and> c = 0x80) then 3
         else 0)"

function words_from :: "string \<Rightarrow> string \<Rightarrow> string list" where
  "words_from cur [] = (if cur = [] then [] else [cur])"
| "words_from cur (c # cs) =
     (if ws_len (c # cs) = 0 then words_from (cur @ [c]) cs
      else (if cur = [] then [] else [cur]) @ words_from [] (drop (ws_len (c # cs)) (c # cs)))"
  by pat_completeness auto
termination
  by (relation "measure (\<lambda>(cur, s). length s)") auto

definition split_whitespace :: "string \<Rightarrow> string list" where
  "split_whitespace s = words_from [] s"

text \<open>A word: not empty, and no white space in it.\<close>

definition is_word :: "string \<Rightarrow> bool" where
  "is_word w \<longleftrightarrow> w \<noteq> [] \<and> (\<forall>i<length w. ws_len (drop i w) = 0)"

lemma is_word_Cons: "is_word (c # w) \<Longrightarrow> ws_len (c # w) = 0 \<and> (w = [] \<or> is_word w)"
  unfolding is_word_def by fastforce

lemma byte_append:
  "i < length s \<Longrightarrow> byte (s @ r) i = byte s i" "byte (s @ CHR '' '' # r) (length s) = 32"
  by (simp_all add: byte_def nth_append)

lemma ws_len_append_space:
  assumes "s \<noteq> []" "ws_len s = 0"
  shows "ws_len (s @ CHR '' '' # r) = 0"
proof -
  have 0: "byte (s @ CHR '' '' # r) 0 = byte s 0" using assms(1) by (simp add: byte_append)
  consider "length s = 1" | "length s = 2" | "2 < length s"
    using assms(1) by (cases "length s") fastforce+
  then show ?thesis
  proof cases
    case 1
    then have "byte (s @ CHR '' '' # r) 1 = 32" by (metis byte_append(2))
    with 0 assms(2) show ?thesis unfolding ws_len_def Let_def by (simp split: if_splits)
  next
    case 2
    then have "byte (s @ CHR '' '' # r) 1 = byte s 1" "byte (s @ CHR '' '' # r) 2 = 32"
      by (simp add: byte_append, metis byte_append(2))
    with 0 assms(2) show ?thesis unfolding ws_len_def Let_def by (simp split: if_splits)
  next
    case 3
    then have "byte (s @ CHR '' '' # r) 1 = byte s 1" "byte (s @ CHR '' '' # r) 2 = byte s 2"
      by (simp_all add: byte_append)
    then have "ws_len (s @ CHR '' '' # r) = ws_len s"
      unfolding ws_len_def Let_def by (simp only: 0)
    with assms(2) show ?thesis by simp
  qed
qed

lemma words_from_word:
  "is_word w \<or> w = [] \<Longrightarrow> words_from cur (w @ CHR '' '' # r) =
     (if cur @ w = [] then [] else [cur @ w]) @ words_from [] r"
proof (induction w arbitrary: cur)
  case Nil
  have "ws_len (CHR '' '' # r) = 1" by (simp add: ws_len_def byte_def)
  then show ?case by simp
next
  case (Cons c w)
  then have c: "ws_len (c # w) = 0" "is_word w \<or> w = []" using is_word_Cons by auto
  have "ws_len ((c # w) @ CHR '' '' # r) = 0" by (rule ws_len_append_space [OF _ c(1)]) simp
  with Cons.IH [OF c(2), of "cur @ [c]"] show ?case by simp
qed

lemma words_from_last: "is_word w \<or> w = [] \<Longrightarrow> words_from cur w = (if cur @ w = [] then [] else [cur @ w])"
proof (induction w arbitrary: cur)
  case (Cons c w)
  then have c: "ws_len (c # w) = 0" "is_word w \<or> w = []" using is_word_Cons by auto
  with Cons.IH [OF c(2), of "cur @ [c]"] show ?case by simp
qed simp

lemma split_whitespace_words:
  "is_word w \<Longrightarrow> split_whitespace (w @ CHR '' '' # r) = w # split_whitespace r"
  "is_word w \<Longrightarrow> split_whitespace w = [w]"
  by (simp_all add: split_whitespace_def words_from_word words_from_last is_word_def)

section \<open>Joining\<close>

fun join :: "string \<Rightarrow> string list \<Rightarrow> string" where
  "join sep [] = []"
| "join sep [x] = x"
| "join sep (x # y # ys) = x @ sep @ join sep (y # ys)"

lemma join_split_on: "join [c] (split_on c s) = s"
proof (induction s)
  case (Cons x s)
  then show ?case
    by (cases "split_on c s") (auto elim: list.exhaust intro: list.exhaust [of "tl (split_on c s)"]
        split: list.splits)
qed simp

section \<open>Integers\<close>

datatype ParseIntError = Empty | InvalidDigit | PosOverflow | NegOverflow

definition i32_ok :: "int \<Rightarrow> bool" where
  "i32_ok i \<longleftrightarrow> - (2 ^ 31) \<le> i \<and> i < 2 ^ 31"

definition is_digit :: "char \<Rightarrow> bool" where
  "is_digit c \<longleftrightarrow> 48 \<le> (of_char c :: nat) \<and> (of_char c :: nat) \<le> 57"

definition digit_value :: "char \<Rightarrow> int" where
  "digit_value c = int (of_char c) - 48"

fun parse_digits :: "bool \<Rightarrow> int \<Rightarrow> string \<Rightarrow> ParseIntError + int" where
  "parse_digits neg acc [] = Inr acc"
| "parse_digits neg acc (c # cs) =
     (if \<not> is_digit c then Inl InvalidDigit
      else if \<not> i32_ok (acc * 10) then Inl (if neg then NegOverflow else PosOverflow)
      else let v = (if neg then acc * 10 - digit_value c else acc * 10 + digit_value c)
           in if \<not> i32_ok v then Inl (if neg then NegOverflow else PosOverflow)
              else parse_digits neg v cs)"

definition parse_i32 :: "string \<Rightarrow> ParseIntError + int" where
  "parse_i32 s =
     (case s of
        [] \<Rightarrow> Inl Empty
      | c # cs \<Rightarrow>
          if (c = CHR ''+'' \<or> c = CHR ''-'') \<and> cs = [] then Inl InvalidDigit
          else if c = CHR ''+'' then parse_digits False 0 cs
          else if c = CHR ''-'' then parse_digits True 0 cs
          else parse_digits False 0 s)"

fun show_nat :: "nat \<Rightarrow> string" where
  "show_nat n = (if n < 10 then [char_of (48 + n)] else show_nat (n div 10) @ [char_of (48 + n mod 10)])"

declare show_nat.simps [simp del]

definition show_int :: "int \<Rightarrow> string" where
  "show_int i = (if i < 0 then CHR ''-'' # show_nat (nat (- i)) else show_nat (nat i))"

lemma digit_char:
  assumes "d < 10"
  shows "is_digit (char_of (48 + d))" "digit_value (char_of (48 + d)) = int d"
  using assms by (simp_all add: is_digit_def digit_value_def)

lemma parse_digits_append:
  "parse_digits neg acc (cs @ ds) =
     (case parse_digits neg acc cs of Inl e \<Rightarrow> Inl e | Inr v \<Rightarrow> parse_digits neg v ds)"
  by (induction cs arbitrary: acc) (auto simp: Let_def)

lemma parse_digits_digit:
  "d < 10 \<Longrightarrow> parse_digits neg acc [char_of (48 + d)] =
     (let v = (if neg then acc * 10 - int d else acc * 10 + int d)
      in if \<not> i32_ok (acc * 10) \<or> \<not> i32_ok v then Inl (if neg then NegOverflow else PosOverflow)
         else Inr v)"
  by (simp add: digit_char Let_def)

lemma parse_digits_show:
  assumes "i32_ok (if neg then - int n else int n)"
  shows "parse_digits neg 0 (show_nat n) = Inr (if neg then - int n else int n)"
  using assms
proof (induction n rule: show_nat.induct)
  case (1 n)
  show ?case
  proof (cases "n < 10")
    case True
    with "1.prems" show ?thesis
      by (subst show_nat.simps) (simp add: parse_digits_digit i32_ok_def Let_def del: parse_digits.simps)
  next
    case False
    have n: "int n = int (n div 10) * 10 + int (n mod 10)" by presburger
    then have ok: "i32_ok (if neg then - int (n div 10) else int (n div 10))"
      "i32_ok ((if neg then - int (n div 10) else int (n div 10)) * 10)"
      using "1.prems" by (auto simp: i32_ok_def split: if_splits)
    have "show_nat n = show_nat (n div 10) @ [char_of (48 + n mod 10)]"
      using False by (subst show_nat.simps) simp
    moreover have "(if neg then (- int (n div 10)) * 10 - int (n mod 10)
        else int (n div 10) * 10 + int (n mod 10)) = (if neg then - int n else int n)"
      using n by simp
    ultimately show ?thesis
      using "1.IH" [OF False ok(1)] ok "1.prems"
      by (cases neg) (simp_all add: parse_digits_append parse_digits_digit Let_def del: parse_digits.simps)
  qed
qed

lemma show_nat_digits: "c \<in> set (show_nat n) \<Longrightarrow> is_digit c"
proof (induction n rule: show_nat.induct)
  case (1 n)
  then show ?case
    by (subst (asm) (2) show_nat.simps) (auto simp: digit_char split: if_splits)
qed

lemma show_nat_not_Nil [simp]: "show_nat n \<noteq> []"
  by (subst show_nat.simps) simp

lemma parse_i32_show: "i32_ok i \<Longrightarrow> parse_i32 (show_int i) = Inr i"
proof (cases "i < 0")
  case True
  moreover assume "i32_ok i"
  ultimately show ?thesis
    using parse_digits_show [of True "nat (- i)"]
    by (simp add: parse_i32_def show_int_def)
next
  case False
  moreover assume "i32_ok i"
  moreover obtain c cs where s: "show_nat (nat i) = c # cs" by (cases "show_nat (nat i)") auto
  moreover have "is_digit c" using show_nat_digits [of c "nat i"] s by simp
  then have "c \<noteq> CHR ''+''" "c \<noteq> CHR ''-''" by (auto simp: is_digit_def)
  ultimately show ?thesis
    using parse_digits_show [of False "nat i"]
    by (simp add: parse_i32_def show_int_def)
qed

lemma is_word_ascii:
  assumes "w \<noteq> []" "\<forall>c\<in>set w. 33 \<le> (of_char c :: nat) \<and> (of_char c :: nat) < 128"
  shows "is_word w"
  unfolding is_word_def
proof (intro conjI allI impI)
  fix i assume "i < length w"
  then have "byte (drop i w) 0 = of_char (w ! i)" "w ! i \<in> set w" by (simp_all add: byte_def)
  with assms(2) have "33 \<le> byte (drop i w) 0" "byte (drop i w) 0 < 128" by auto
  then show "ws_len (drop i w) = 0" by (auto simp: ws_len_def Let_def)
qed (rule assms(1))

lemma is_word_show_int: "is_word (show_int i)"
proof (rule is_word_ascii)
  have "c \<in> set (show_int i) \<Longrightarrow> c = CHR ''-'' \<or> is_digit c" for c
    using show_nat_digits by (auto simp: show_int_def split: if_splits)
  then show "\<forall>c\<in>set (show_int i). 33 \<le> (of_char c :: nat) \<and> (of_char c :: nat) < 128"
    by (fastforce simp: is_digit_def)
qed (simp add: show_int_def)

section \<open>Paths\<close>

text \<open>A path (\<open>std::path\<close>) is its bytes. \<open>push\<close> of an absolute path replaces what was there.\<close>

definition path_is_absolute :: "string \<Rightarrow> bool" where
  "path_is_absolute p \<longleftrightarrow> p \<noteq> [] \<and> hd p = CHR ''/''"

definition path_push :: "string \<Rightarrow> string \<Rightarrow> string" where
  "path_push p name =
     (if path_is_absolute name then name
      else if p \<noteq> [] \<and> last p \<noteq> CHR ''/'' then p @ ''/'' @ name
      else p @ name)"

end
