(* ===== verification/Cmd.thy ===== *)
theory Cmd
  imports Text
begin

text \<open>
  Commands and mount tables: the messages of \<^verbatim>\<open>cmd.proto\<close>, \<^verbatim>\<open>crates/libp9cpu/src/cmd.rs\<close>, the name
  space of \<^verbatim>\<open>crates/libp9cpu/src/lib.rs\<close>, and how \<^verbatim>\<open>crates/p9cpu/src/p9cpu.rs\<close> builds a command
  from its arguments.
\<close>

section \<open>Messages\<close>

record FsTab =
  tab_spec :: string
  tab_file :: string
  tab_vfstype :: string
  tab_mntops :: string
  tab_freq :: int
  tab_passno :: int

record EnvVar =
  env_key :: "u8 list"
  env_val :: "u8 list"

record Cmd =
  cmd_program :: string
  cmd_args :: "string list"
  cmd_envs :: "EnvVar list"
  cmd_fstab :: "FsTab list"
  cmd_ninep :: bool
  cmd_tty :: bool
  cmd_tmp_mnt :: string
  cmd_uid :: u32
  cmd_gid :: u32

definition Cmd_default :: Cmd where
  "Cmd_default =
     \<lparr>cmd_program = [], cmd_args = [], cmd_envs = [], cmd_fstab = [], cmd_ninep = False,
      cmd_tty = False, cmd_tmp_mnt = [], cmd_uid = 0, cmd_gid = 0\<rparr>"

section \<open>Mount table lines\<close>

datatype FsTabError = NotSixFields | InvalidNumber string ParseIntError

definition FsTab_try_from :: "string \<Rightarrow> FsTabError + FsTab" where
  "FsTab_try_from line =
     (case split_whitespace line of
        spec # file # vfstype # mntops # freq # rest \<Rightarrow>
          (case parse_i32 freq of
             Inl e \<Rightarrow> Inl (InvalidNumber ''freq'' e)
           | Inr freq \<Rightarrow>
               (case rest of
                  [] \<Rightarrow> Inl NotSixFields
                | passno # more_fields \<Rightarrow>
                    (case parse_i32 passno of
                       Inl e \<Rightarrow> Inl (InvalidNumber ''passno'' e)
                     | Inr passno \<Rightarrow>
                         if more_fields \<noteq> [] then Inl NotSixFields
                         else Inr \<lparr>tab_spec = spec, tab_file = file, tab_vfstype = vfstype,
                           tab_mntops = mntops, tab_freq = freq, tab_passno = passno\<rparr>)))
      | _ \<Rightarrow> Inl NotSixFields)"

section \<open>The builder\<close>

definition Command_new :: "string \<Rightarrow> Cmd" where
  "Command_new program = Cmd_default\<lparr>cmd_program := program\<rparr>"

definition Command_args :: "string list \<Rightarrow> Cmd \<Rightarrow> Cmd" where
  "Command_args args c = c\<lparr>cmd_args := cmd_args c @ args\<rparr>"

definition Command_envs :: "(u8 list \<times> u8 list) list \<Rightarrow> Cmd \<Rightarrow> Cmd" where
  "Command_envs vars c =
     c\<lparr>cmd_envs := cmd_envs c @ map (\<lambda>(k, v). \<lparr>env_key = k, env_val = v\<rparr>) vars\<rparr>"

definition Command_fstab :: "FsTab list \<Rightarrow> Cmd \<Rightarrow> Cmd" where
  "Command_fstab tab c = c\<lparr>cmd_fstab := cmd_fstab c @ tab\<rparr>"

definition Command_ninep :: "bool \<Rightarrow> Cmd \<Rightarrow> Cmd" where
  "Command_ninep enable c = c\<lparr>cmd_ninep := enable\<rparr>"

definition Command_tty :: "bool \<Rightarrow> Cmd \<Rightarrow> Cmd" where
  "Command_tty enable c = c\<lparr>cmd_tty := enable\<rparr>"

definition Command_tmp_mnt :: "string \<Rightarrow> Cmd \<Rightarrow> Cmd" where
  "Command_tmp_mnt tmp_mnt c = c\<lparr>cmd_tmp_mnt := tmp_mnt\<rparr>"

definition Command_ugid :: "u32 \<Rightarrow> u32 \<Rightarrow> Cmd \<Rightarrow> Cmd" where
  "Command_ugid uid gid c = c\<lparr>cmd_uid := uid, cmd_gid := gid\<rparr>"

section \<open>Name spaces\<close>

definition NINEP_MOUNT :: string where "NINEP_MOUNT = ''mnt9p''"

definition LOCAL_ROOT_MOUNT :: string where "LOCAL_ROOT_MOUNT = ''local''"

definition ninep_tab :: "string \<Rightarrow> FsTab" where
  "ninep_tab tmp_mnt =
     \<lparr>tab_spec = [], tab_file = tmp_mnt @ ''/'' @ NINEP_MOUNT, tab_vfstype = ''9p'',
      tab_mntops = [], tab_freq = 0, tab_passno = 0\<rparr>"

definition bind_tab :: "string \<Rightarrow> string \<Rightarrow> string \<Rightarrow> FsTab" where
  "bind_tab tmp_mnt target source =
     \<lparr>tab_spec = tmp_mnt @ ''/'' @ NINEP_MOUNT @ source, tab_file = target, tab_vfstype = ''none'',
      tab_mntops = ''defaults,bind'', tab_freq = 0, tab_passno = 0\<rparr>"

text \<open>A part \<open>target=source\<close>, or \<open>target\<close> alone.\<close>

definition parse_part :: "string \<Rightarrow> (string \<times> string) option" where
  "parse_part part =
     (case split_on (CHR ''='') part of
        [] \<Rightarrow> None
      | [target] \<Rightarrow> Some (target, target)
      | [target, source] \<Rightarrow> Some (target, source)
      | _ \<Rightarrow> None)"

fun namespace_tabs :: "string \<Rightarrow> string set \<Rightarrow> string list \<Rightarrow> FsTab list" where
  "namespace_tabs tmp_mnt targets [] = []"
| "namespace_tabs tmp_mnt targets (part # parts) =
     (case parse_part part of
        None \<Rightarrow> namespace_tabs tmp_mnt targets parts
      | Some (target, source) \<Rightarrow>
          if target \<in> targets then namespace_tabs tmp_mnt targets parts
          else bind_tab tmp_mnt target source #
            namespace_tabs tmp_mnt (insert target targets) parts)"

definition parse_namespace :: "string \<Rightarrow> string \<Rightarrow> FsTab list" where
  "parse_namespace namespace tmp_mnt =
     (if namespace = [] then []
      else
        let result = ninep_tab tmp_mnt # namespace_tabs tmp_mnt {} (split_on (CHR '':'') namespace)
        in if length result = 1 then [] else result)"

section \<open>The command line\<close>

record Args =
  args_namespace :: string
  args_tty :: bool
  args_tmp_mnt :: string
  args_uid :: u32
  args_gid :: u32
  args_args :: "string list"

text \<open>The lines of the \<open>--fs-tab\<close> file; comments start with \<open>#\<close>.\<close>

fun read_fs_tab :: "string list \<Rightarrow> FsTabError + FsTab list" where
  "read_fs_tab [] = Inr []"
| "read_fs_tab (line # rest) =
     (if line \<noteq> [] \<and> hd line = CHR ''#'' then read_fs_tab rest
      else case FsTab_try_from line of
        Inl e \<Rightarrow> Inl e
      | Inr tab \<Rightarrow> map_sum id ((#) tab) (read_fs_tab rest))"

text \<open>
  The command \<open>app\<close> builds, from its arguments, the lines of the file (\<open>None\<close> without
  \<open>--fs-tab\<close>) and the environment. \<open>AppPanics\<close> is \<open>args.args[0]\<close> on no arguments.
\<close>

datatype app_result = AppBail string | AppFsTab FsTabError | AppPanics | AppRuns Cmd

definition app_command :: "Args \<Rightarrow> string list option \<Rightarrow> (u8 list \<times> u8 list) list \<Rightarrow> app_result" where
  "app_command args fs_tab vars =
     (if args_tmp_mnt args = [] then AppBail ''`tmp_mnt` cannot be empty''
      else
        let tabs = parse_namespace (args_namespace args) (args_tmp_mnt args);
            ninep = (tabs \<noteq> [])
        in case read_fs_tab (case fs_tab of None \<Rightarrow> [] | Some lines \<Rightarrow> lines) of
             Inl e \<Rightarrow> AppFsTab e
           | Inr more_tabs \<Rightarrow>
               (case args_args args of
                  [] \<Rightarrow> AppPanics
                | program # rest \<Rightarrow>
                    AppRuns
                      (Command_ugid (args_uid args) (args_gid args)
                      (Command_tmp_mnt (args_tmp_mnt args)
                      (Command_tty (args_tty args)
                      (Command_fstab (tabs @ more_tabs)
                      (Command_ninep ninep
                      (Command_envs vars
                      (Command_args rest
                      (Command_new program))))))))))"

section \<open>What the server fills in\<close>

text \<open>
  \<open>Server::start\<close> writes the port of the 9P listener into the first 9p line for the mount
  point of the name space.
\<close>

definition ninep_opts :: "nat \<Rightarrow> string" where
  "ninep_opts port = ''version=9p2000.L,trans=tcp,port='' @ show_nat port"

fun fill_ninep_tab :: "string \<Rightarrow> nat \<Rightarrow> FsTab list \<Rightarrow> FsTab list" where
  "fill_ninep_tab tmp_mnt ninep_port [] = []"
| "fill_ninep_tab tmp_mnt ninep_port (tab # tabs) =
     (if tab_vfstype tab = ''9p'' \<and> tab_file tab = tmp_mnt @ ''/'' @ NINEP_MOUNT
      then tab\<lparr>tab_spec := ''127.0.0.1'',
               tab_mntops := ninep_opts ninep_port\<rparr> # tabs
      else tab # fill_ninep_tab tmp_mnt ninep_port tabs)"

section \<open>Lemmas\<close>

text \<open>What a name space binds: each valid part whose target no part before it has.\<close>

fun first_targets :: "string set \<Rightarrow> (string \<times> string) list \<Rightarrow> (string \<times> string) list" where
  "first_targets seen [] = []"
| "first_targets seen ((target, source) # bs) =
     (if target \<in> seen then first_targets seen bs
      else (target, source) # first_targets (insert target seen) bs)"

definition bindings :: "string \<Rightarrow> (string \<times> string) list" where
  "bindings namespace =
     first_targets {} (List.map_filter parse_part (split_on (CHR '':'') namespace))"

lemma namespace_tabs_bindings:
  "namespace_tabs tmp_mnt seen parts =
     map (\<lambda>(target, source). bind_tab tmp_mnt target source)
       (first_targets seen (List.map_filter parse_part parts))"
  by (induction parts arbitrary: seen) (auto simp: map_filter_simps split: option.split)

lemma first_targets_fst: "fst ` set (first_targets seen bs) = fst ` set bs - seen"
  by (induction seen bs rule: first_targets.induct) auto

lemma distinct_first_targets: "distinct (map fst (first_targets seen bs))"
proof (induction seen bs rule: first_targets.induct)
  case (2 seen target source bs)
  then show ?case using first_targets_fst [of "insert target seen" bs]
    by (auto simp flip: set_map)
qed simp

lemma bindings_distinct: "distinct (map fst (bindings namespace))"
  by (simp add: bindings_def distinct_first_targets)

lemma parse_namespace_bindings:
  "parse_namespace namespace tmp_mnt =
     (if namespace = [] \<or> bindings namespace = [] then []
      else ninep_tab tmp_mnt # map (\<lambda>(target, source). bind_tab tmp_mnt target source) (bindings namespace))"
  by (simp add: parse_namespace_def bindings_def namespace_tabs_bindings Let_def)

end
