(* ===== verification/Errors.thy ===== *)
theory Errors
  imports Prelude
begin

text \<open>
  The error type of the 9P crate, \<^verbatim>\<open>crates/9p/src/error.rs\<close>, and its conversion to the error
  number an \<open>Rlerror\<close> carries. Error numbers are those of the \<open>nix\<close> crate: the
  variants the sources name are constructors, every other one is \<open>OtherErrno\<close>. The two
  functions of \<open>nix\<close> that the file calls (\<open>from_i32\<close>, the cast to an integer) are
  not part of the repository: they are the fields of the record \<open>nix\<close>, an argument of
  the definitions that use them.
\<close>

datatype Errno =
    ENOENT | EPERM | ECONNREFUSED | ECONNRESET | ECONNABORTED | ENOTCONN | EADDRINUSE
  | EADDRNOTAVAIL | EPIPE | EALREADY | EAGAIN | EINVAL | ETIMEDOUT | EINTR | EIO
  | EOPNOTSUPP | EBADF | OtherErrno nat

record nix =
  from_i32 :: "int \<Rightarrow> Errno"
  errno_as_u32 :: "Errno \<Rightarrow> u32"

definition errno_of_kind :: "ErrorKind \<Rightarrow> Errno" where
  "errno_of_kind k =
     (case k of
        NotFound \<Rightarrow> ENOENT
      | PermissionDenied \<Rightarrow> EPERM
      | ConnectionRefused \<Rightarrow> ECONNREFUSED
      | ConnectionReset \<Rightarrow> ECONNRESET
      | ConnectionAborted \<Rightarrow> ECONNABORTED
      | NotConnected \<Rightarrow> ENOTCONN
      | AddrInUse \<Rightarrow> EADDRINUSE
      | AddrNotAvailable \<Rightarrow> EADDRNOTAVAIL
      | BrokenPipe \<Rightarrow> EPIPE
      | AlreadyExists \<Rightarrow> EALREADY
      | WouldBlock \<Rightarrow> EAGAIN
      | InvalidInput \<Rightarrow> EINVAL
      | InvalidData \<Rightarrow> EINVAL
      | TimedOut \<Rightarrow> ETIMEDOUT
      | WriteZero \<Rightarrow> EAGAIN
      | Interrupted \<Rightarrow> EINTR
      | _ \<Rightarrow> EIO)"

definition errno_from_io_error :: "nix \<Rightarrow> io_error \<Rightarrow> Errno" where
  "errno_from_io_error N e =
     (case map_option (from_i32 N) (raw_os_error e) of
        Some no \<Rightarrow> no
      | None \<Rightarrow> errno_of_kind (io_kind e))"

datatype Error = No Errno | Io io_error

definition errno :: "nix \<Rightarrow> Error \<Rightarrow> Errno" where
  "errno N self = (case self of No e \<Rightarrow> e | Io e \<Rightarrow> errno_from_io_error N e)"

text \<open>The \<open>Display\<close> text; \<open>desc\<close> is \<open>nix\<close>'s description of an error number, \<open>disp\<close> the
  standard library's rendering of an \<open>io::Error\<close>.\<close>

definition Error_fmt :: "(Errno \<Rightarrow> string) \<Rightarrow> (io_error \<Rightarrow> string) \<Rightarrow> Error \<Rightarrow> string" where
  "Error_fmt desc disp self =
     (case self of
        No e \<Rightarrow> ''System error: '' @ desc e
      | Io e \<Rightarrow> ''I/O error: '' @ disp e)"

definition Error_cause :: "Error \<Rightarrow> io_error option" where
  "Error_cause self = (case self of No _ \<Rightarrow> None | Io e \<Rightarrow> Some e)"

definition Error_from_io :: "io_error \<Rightarrow> Error" where
  "Error_from_io e = Io e"

definition Error_from_io_ref :: "nix \<Rightarrow> io_error \<Rightarrow> Error" where
  "Error_from_io_ref N e = No (errno_from_io_error N e)"

definition Error_from_nix :: "Errno \<Rightarrow> Error" where
  "Error_from_nix e = No e"

section \<open>Lemmas\<close>

lemma errno_No [simp]: "errno N (No e) = e"
  by (simp add: errno_def)

lemma errno_Io_Os [simp]: "errno N (Io (Os n k)) = from_i32 N n"
  by (simp add: errno_def errno_from_io_error_def)

lemma errno_Io_Simple [simp]: "errno N (Io (Simple k msg)) = errno_of_kind k"
  by (simp add: errno_def errno_from_io_error_def)

text \<open>Both conversions of an I/O error, by value and by reference, give the same number.\<close>

lemma errno_from_io_ref: "errno N (Error_from_io_ref N e) = errno N (Error_from_io e)"
  by (simp add: Error_from_io_ref_def Error_from_io_def errno_def)

end
