(* ===== verification/Actions.thy ===== *)
theory Actions
  imports Prelude
begin

text \<open>
  Actions: computations on a state that end in a value or an error, as Rust functions with a
  \<open>Result\<close> do. \<open>and_then\<close> is the sequencing of \<open>?\<close>: an error ends the computation and the
  state keeps what was done before.
\<close>

type_synonym ('s, 'e, 'x) action = "'s \<Rightarrow> ('e + 'x) \<times> 's"

definition succeed :: "'x \<Rightarrow> ('s, 'e, 'x) action" where
  "succeed x s = (Inr x, s)"

definition throw :: "'e \<Rightarrow> ('s, 'e, 'x) action" where
  "throw e s = (Inl e, s)"

definition and_then :: "('s, 'e, 'x) action \<Rightarrow> ('x \<Rightarrow> ('s, 'e, 'y) action) \<Rightarrow> ('s, 'e, 'y) action" where
  "and_then m k s = (case m s of (Inl e, s') \<Rightarrow> (Inl e, s') | (Inr x, s') \<Rightarrow> k x s')"

text \<open>
  A statement under \<open>if\<close>, a call whose error is thrown away (\<open>let _ = ...\<close>, or logged),
  \<open>map_err\<close>, \<open>?\<close> on a plain \<open>Result\<close>, and a \<open>for\<close> loop.
\<close>

definition only_if :: "bool \<Rightarrow> ('s, 'e, unit) action \<Rightarrow> ('s, 'e, unit) action" where
  "only_if b m = (if b then m else succeed ())"

definition discard :: "('s, 'e, 'x) action \<Rightarrow> ('s, 'f, unit) action" where
  "discard m s = (Inr (), snd (m s))"

definition map_err :: "('e \<Rightarrow> 'f) \<Rightarrow> ('s, 'e, 'x) action \<Rightarrow> ('s, 'f, 'x) action" where
  "map_err f m s = (case m s of (Inl e, s') \<Rightarrow> (Inl (f e), s') | (Inr x, s') \<Rightarrow> (Inr x, s'))"

definition lift_result :: "'e + 'x \<Rightarrow> ('s, 'e, 'x) action" where
  "lift_result r s = (r, s)"

fun for_each :: "('a \<Rightarrow> ('s, 'e, unit) action) \<Rightarrow> 'a list \<Rightarrow> ('s, 'e, unit) action" where
  "for_each f [] = succeed ()"
| "for_each f (x # xs) = and_then (f x) (\<lambda>_. for_each f xs)"

lemma succeed_apply [simp]: "succeed x s = (Inr x, s)"
  by (simp add: succeed_def)

lemma throw_apply [simp]: "throw e s = (Inl e, s)"
  by (simp add: throw_def)

lemma lift_result_apply [simp]: "lift_result r s = (r, s)"
  by (simp add: lift_result_def)

lemma and_then_Inr: "m s = (Inr x, s') \<Longrightarrow> and_then m k s = k x s'"
  by (simp add: and_then_def)

lemma and_then_Inl: "m s = (Inl e, s') \<Longrightarrow> and_then m k s = (Inl e, s')"
  by (simp add: and_then_def)

lemma map_err_Inr: "m s = (Inr x, s') \<Longrightarrow> map_err f m s = (Inr x, s')"
  by (simp add: map_err_def)

lemma map_err_Inl: "m s = (Inl e, s') \<Longrightarrow> map_err f m s = (Inl (f e), s')"
  by (simp add: map_err_def)

lemma and_then_assoc: "and_then (and_then m k) l = and_then m (\<lambda>x. and_then (k x) l)"
  by (auto simp: and_then_def fun_eq_iff split: prod.split sum.split)

lemma and_then_succeed:
  "and_then (succeed x) k = k x" "and_then (Pair (Inr x)) k = k x" "and_then (Pair (Inl e)) l = Pair (Inl e)"
  by (simp_all add: and_then_def fun_eq_iff)

lemma and_then_unit: "and_then m (\<lambda>_. succeed ()) = m"
  by (auto simp: and_then_def fun_eq_iff split: prod.split sum.split)

text \<open>A sequence succeeds exactly when both parts do.\<close>

lemma and_then_eq_Inr:
  "and_then m k s = (Inr y, s'') \<longleftrightarrow> (\<exists>x s'. m s = (Inr x, s') \<and> k x s' = (Inr y, s''))"
  by (auto simp: and_then_def split: prod.split sum.split)

lemma map_err_eq_Inr: "map_err f m s = (Inr y, s') \<longleftrightarrow> m s = (Inr y, s')"
  by (auto simp: map_err_def split: prod.split sum.split)

lemma only_if_eq_Inr:
  "only_if b m s = (Inr u, s') \<longleftrightarrow> (if b then m s = (Inr u, s') else s' = s)"
  by (simp add: only_if_def eq_commute)

end
