(* ===== verification/Launcher.thy ===== *)
theory Launcher
  imports Cmd Errors Actions
begin

text \<open>
  The process between the server and the command, \<^verbatim>\<open>crates/libp9cpu/src/launcher.rs\<close>: it reads the
  command from a socket, builds the mounts in a name space of its own, and becomes the
  command. The kernel is a record of functions; the calls made are kept in order. Decoding the
  protobuf message is \<open>prost\<close>'s and an argument.
\<close>

section \<open>Mount options\<close>

text \<open>The flags of \<open>nix\<close> that the code sets.\<close>

datatype ms_flag = MS_BIND | MS_REC | MS_PRIVATE

fun fstab_opt_loop :: "string list \<Rightarrow> ms_flag set \<Rightarrow> string list \<Rightarrow> ms_flag set \<times> string" where
  "fstab_opt_loop [] flag opts = (flag, join '','' opts)"
| "fstab_opt_loop (f # fs) flag opts =
     (if f = ''defaults'' then fstab_opt_loop fs flag opts
      else if f = ''bind'' then fstab_opt_loop fs (insert MS_BIND flag) opts
      else fstab_opt_loop fs flag (opts @ [f]))"

definition parse_fstab_opt :: "string \<Rightarrow> ms_flag set \<times> string" where
  "parse_fstab_opt opt = fstab_opt_loop (split_on (CHR '','') opt) {} []"

definition get_ptr :: "string \<Rightarrow> string option" where
  "get_ptr s = (if s = [] then None else Some s)"

section \<open>The kernel\<close>

datatype call =
    Unshare
  | Connect nat
  | Shutdown
  | Mount "string option" string "string option" "ms_flag set" "string option"
  | CreateDirAll string
  | SetVar "u8 list" "u8 list"
  | Setsid
  | Tiocsctty
  | Setgid u32
  | Setuid u32
  | Execvp string "string list"

text \<open>
  \<open>k_nix\<close> and \<open>k_io\<close> answer the calls made through \<open>nix\<close> and through the standard library.
  The state has the calls made so far and what the socket still yields: bytes, and then the
  end or an error.
\<close>

record 'w kernel =
  k_nix :: "call \<Rightarrow> 'w \<Rightarrow> (Errno + unit) \<times> 'w"
  k_io :: "call \<Rightarrow> 'w \<Rightarrow> (io_error + unit) \<times> 'w"

record 'w process =
  p_calls :: "call list"
  p_stream :: "u8 list"
  p_stream_error :: "io_error option"
  p_world :: 'w

datatype LaunchError =
    UnshareFails string Errno
  | MountRoot Errno
  | MountTmp Errno
  | MountLocal Errno
  | CreateDir io_error
  | UnexpectedBytes
  | ShutdownSocket io_error
  | ConvertCString
  | Exec Errno
  | ConnectToPort io_error
  | ReadUds io_error
  | ProtoDecode string
  | SetSid Errno
  | SetControllingTerminal Errno
  | SetUid Errno
  | SetGid Errno
  | SetVarPanics

type_synonym ('w, 'e, 'x) run = "('w process, 'e, 'x) action"

definition by_nix :: "'w kernel \<Rightarrow> call \<Rightarrow> ('w, Errno, unit) run" where
  "by_nix K c s =
     (let (r, w) = k_nix K c (p_world s)
      in (r, s\<lparr>p_calls := p_calls s @ [c], p_world := w\<rparr>))"

definition by_io :: "'w kernel \<Rightarrow> call \<Rightarrow> ('w, io_error, unit) run" where
  "by_io K c s =
     (let (r, w) = k_io K c (p_world s)
      in (r, s\<lparr>p_calls := p_calls s @ [c], p_world := w\<rparr>))"

definition stream_read_exact :: "nat \<Rightarrow> ('w, io_error, u8 list) run" where
  "stream_read_exact n s =
     (if n \<le> length (p_stream s)
      then (Inr (take n (p_stream s)), s\<lparr>p_stream := drop n (p_stream s)\<rparr>)
      else (Inl (case p_stream_error s of None \<Rightarrow> eof_error | Some e \<Rightarrow> e), s\<lparr>p_stream := []\<rparr>))"

text \<open>One \<open>read\<close> into a buffer of one byte: how many it got.\<close>

definition stream_read1 :: "('w, io_error, nat) run" where
  "stream_read1 s =
     (case p_stream s of
        b # bs \<Rightarrow> (Inr 1, s\<lparr>p_stream := bs\<rparr>)
      | [] \<Rightarrow> (case p_stream_error s of None \<Rightarrow> (Inr 0, s) | Some e \<Rightarrow> (Inl e, s)))"

section \<open>The steps of connect\<close>

text \<open>What the server sends: the length of the message as a \<open>usize\<close>, and the message.\<close>

definition cmd_frame :: "u8 list \<Rightarrow> u8 list" where
  "cmd_frame buf = le_bytes 8 (length buf) @ buf"

definition expect_end :: "'x \<Rightarrow> ('w, LaunchError, 'x) run" where
  "expect_end x s =
     (case stream_read1 s of
        (Inr n, s') \<Rightarrow> (if n = 0 then Inr x else Inl UnexpectedBytes, s')
      | (Inl e, s') \<Rightarrow> (Inl UnexpectedBytes, s'))"

definition read_cmd :: "(u8 list \<Rightarrow> string + Cmd) \<Rightarrow> ('w, LaunchError, Cmd) run" where
  "read_cmd decode =
     and_then (map_err ReadUds (stream_read_exact 8)) (\<lambda>buf.
     and_then (map_err ReadUds (stream_read_exact (le_nat buf))) (\<lambda>buf.
     and_then (map_err ProtoDecode (lift_result (decode buf))) (\<lambda>cmd.
     expect_end cmd)))"

definition mount_base :: "'w kernel \<Rightarrow> Cmd \<Rightarrow> ('w, LaunchError, unit) run" where
  "mount_base K cmd =
     and_then (map_err MountRoot (by_nix K (Mount None ''/'' None {MS_REC, MS_PRIVATE} None))) (\<lambda>_.
     and_then (map_err CreateDir (by_io K (CreateDirAll (cmd_tmp_mnt cmd)))) (\<lambda>_.
     and_then (map_err MountTmp
       (by_nix K (Mount (Some ''p9cpu'') (cmd_tmp_mnt cmd) (Some ''tmpfs'') {} None))) (\<lambda>_.
     let local_mount = path_push (cmd_tmp_mnt cmd) LOCAL_ROOT_MOUNT in
     and_then (map_err CreateDir (by_io K (CreateDirAll local_mount))) (\<lambda>_.
     map_err MountLocal (by_nix K (Mount (Some ''/'') local_mount None {MS_BIND} None))))))"

text \<open>A failing mount of a line is a warning; a failing directory is an error.\<close>

definition tab_mount :: "FsTab \<Rightarrow> call" where
  "tab_mount tab =
     (let (flags, opts) = parse_fstab_opt (tab_mntops tab)
      in Mount (get_ptr (tab_spec tab)) (tab_file tab) (get_ptr (tab_vfstype tab)) flags (get_ptr opts))"

definition mount_tab :: "'w kernel \<Rightarrow> FsTab \<Rightarrow> ('w, LaunchError, unit) run" where
  "mount_tab K tab =
     and_then (map_err CreateDir (by_io K (CreateDirAll (tab_file tab)))) (\<lambda>_.
     discard (by_nix K (tab_mount tab)))"

text \<open>\<open>set_var\<close> panics on an empty name, on \<open>=\<close> in it and on NUL bytes.\<close>

definition set_env :: "EnvVar \<Rightarrow> ('w, LaunchError, unit) run" where
  "set_env env s =
     (if env_key env = [] \<or> 61 \<in> set (env_key env) \<or> 0 \<in> set (env_key env @ env_val env)
      then (Inl SetVarPanics, s)
      else (Inr (), s\<lparr>p_calls := p_calls s @ [SetVar (env_key env) (env_val env)]\<rparr>))"

definition CString_new :: "string \<Rightarrow> LaunchError + string" where
  "CString_new s = (if CHR 0x00 \<in> set s then Inl ConvertCString else Inr s)"

fun CString_all :: "string list \<Rightarrow> LaunchError + string list" where
  "CString_all [] = Inr []"
| "CString_all (a # as) =
     (case CString_new a of
        Inl e \<Rightarrow> Inl e
      | Inr a' \<Rightarrow> map_sum id ((#) a') (CString_all as))"

definition exec_cmd :: "'w kernel \<Rightarrow> Cmd \<Rightarrow> ('w, LaunchError, unit) run" where
  "exec_cmd K cmd =
     and_then (lift_result (CString_new (cmd_program cmd))) (\<lambda>arg0.
     and_then (lift_result (CString_all (cmd_args cmd))) (\<lambda>args.
     and_then (only_if (cmd_tty cmd)
       (and_then (map_err SetSid (by_nix K Setsid)) (\<lambda>_.
        map_err SetControllingTerminal (by_nix K Tiocsctty)))) (\<lambda>_.
     and_then (map_err SetGid (by_nix K (Setgid (cmd_gid cmd)))) (\<lambda>_.
     and_then (map_err SetUid (by_nix K (Setuid (cmd_uid cmd)))) (\<lambda>_.
     map_err Exec (by_nix K (Execvp arg0 (arg0 # args))))))))"

definition connect :: "'w kernel \<Rightarrow> (u8 list \<Rightarrow> string + Cmd) \<Rightarrow> nat \<Rightarrow> ('w, LaunchError, unit) run" where
  "connect K decode port =
     and_then (map_err (UnshareFails ''CLONE_NEWNS'') (by_nix K Unshare)) (\<lambda>_.
     and_then (map_err ConnectToPort (by_io K (Connect port))) (\<lambda>_.
     and_then (read_cmd decode) (\<lambda>cmd.
     and_then (map_err ShutdownSocket (by_io K Shutdown)) (\<lambda>_.
     and_then (mount_base K cmd) (\<lambda>_.
     and_then (for_each (mount_tab K) (cmd_fstab cmd)) (\<lambda>_.
     and_then (for_each set_env (cmd_envs cmd)) (\<lambda>_.
     exec_cmd K cmd)))))))"

section \<open>Lemmas\<close>

definition is_exec :: "call \<Rightarrow> bool" where
  "is_exec c \<longleftrightarrow> (case c of Execvp p as \<Rightarrow> True | _ \<Rightarrow> False)"

text \<open>An action that only appends calls satisfying \<open>P\<close>.\<close>

definition only_calls :: "(call \<Rightarrow> bool) \<Rightarrow> ('w, 'e, 'x) run \<Rightarrow> bool" where
  "only_calls P m \<longleftrightarrow> (\<forall>s. \<exists>cs. p_calls (snd (m s)) = p_calls s @ cs \<and> list_all P cs)"

named_theorems calls_intro \<open>which calls an action makes\<close>

lemma only_callsD: "only_calls P m \<Longrightarrow> m s = (r, s') \<Longrightarrow> \<exists>cs. p_calls s' = p_calls s @ cs \<and> list_all P cs"
  unfolding only_calls_def by (metis snd_conv)

lemma only_calls_basic [calls_intro]:
  "P c \<Longrightarrow> only_calls P (by_nix K c)" "P c \<Longrightarrow> only_calls P (by_io K c)"
  "only_calls P (stream_read_exact n)" "only_calls P stream_read1" "only_calls P (lift_result r)"
  "only_calls P (succeed x)"
  by (auto simp: only_calls_def by_nix_def by_io_def stream_read_exact_def stream_read1_def
      case_prod_beta Let_def split: list.split option.split)

lemma only_calls_expect_end [calls_intro]: "only_calls P (expect_end x)"
  by (auto simp: only_calls_def expect_end_def stream_read1_def split: list.split option.split)

lemma expect_end_Inr:
  "expect_end x s = (Inr y, s') \<longleftrightarrow> y = x \<and> s' = s \<and> p_stream s = [] \<and> p_stream_error s = None"
  by (auto simp: expect_end_def stream_read1_def split: list.splits option.splits)

lemma only_calls_and_then [calls_intro]:
  assumes "only_calls P m" "\<And>x. only_calls P (k x)"
  shows "only_calls P (and_then m k)"
  unfolding only_calls_def
proof
  fix s
  obtain r s' where m: "m s = (r, s')" by fastforce
  then obtain cs where cs: "p_calls s' = p_calls s @ cs" "list_all P cs"
    using only_callsD [OF assms(1)] by blast
  show "\<exists>cs. p_calls (snd (and_then m k s)) = p_calls s @ cs \<and> list_all P cs"
  proof (cases r)
    case (Inl e)
    with m cs show ?thesis by (auto simp: and_then_def)
  next
    case (Inr x)
    obtain cs' where "p_calls (snd (k x s')) = p_calls s' @ cs'" "list_all P cs'"
      using assms(2) [of x] unfolding only_calls_def by blast
    with m cs Inr show ?thesis by (intro exI [of _ "cs @ cs'"]) (simp add: and_then_def)
  qed
qed

lemma only_calls_map_err [calls_intro]: "only_calls P m \<Longrightarrow> only_calls P (map_err f m)"
  by (auto simp: only_calls_def map_err_def split: prod.split sum.split dest: spec)
    (metis snd_conv)+

lemma only_calls_discard [calls_intro]: "only_calls P m \<Longrightarrow> only_calls P (discard m)"
  by (simp add: only_calls_def discard_def)

lemma only_calls_only_if [calls_intro]: "only_calls P m \<Longrightarrow> only_calls P (only_if b m)"
  by (simp add: only_if_def only_calls_basic)

lemma only_calls_for_each [calls_intro]:
  "(\<And>x. only_calls P (f x)) \<Longrightarrow> only_calls P (for_each f xs)"
  by (induction xs) (auto intro: calls_intro)

end
