(* ===== verification/Streams.thy ===== *)
theory Streams
  imports Prelude
begin

text \<open>
  Streams of messages and bytes between client and server: \<open>PrependedStream\<close>
  (\<^verbatim>\<open>crates/libp9cpu/src/rpc.rs\<close>), \<open>ByteVecStream\<close> (\<^verbatim>\<open>crates/libp9cpu/src/rpc/rpc_client.rs\<close>), the
  \<open>scan\<close> of the requests (\<^verbatim>\<open>crates/libp9cpu/src/rpc/rpc_server.rs\<close>), and the adapters
  \<open>StreamReader\<close> and \<open>SenderWriter\<close> between streams and byte-wise I/O
  (\<^verbatim>\<open>crates/libp9cpu/src/client.rs\<close>). A stream is polled: it is not ready, or yields an item or
  its end.
\<close>

section \<open>Polling\<close>

datatype 'a poll = Pending | Ready 'a

text \<open>
  The contract of \<open>Stream\<close>, over the items it still has: polling takes the first item, or
  finds that there is none. (After its end a stream may do anything; nothing polls it then.)
\<close>

locale stream =
  fixes poll_next :: "'s \<Rightarrow> 'i option poll \<times> 's"
    and rest :: "'s \<Rightarrow> 'i list"
  assumes item: "poll_next s = (Ready (Some x), s') \<Longrightarrow> rest s = x # rest s'"
    and ended: "poll_next s = (Ready None, s') \<Longrightarrow> rest s = []"
    and waits: "poll_next s = (Pending, s') \<Longrightarrow> rest s' = rest s"

text \<open>
  Awaiting \<open>next\<close> again and again: the items of so many polls, and whether the end was seen.
\<close>

fun poll_times :: "('s \<Rightarrow> 'i option poll \<times> 's) \<Rightarrow> nat \<Rightarrow> 's \<Rightarrow> 'i list \<times> bool" where
  "poll_times poll_next 0 s = ([], False)"
| "poll_times poll_next (Suc n) s =
     (case poll_next s of
        (Pending, s') \<Rightarrow> poll_times poll_next n s'
      | (Ready None, s') \<Rightarrow> ([], True)
      | (Ready (Some x), s') \<Rightarrow> (let (xs, ended) = poll_times poll_next n s' in (x # xs, ended)))"

context stream
begin

lemma poll_times_rest:
  "\<exists>more_items. rest s = fst (poll_times poll_next n s) @ more_items \<and>
    (snd (poll_times poll_next n s) \<longrightarrow> more_items = [])"
proof (induction n arbitrary: s)
  case (Suc n)
  obtain r s' where p: "poll_next s = (r, s')" by fastforce
  then show ?case
    using Suc.IH [of s'] ended [of s s'] waits [of s s'] item [of s _ s']
    by (auto split: poll.splits option.splits simp: case_prod_beta Let_def) metis
qed simp

end

text \<open>A stream that ends: only so many polls are not its end.\<close>

locale finite_stream = stream poll_next rest
  for poll_next :: "'s \<Rightarrow> 'i option poll \<times> 's" and rest :: "'s \<Rightarrow> 'i list" +
  fixes left :: "'s \<Rightarrow> nat"
  assumes less: "poll_next s = (r, s') \<Longrightarrow> r \<noteq> Ready None \<Longrightarrow> left s' < left s"
begin

lemma poll_times_ended: "left s < n \<Longrightarrow> snd (poll_times poll_next n s)"
proof (induction n arbitrary: s)
  case (Suc n)
  obtain r s' where p: "poll_next s = (r, s')" by fastforce
  then show ?case
    using Suc.IH [of s'] Suc.prems less [OF p]
    by (auto split: poll.split option.split simp: case_prod_beta Let_def)
qed simp

lemma poll_times_all: "left s < n \<Longrightarrow> poll_times poll_next n s = (rest s, True)"
  using poll_times_rest [of s n] poll_times_ended [of s n] by (auto simp: prod_eq_iff)

end

text \<open>
  The receiving end of a channel whose sender is dropped in the end: what each poll will find,
  nothing yet or an item.
\<close>

type_synonym 'i channel = "'i option list"

fun channel_poll :: "'i channel \<Rightarrow> 'i option poll \<times> 'i channel" where
  "channel_poll [] = (Ready None, [])"
| "channel_poll (None # c) = (Pending, c)"
| "channel_poll (Some x # c) = (Ready (Some x), c)"

definition channel_rest :: "'i channel \<Rightarrow> 'i list" where
  "channel_rest c = List.map_filter (\<lambda>x. x) c"

interpretation channel: finite_stream channel_poll channel_rest length
proof
  fix s s' :: "'i channel" and x r
  show "channel_poll s = (Ready (Some x), s') \<Longrightarrow> channel_rest s = x # channel_rest s'"
    by (cases s rule: channel_poll.cases) (auto simp: channel_rest_def map_filter_simps)
  show "channel_poll s = (Ready None, s') \<Longrightarrow> channel_rest s = []"
    by (cases s rule: channel_poll.cases) (auto simp: channel_rest_def map_filter_simps)
  show "channel_poll s = (Pending, s') \<Longrightarrow> channel_rest s' = channel_rest s"
    by (cases s rule: channel_poll.cases) (auto simp: channel_rest_def map_filter_simps)
  show "channel_poll s = (r, s') \<Longrightarrow> r \<noteq> Ready None \<Longrightarrow> length s' < length s"
    by (cases s rule: channel_poll.cases) auto
qed

text \<open>\<open>next\<close> on a channel: the first item and the channel after it.\<close>

fun channel_next :: "'i channel \<Rightarrow> ('i \<times> 'i channel) option" where
  "channel_next [] = None"
| "channel_next (None # c) = channel_next c"
| "channel_next (Some x # c) = Some (x, c)"

lemma channel_next_rest:
  "channel_rest c = (case channel_next c of None \<Rightarrow> [] | Some (x, c') \<Rightarrow> x # channel_rest c')"
  by (induction c rule: channel_next.induct) (simp_all add: channel_rest_def map_filter_simps)

lemma channel_next_shorter: "channel_next c = Some (x, c') \<Longrightarrow> length c' < length c"
  by (induction c rule: channel_next.induct) auto

section \<open>Mapped streams\<close>

definition map_poll :: "('i \<Rightarrow> 'j) \<Rightarrow> ('s \<Rightarrow> 'i option poll \<times> 's) \<Rightarrow> 's \<Rightarrow> 'j option poll \<times> 's" where
  "map_poll f poll_next s =
     (case poll_next s of
        (Pending, s') \<Rightarrow> (Pending, s')
      | (Ready x, s') \<Rightarrow> (Ready (map_option f x), s'))"

locale mapped_stream = finite_stream poll_next rest left
  for poll_next :: "'s \<Rightarrow> 'i option poll \<times> 's" and rest :: "'s \<Rightarrow> 'i list" and left :: "'s \<Rightarrow> nat"

sublocale mapped_stream \<subseteq> mapped: finite_stream "map_poll f poll_next" "\<lambda>s. map f (rest s)" left for f
  by unfold_locales
    (auto simp: map_poll_def dest: item ended waits intro: less split: prod.splits poll.splits)

section \<open>PrependedStream\<close>

record ('i, 's) PrependedStream =
  pre_stream :: 's
  pre_item :: "'i option"

definition PrependedStream_new :: "'s \<Rightarrow> 'i \<Rightarrow> ('i, 's) PrependedStream" where
  "PrependedStream_new s x = \<lparr>pre_stream = s, pre_item = Some x\<rparr>"

definition prepended_poll ::
  "('s \<Rightarrow> 'i option poll \<times> 's) \<Rightarrow> ('i, 's) PrependedStream \<Rightarrow> 'i option poll \<times> ('i, 's) PrependedStream" where
  "prepended_poll poll_next p =
     (case pre_item p of
        Some x \<Rightarrow> (Ready (Some x), p\<lparr>pre_item := None\<rparr>)
      | None \<Rightarrow> (let (r, s) = poll_next (pre_stream p) in (r, p\<lparr>pre_stream := s\<rparr>)))"

definition prepended_rest :: "('s \<Rightarrow> 'i list) \<Rightarrow> ('i, 's) PrependedStream \<Rightarrow> 'i list" where
  "prepended_rest rest p = (case pre_item p of Some x \<Rightarrow> [x] | None \<Rightarrow> []) @ rest (pre_stream p)"

definition prepended_left :: "('s \<Rightarrow> nat) \<Rightarrow> ('i, 's) PrependedStream \<Rightarrow> nat" where
  "prepended_left left p = (if pre_item p = None then 0 else 1) + left (pre_stream p)"

locale prepended_stream = finite_stream poll_next rest left
  for poll_next :: "'s \<Rightarrow> 'i option poll \<times> 's" and rest :: "'s \<Rightarrow> 'i list" and left :: "'s \<Rightarrow> nat"

sublocale prepended_stream \<subseteq> prepended: finite_stream "prepended_poll poll_next" "prepended_rest rest"
  "prepended_left left"
  by unfold_locales
    (auto simp: prepended_poll_def prepended_rest_def prepended_left_def dest: item ended waits
      intro: less split: option.splits prod.splits)

section \<open>Streams of results\<close>

text \<open>What a stream of results gives to a consumer that stops at the first error.\<close>

fun until_error :: "('e + 'i) list \<Rightarrow> 'i list" where
  "until_error [] = []"
| "until_error (Inr x # rs) = x # until_error rs"
| "until_error (Inl e # rs) = []"

text \<open>\<open>ByteVecStream\<close>: an error of the transport is logged and ends the stream.\<close>

definition bytevec_poll :: "('s \<Rightarrow> ('e + 'i) option poll \<times> 's) \<Rightarrow> 's \<Rightarrow> 'i option poll \<times> 's" where
  "bytevec_poll poll_next s =
     (case poll_next s of
        (Pending, s') \<Rightarrow> (Pending, s')
      | (Ready None, s') \<Rightarrow> (Ready None, s')
      | (Ready (Some (Inr b)), s') \<Rightarrow> (Ready (Some b), s')
      | (Ready (Some (Inl e)), s') \<Rightarrow> (Ready None, s'))"

text \<open>The \<open>scan\<close> of the server on the requests after the first; it stays ended.\<close>

record 's scan =
  scan_stream :: 's
  scan_done :: bool

definition scan_new :: "'s \<Rightarrow> 's scan" where
  "scan_new s = \<lparr>scan_stream = s, scan_done = False\<rparr>"

definition scan_poll ::
  "('i \<Rightarrow> 'j) \<Rightarrow> ('s \<Rightarrow> ('e + 'i) option poll \<times> 's) \<Rightarrow> 's scan \<Rightarrow> 'j option poll \<times> 's scan" where
  "scan_poll f poll_next c =
     (if scan_done c then (Ready None, c)
      else case poll_next (scan_stream c) of
        (Pending, s') \<Rightarrow> (Pending, c\<lparr>scan_stream := s'\<rparr>)
      | (Ready None, s') \<Rightarrow> (Ready None, c\<lparr>scan_stream := s'\<rparr>)
      | (Ready (Some (Inr x)), s') \<Rightarrow> (Ready (Some (f x)), c\<lparr>scan_stream := s'\<rparr>)
      | (Ready (Some (Inl e)), s') \<Rightarrow> (Ready None, c\<lparr>scan_stream := s', scan_done := True\<rparr>))"

definition scan_rest :: "('i \<Rightarrow> 'j) \<Rightarrow> ('s \<Rightarrow> ('e + 'i) list) \<Rightarrow> 's scan \<Rightarrow> 'j list" where
  "scan_rest f rest c = (if scan_done c then [] else map f (until_error (rest (scan_stream c))))"

locale result_stream = finite_stream poll_next rest left
  for poll_next :: "'s \<Rightarrow> ('e + 'i) option poll \<times> 's" and rest :: "'s \<Rightarrow> ('e + 'i) list"
    and left :: "'s \<Rightarrow> nat"

sublocale result_stream \<subseteq> bytevec: finite_stream "bytevec_poll poll_next" "\<lambda>s. until_error (rest s)" left
  by unfold_locales
    (auto simp: bytevec_poll_def dest: item ended waits intro: less
      split: prod.splits poll.splits option.splits sum.splits)

sublocale result_stream \<subseteq> scan: finite_stream "scan_poll f poll_next" "scan_rest f rest"
  "\<lambda>c. left (scan_stream c)" for f
  by unfold_locales
    (auto simp: scan_poll_def scan_rest_def dest: item ended waits intro: less
      split: prod.splits poll.splits option.splits sum.splits if_splits)

text \<open>
  The streams the program builds: on the client the requests, mapped and after the first; on
  the server what gRPC delivers, with the first item given back.
\<close>

interpretation items: mapped_stream channel_poll channel_rest length
  by unfold_locales

interpretation client_requests: prepended_stream "map_poll f channel_poll"
  "\<lambda>c. map f (channel_rest c)" length for f
  by unfold_locales

interpretation grpc: result_stream channel_poll channel_rest length
  by unfold_locales

interpretation server_items: prepended_stream "scan_poll f channel_poll" "scan_rest f channel_rest"
  "\<lambda>c. length (scan_stream c)" for f
  by unfold_locales

section \<open>StreamReader\<close>

record 's StreamReader =
  rd_inner :: 's
  rd_buffer :: "u8 list"
  rd_consumed :: nat

definition StreamReader_new :: "'s \<Rightarrow> 's StreamReader" where
  "StreamReader_new s = \<lparr>rd_inner = s, rd_buffer = [], rd_consumed = 0\<rparr>"

text \<open>What goes into a buffer with room for \<open>cap\<close> bytes when the reader has some.\<close>

definition reader_put :: "nat \<Rightarrow> 's StreamReader \<Rightarrow> u8 list poll \<times> 's StreamReader" where
  "reader_put cap r =
     (let remaining = length (rd_buffer r) - rd_consumed r;
          read_to = min cap remaining + rd_consumed r
      in (Ready (drop (rd_consumed r) (take read_to (rd_buffer r))), r\<lparr>rd_consumed := read_to\<rparr>))"

definition reader_poll_read ::
  "('s \<Rightarrow> u8 list option poll \<times> 's) \<Rightarrow> nat \<Rightarrow> 's StreamReader \<Rightarrow> u8 list poll \<times> 's StreamReader" where
  "reader_poll_read poll_next cap r =
     (if cap = 0 then (Ready [], r)
      else if rd_consumed r < length (rd_buffer r) then reader_put cap r
      else case poll_next (rd_inner r) of
        (Ready (Some item), s) \<Rightarrow>
          (let r' = r\<lparr>rd_inner := s, rd_buffer := item, rd_consumed := 0\<rparr>
           in if item = [] then (Ready [], r') else reader_put cap r')
      | (Ready None, s) \<Rightarrow> (Ready [], r\<lparr>rd_inner := s\<rparr>)
      | (Pending, s) \<Rightarrow> (Pending, r\<lparr>rd_inner := s\<rparr>))"

text \<open>
  The contract of \<open>AsyncRead\<close>, over the bytes not read yet: a read into a buffer with room
  gives some of the next bytes, and none only at the end.
\<close>

locale byte_reader =
  fixes poll_read :: "nat \<Rightarrow> 'r \<Rightarrow> u8 list poll \<times> 'r"
    and unread :: "'r \<Rightarrow> u8 list"
    and inv :: "'r \<Rightarrow> bool"
  assumes inv: "inv r \<Longrightarrow> 0 < cap \<Longrightarrow> poll_read cap r = (a, r') \<Longrightarrow> a \<noteq> Ready [] \<Longrightarrow> inv r'"
    and data: "inv r \<Longrightarrow> 0 < cap \<Longrightarrow> poll_read cap r = (Ready bs, r') \<Longrightarrow> bs \<noteq> [] \<Longrightarrow>
      unread r = bs @ unread r' \<and> length bs \<le> cap"
    and eof: "inv r \<Longrightarrow> 0 < cap \<Longrightarrow> poll_read cap r = (Ready [], r') \<Longrightarrow> unread r = []"
    and wait: "inv r \<Longrightarrow> 0 < cap \<Longrightarrow> poll_read cap r = (Pending, r') \<Longrightarrow> unread r' = unread r"

text \<open>
  Reading on, with buffers of the given sizes, until the end is seen: the bytes, and whether
  it was seen.
\<close>

fun read_to_end :: "(nat \<Rightarrow> 'r \<Rightarrow> u8 list poll \<times> 'r) \<Rightarrow> nat list \<Rightarrow> 'r \<Rightarrow> u8 list \<times> bool" where
  "read_to_end poll_read [] r = ([], False)"
| "read_to_end poll_read (cap # caps) r =
     (case poll_read cap r of
        (Pending, r') \<Rightarrow> read_to_end poll_read caps r'
      | (Ready [], r') \<Rightarrow> ([], True)
      | (Ready bs, r') \<Rightarrow> (let (rest, ended) = read_to_end poll_read caps r' in (bs @ rest, ended)))"

context byte_reader
begin

lemma read_to_end_unread:
  assumes "inv r" "0 \<notin> set caps"
  shows "\<exists>more_bytes. unread r = fst (read_to_end poll_read caps r) @ more_bytes \<and>
    (snd (read_to_end poll_read caps r) \<longrightarrow> more_bytes = [])"
  using assms
proof (induction caps arbitrary: r)
  case (Cons cap caps)
  obtain a r' where p: "poll_read cap r = (a, r')" by fastforce
  from Cons.prems have cap: "0 < cap" "0 \<notin> set caps" by auto
  note inv' = inv [OF Cons.prems(1) cap(1) p]
  show ?case
  proof (cases a)
    case Pending
    then show ?thesis using Cons.IH [OF inv' cap(2)] wait [OF Cons.prems(1) cap(1)] p by simp
  next
    case (Ready bs)
    show ?thesis
    proof (cases bs)
      case Nil
      then show ?thesis using eof [OF Cons.prems(1) cap(1)] p Ready by simp
    next
      case (Cons b bs')
      then show ?thesis
        using Cons.IH [OF inv' cap(2)] data [OF \<open>inv r\<close> cap(1)] p Ready
        by (auto simp: case_prod_beta Let_def)
    qed
  qed
qed simp

end

definition reader_unread :: "('s \<Rightarrow> u8 list list) \<Rightarrow> 's StreamReader \<Rightarrow> u8 list" where
  "reader_unread rest r = drop (rd_consumed r) (rd_buffer r) @ concat (rest (rd_inner r))"

lemma reader_put_result:
  assumes "rd_consumed r < length (rd_buffer r)" "0 < cap" "reader_put cap r = (Ready bs, r')"
  shows "bs \<noteq> []" "length bs \<le> cap" "rd_inner r' = rd_inner r"
    "drop (rd_consumed r) (rd_buffer r) = bs @ drop (rd_consumed r') (rd_buffer r')"
proof -
  let ?n = "min cap (length (rd_buffer r) - rd_consumed r)"
  from assms(3) have bs: "bs = take ?n (drop (rd_consumed r) (rd_buffer r))"
    and r': "r' = r\<lparr>rd_consumed := ?n + rd_consumed r\<rparr>"
    by (auto simp: reader_put_def Let_def drop_take)
  show "bs \<noteq> []" "length bs \<le> cap" using assms(1,2) by (simp_all add: bs)
  show "rd_inner r' = rd_inner r" by (simp add: r')
  have "drop (rd_consumed r') (rd_buffer r') = drop ?n (drop (rd_consumed r) (rd_buffer r))"
    by (simp add: r')
  then show "drop (rd_consumed r) (rd_buffer r) = bs @ drop (rd_consumed r') (rd_buffer r')"
    by (simp only: bs append_take_drop_id)
qed

lemma reader_put_not_Pending: "fst (reader_put cap r) \<noteq> Pending"
  by (simp add: reader_put_def Let_def)

text \<open>Over a stream without empty items \<open>StreamReader\<close> reads the bytes of the items.\<close>

definition reader_inv :: "('s \<Rightarrow> u8 list list) \<Rightarrow> 's StreamReader \<Rightarrow> bool" where
  "reader_inv rest r \<longleftrightarrow> [] \<notin> set (rest (rd_inner r))"

locale byte_stream = stream poll_next rest
  for poll_next :: "'s \<Rightarrow> u8 list option poll \<times> 's" and rest :: "'s \<Rightarrow> u8 list list"
begin

lemma reader_put_unread:
  assumes "rd_consumed r < length (rd_buffer r)" "0 < cap" "reader_put cap r = (a, r')"
  shows "\<exists>bs. a = Ready bs \<and> bs \<noteq> [] \<and> length bs \<le> cap \<and>
    reader_unread rest r = bs @ reader_unread rest r' \<and> rd_inner r' = rd_inner r"
proof -
  obtain bs where a: "a = Ready bs" using assms(3) by (auto simp: reader_put_def Let_def)
  with assms(3) have "reader_put cap r = (Ready bs, r')" by simp
  note res = reader_put_result [OF assms(1,2) this]
  show ?thesis
    by (rule exI [of _ bs]) (simp only: a res(1,2,3) reader_unread_def res(4) append_assoc, simp)
qed

lemma reader_poll_cases:
  assumes "reader_inv rest r" "0 < cap" "reader_poll_read poll_next cap r = (a, r')"
  obtains (put) bs where "a = Ready bs" "bs \<noteq> []" "length bs \<le> cap"
      "reader_unread rest r = bs @ reader_unread rest r'" "reader_inv rest r'"
  | (at_end) "a = Ready []" "reader_unread rest r = []"
  | (not_ready) "a = Pending" "reader_unread rest r' = reader_unread rest r" "reader_inv rest r'"
proof (cases "rd_consumed r < length (rd_buffer r)")
  case True
  then have "reader_put cap r = (a, r')" using assms(2,3) by (simp add: reader_poll_read_def)
  from reader_put_unread [OF True assms(2) this] assms(1) show ?thesis
    by (auto simp: reader_inv_def intro: put)
next
  case False
  obtain p s where p: "poll_next (rd_inner r) = (p, s)" by fastforce
  consider "p = Pending" | "p = Ready None" | x where "p = Ready (Some x)"
    by (metis option.exhaust poll.exhaust)
  then show ?thesis
  proof cases
    case 1
    with p False assms show ?thesis
      using waits [of "rd_inner r" s]
      by (intro that(3)) (auto simp: reader_poll_read_def reader_unread_def reader_inv_def)
  next
    case 2
    with p False assms show ?thesis
      using ended [of "rd_inner r" s]
      by (intro that(2)) (auto simp: reader_poll_read_def reader_unread_def)
  next
    case (3 x)
    let ?r = "r\<lparr>rd_inner := s, rd_buffer := x, rd_consumed := 0\<rparr>"
    from 3 p have rest: "rest (rd_inner r) = x # rest s" using item by blast
    with assms(1) have x: "x \<noteq> []" by (auto simp: reader_inv_def)
    with 3 p False assms have "reader_put cap ?r = (a, r')"
      by (simp add: reader_poll_read_def Let_def)
    from reader_put_unread [OF _ assms(2) this] x rest False assms(1) show ?thesis
      by (auto simp: reader_inv_def reader_unread_def intro: put)
  qed
qed

end

sublocale byte_stream \<subseteq> reader: byte_reader "reader_poll_read poll_next" "reader_unread rest"
  "reader_inv rest"
proof
  fix r r' :: "'s StreamReader" and cap :: nat and a bs
  assume inv: "reader_inv rest r" "0 < cap"
  show "reader_poll_read poll_next cap r = (a, r') \<Longrightarrow> a \<noteq> Ready [] \<Longrightarrow> reader_inv rest r'"
    by (erule reader_poll_cases [OF inv]) auto
  show "reader_poll_read poll_next cap r = (Ready bs, r') \<Longrightarrow> bs \<noteq> [] \<Longrightarrow>
      reader_unread rest r = bs @ reader_unread rest r' \<and> length bs \<le> cap"
    by (erule reader_poll_cases [OF inv]) auto
  show "reader_poll_read poll_next cap r = (Ready [], r') \<Longrightarrow> reader_unread rest r = []"
    by (erule reader_poll_cases [OF inv]) auto
  show "reader_poll_read poll_next cap r = (Pending, r') \<Longrightarrow> reader_unread rest r' = reader_unread rest r"
    by (erule reader_poll_cases [OF inv]) auto
qed

interpretation channel_bytes: byte_stream channel_poll channel_rest
  by unfold_locales

text \<open>The reader of the client's 9P server: the requests as gRPC delivers them.\<close>

interpretation grpc_bytes: byte_stream "bytevec_poll channel_poll" "\<lambda>c. until_error (channel_rest c)"
  by unfold_locales

section \<open>SenderWriter\<close>

text \<open>
  The sender of a channel is \<open>tokio_util\<close>'s: what \<open>poll_reserve\<close> finds (no room yet, room, or
  a closed channel) and whether \<open>send_item\<close> succeeds are arguments. The record keeps what was
  sent; \<open>sw_open\<close> is \<open>inner.is_some()\<close>.
\<close>

record SenderWriter =
  sw_open :: bool
  sw_sent :: "u8 list list"

definition SenderWriter_new :: SenderWriter where
  "SenderWriter_new = \<lparr>sw_open = True, sw_sent = []\<rparr>"

definition sender_down :: io_error where
  "sender_down = Simple BrokenPipe ''Sender is down.''"

definition channel_closed :: io_error where
  "channel_closed = Simple BrokenPipe ''Channel is closed.''"

definition sender_poll_write ::
  "(unit + unit) poll \<Rightarrow> bool \<Rightarrow> u8 list \<Rightarrow> SenderWriter \<Rightarrow> (io_error + nat) poll \<times> SenderWriter" where
  "sender_poll_write reserve sends buf w =
     (if buf = [] then (Ready (Inr 0), w)
      else if \<not> sw_open w then (Ready (Inl sender_down), w)
      else case reserve of
        Pending \<Rightarrow> (Pending, w)
      | Ready (Inl _) \<Rightarrow> (Ready (Inl channel_closed), w)
      | Ready (Inr _) \<Rightarrow>
          if sends then (Ready (Inr (length buf)), w\<lparr>sw_sent := sw_sent w @ [buf]\<rparr>)
          else (Ready (Inl channel_closed), w))"

definition sender_poll_flush :: "SenderWriter \<Rightarrow> io_error + unit" where
  "sender_poll_flush w = (if sw_open w then Inr () else Inl sender_down)"

definition sender_poll_shutdown :: "SenderWriter \<Rightarrow> (io_error + unit) \<times> SenderWriter" where
  "sender_poll_shutdown w =
     (if sw_open w then (Inr (), w\<lparr>sw_open := False\<rparr>) else (Inl sender_down, w))"

text \<open>A run of writes, each with what the channel answers: what was accepted, and the writer.\<close>

fun sender_run :: "((unit + unit) poll \<times> bool \<times> u8 list) list \<Rightarrow> SenderWriter \<Rightarrow> u8 list \<times> SenderWriter" where
  "sender_run [] w = ([], w)"
| "sender_run ((reserve, sends, buf) # writes) w =
     (case sender_poll_write reserve sends buf w of
        (Ready (Inr n), w') \<Rightarrow> (let (bs, w'') = sender_run writes w' in (take n buf @ bs, w''))
      | (_, w') \<Rightarrow> sender_run writes w')"

lemma sender_run_sent:
  assumes "sender_run writes w = (bs, w')" "[] \<notin> set (sw_sent w)"
  shows "concat (sw_sent w') = concat (sw_sent w) @ bs \<and> [] \<notin> set (sw_sent w')"
  using assms
proof (induction writes w arbitrary: bs w' rule: sender_run.induct)
  case (2 reserve sends buf writes w)
  then show ?case
    by (auto simp: sender_poll_write_def split: if_splits poll.splits sum.splits prod.splits)
qed simp

section \<open>Both ends together\<close>

text \<open>Reading from a channel comes to its end: each read uses up a poll or a byte.\<close>

lemma reader_poll_channel_less:
  assumes "reader_inv channel_rest r" "0 < cap" "reader_poll_read channel_poll cap r = (a, r')"
    and "a \<noteq> Ready []"
  shows "length (rd_inner r') + length (reader_unread channel_rest r')
    < length (rd_inner r) + length (reader_unread channel_rest r)"
proof -
  have inner: "length (rd_inner r') \<le> length (rd_inner r) \<and> (a = Pending \<longrightarrow> rd_inner r' \<noteq> rd_inner r \<and>
      length (rd_inner r') < length (rd_inner r))"
    using assms(3)
    by (cases "rd_inner r" rule: channel_poll.cases)
      (auto simp: reader_poll_read_def reader_put_def Let_def split: if_splits)
  show ?thesis
    using assms(1-3)
  proof (cases rule: channel_bytes.reader_poll_cases)
    case (put bs)
    then have "length (reader_unread channel_rest r') < length (reader_unread channel_rest r)"
      by simp
    with inner show ?thesis by simp
  qed (use assms(4) inner in simp_all)
qed

lemma read_to_end_channel:
  assumes "reader_inv channel_rest r" "0 \<notin> set caps"
    and "length (rd_inner r) + length (reader_unread channel_rest r) < length caps"
  shows "snd (read_to_end (reader_poll_read channel_poll) caps r)"
  using assms
proof (induction caps arbitrary: r)
  case (Cons cap caps)
  obtain a r' where p: "reader_poll_read channel_poll cap r = (a, r')" by fastforce
  from Cons.prems have cap: "0 < cap" "0 \<notin> set caps" by auto
  show ?case
  proof (cases "a = Ready []")
    case True
    with p show ?thesis by simp
  next
    case False
    note inv = channel_bytes.reader.inv [OF Cons.prems(1) cap(1) p False]
    have "snd (read_to_end (reader_poll_read channel_poll) caps r')"
      using reader_poll_channel_less [OF Cons.prems(1) cap(1) p False] Cons.prems(3)
      by (intro Cons.IH [OF inv cap(2)]) simp
    with p False show ?thesis
      by (auto simp: case_prod_beta Let_def split: poll.split list.split)
  qed
qed simp

text \<open>
  C11. Bytes written into a \<open>SenderWriter\<close> come out of a \<open>StreamReader\<close> on the other end of the
  channel: however the channel answers the writes, whenever its items arrive, and whatever the
  sizes of the buffers read into, the bytes read are the first of the bytes accepted, in
  order; they are all of them once the end is seen, and it is seen after enough reads.
\<close>

theorem sender_reader_transport:
  assumes "sender_run writes SenderWriter_new = (bs, w)"
    and "channel_rest c = sw_sent w" "0 \<notin> set caps"
  shows "let (got, ended) = read_to_end (reader_poll_read channel_poll) caps (StreamReader_new c)
    in (\<exists>more_bytes. bs = got @ more_bytes) \<and> (ended \<longrightarrow> got = bs) \<and>
       (length c + length bs < length caps \<longrightarrow> ended)"
proof -
  let ?r = "StreamReader_new c"
  have sent: "concat (channel_rest c) = bs" "[] \<notin> set (channel_rest c)"
    using sender_run_sent [OF assms(1)] assms(2) by (simp_all add: SenderWriter_new_def)
  then have inv: "reader_inv channel_rest ?r" and unread: "reader_unread channel_rest ?r = bs"
    by (simp_all add: reader_inv_def reader_unread_def StreamReader_new_def)
  have "length c + length bs < length caps \<Longrightarrow>
      snd (read_to_end (reader_poll_read channel_poll) caps ?r)"
    using read_to_end_channel [OF inv assms(3)] unread by (simp add: StreamReader_new_def)
  with channel_bytes.reader.read_to_end_unread [OF inv assms(3)] unread show ?thesis
    by (auto simp: case_prod_beta Let_def)
qed

theorem sender_reader_transport_witness:
  "read_to_end (reader_poll_read channel_poll) [1, 7, 1, 1, 1, 1, 1]
     (StreamReader_new [None, Some [1, 2], Some [3]]) = ([1, 2, 3], True)"
proof -
  have "sender_run [(Ready (Inr ()), True, [1, 2]), (Pending, True, [9]), (Ready (Inr ()), True, [3])]
      SenderWriter_new = ([1, 2, 3], \<lparr>sw_open = True, sw_sent = [[1, 2], [3]]\<rparr>)"
    by (simp add: sender_poll_write_def SenderWriter_new_def)
  from sender_reader_transport [OF this, of "[None, Some [1, 2], Some [3]]" "[1, 7, 1, 1, 1, 1, 1]"]
  show ?thesis
    by (simp add: channel_rest_def map_filter_simps StreamReader_new_def reader_poll_read_def
        reader_put_def Let_def)
qed

text \<open>An empty item, though, is taken for the end, and what comes after it is not read.\<close>

lemma reader_empty_item:
  "0 < cap \<Longrightarrow> read_to_end (reader_poll_read channel_poll) (cap # caps)
     (StreamReader_new (Some [] # c)) = ([], True)"
  by (simp add: reader_poll_read_def StreamReader_new_def Let_def)

end
