(* ===== verification/Server.thy ===== *)
theory Server
  imports Launcher Streams
begin

text \<open>
  The session server of \<^verbatim>\<open>crates/libp9cpu/src/server.rs\<close>: the table of dialed sessions, waiting
  for their command, and the table of running ones. An operation is a call that goes through
  phases, one for each stretch under a lock; between two phases the phases of other calls may
  run. What the operations ask of the operating system is a record of functions; the tasks
  they spawn have numbers.
\<close>

section \<open>State\<close>

datatype SrvError =
    SpawnFail io_error
  | SessionNotExist
  | IoErr io_error
  | DuplicateId
  | NoReturnCode
  | CommandError io_error
  | OpenPtyFail Errno
  | FdCloneFail io_error
  | MkDir io_error
  | InvalidFsTab string
  | BindFail io_error
  | No9pPort
  | StringContainsNull string
  | ChannelClosed

record Session =
  ses_stdin :: nat
  ses_stdout :: nat
  ses_stderr :: "nat option"
  ses_child :: nat
  ses_handles :: "nat list"

text \<open>A pending session has the port and the task of its 9P forwarding, when it has one.\<close>

type_synonym ninep = "(nat \<times> nat) option"

text \<open>\<open>srv_sent\<close> keeps what was written to which connection, \<open>srv_task\<close> numbers the tasks.\<close>

record ('i, 'w) Server =
  srv_sessions :: "'i \<rightharpoonup> Session"
  srv_pending :: "'i \<rightharpoonup> ninep"
  srv_task :: nat
  srv_sent :: "(nat \<times> u8 list) list"
  srv_world :: 'w

definition Server_new :: "'w \<Rightarrow> ('i, 'w) Server" where
  "Server_new w =
     \<lparr>srv_sessions = Map.empty, srv_pending = Map.empty, srv_task = 0, srv_sent = [], srv_world = w\<rparr>"

text \<open>
  The operating system: file descriptors, listeners, connections and children are numbers.
  \<open>os_spawn\<close> gets the port the launcher is to call and the three descriptors of the child.
  \<open>os_encode\<close> is \<open>prost\<close>'s encoding of the command.
\<close>

record 'w os =
  os_bind :: "'w \<Rightarrow> (io_error + nat) \<times> 'w"
  os_port :: "nat \<Rightarrow> 'w \<Rightarrow> (io_error + nat) \<times> 'w"
  os_openpty :: "'w \<Rightarrow> (Errno + nat \<times> nat) \<times> 'w"
  os_pipe2 :: "'w \<Rightarrow> (Errno + nat \<times> nat) \<times> 'w"
  os_try_clone :: "nat \<Rightarrow> 'w \<Rightarrow> (io_error + nat) \<times> 'w"
  os_async_fd :: "nat \<Rightarrow> 'w \<Rightarrow> (io_error + nat) \<times> 'w"
  os_spawn :: "nat \<Rightarrow> nat \<times> nat \<times> nat \<Rightarrow> 'w \<Rightarrow> (io_error + nat) \<times> 'w"
  os_accept :: "nat \<Rightarrow> 'w \<Rightarrow> (io_error + nat) \<times> 'w"
  os_write_all :: "nat \<Rightarrow> u8 list \<Rightarrow> 'w \<Rightarrow> (io_error + unit) \<times> 'w"
  os_shutdown :: "nat \<Rightarrow> 'w \<Rightarrow> (io_error + unit) \<times> 'w"
  os_wait :: "nat \<Rightarrow> 'w \<Rightarrow> (io_error + int option) \<times> 'w"
  os_encode :: "Cmd \<Rightarrow> u8 list"

type_synonym ('i, 'w, 'x) srv_act = "(('i, 'w) Server, SrvError, 'x) action"

definition on_os :: "('e \<Rightarrow> SrvError) \<Rightarrow> ('w \<Rightarrow> ('e + 'x) \<times> 'w) \<Rightarrow> ('i, 'w, 'x) srv_act" where
  "on_os err call s =
     (case call (srv_world s) of
        (Inl e, w) \<Rightarrow> (Inl (err e), s\<lparr>srv_world := w\<rparr>)
      | (Inr x, w) \<Rightarrow> (Inr x, s\<lparr>srv_world := w\<rparr>))"

text \<open>A write that succeeded is kept.\<close>

definition fd_write_all :: "'w os \<Rightarrow> nat \<Rightarrow> u8 list \<Rightarrow> ('i, 'w, unit) srv_act" where
  "fd_write_all K fd bs =
     and_then (on_os IoErr (os_write_all K fd bs)) (\<lambda>_ s.
       (Inr (), s\<lparr>srv_sent := srv_sent s @ [(fd, bs)]\<rparr>))"

definition get_session :: "'i \<Rightarrow> (Session \<Rightarrow> 'r) \<Rightarrow> ('i, 'w, 'r) srv_act" where
  "get_session sid op s =
     (case srv_sessions s sid of
        None \<Rightarrow> (Inl SessionNotExist, s)
      | Some info \<Rightarrow> (Inr (op info), s))"

definition spawn_task :: "('i, 'w, nat) srv_act" where
  "spawn_task s = (Inr (srv_task s), s\<lparr>srv_task := srv_task s + 1\<rparr>)"

section \<open>Dialing and 9P forwarding\<close>

definition dial :: "'i \<Rightarrow> ('i, 'w, unit) srv_act" where
  "dial sid s =
     (if srv_pending s sid \<noteq> None then (Inl DuplicateId, s)
      else (Inr (), s\<lparr>srv_pending := (srv_pending s)(sid \<mapsto> None)\<rparr>))"

definition ninep_forward :: "'w os \<Rightarrow> 'i \<Rightarrow> ('i, 'w, unit) srv_act" where
  "ninep_forward K sid s =
     (if srv_pending s sid = None then (Inl SessionNotExist, s)
      else and_then (on_os BindFail (os_bind K)) (\<lambda>listener.
           and_then (on_os BindFail (os_port K listener)) (\<lambda>port.
           and_then spawn_task (\<lambda>handle s.
             (Inr (), s\<lparr>srv_pending := (srv_pending s)(sid \<mapsto> Some (port, handle))\<rparr>)))) s)"

section \<open>Starting\<close>

definition take_pending :: "'i \<Rightarrow> ('i, 'w, ninep) srv_act" where
  "take_pending sid s =
     (case srv_pending s sid of
        None \<Rightarrow> (Inl SessionNotExist, s)
      | Some ninep \<Rightarrow> (Inr ninep, s\<lparr>srv_pending := (srv_pending s)(sid := None)\<rparr>))"

definition fill_cmd :: "Cmd \<Rightarrow> ninep \<Rightarrow> SrvError + Cmd" where
  "fill_cmd cmd ninep =
     (if cmd_ninep cmd then
        (case ninep of
           None \<Rightarrow> Inl No9pPort
         | Some (port, handle) \<Rightarrow>
             Inr (cmd\<lparr>cmd_fstab := fill_ninep_tab (cmd_tmp_mnt cmd) port (cmd_fstab cmd)\<rparr>))
      else Inr cmd)"

text \<open>
  The descriptors: those of the child (standard input, output, error), and those the session
  keeps, the master of a terminal twice or the other ends of three pipes.
\<close>

definition setup_tty :: "'w os \<Rightarrow> ('i, 'w, (nat \<times> nat \<times> nat) \<times> nat \<times> nat \<times> nat option) srv_act" where
  "setup_tty K =
     and_then (on_os OpenPtyFail (os_openpty K)) (\<lambda>(master, slave).
     and_then (on_os FdCloneFail (os_try_clone K slave)) (\<lambda>slave_out.
     and_then (on_os FdCloneFail (os_try_clone K slave)) (\<lambda>slave_err.
     and_then (on_os FdCloneFail (os_try_clone K master)) (\<lambda>master_copy.
     and_then (on_os IoErr (os_async_fd K master)) (\<lambda>fd_in.
     and_then (on_os IoErr (os_async_fd K master_copy)) (\<lambda>fd_out.
     succeed ((slave, slave_out, slave_err), fd_in, fd_out, None)))))))"

definition setup_pipes :: "'w os \<Rightarrow> ('i, 'w, (nat \<times> nat \<times> nat) \<times> nat \<times> nat \<times> nat option) srv_act" where
  "setup_pipes K =
     and_then (on_os OpenPtyFail (os_pipe2 K)) (\<lambda>(stdin_rd, stdin_wr).
     and_then (on_os OpenPtyFail (os_pipe2 K)) (\<lambda>(stdout_rd, stdout_wr).
     and_then (on_os OpenPtyFail (os_pipe2 K)) (\<lambda>(stderr_rd, stderr_wr).
     and_then (on_os IoErr (os_async_fd K stdin_wr)) (\<lambda>fd_in.
     and_then (on_os IoErr (os_async_fd K stdout_rd)) (\<lambda>fd_out.
     and_then (on_os IoErr (os_async_fd K stderr_rd)) (\<lambda>fd_err.
     succeed ((stdin_rd, stdout_wr, stderr_wr), fd_in, fd_out, Some fd_err)))))))"

text \<open>Everything after the pending session was taken; the table of sessions is locked.\<close>

definition start_locked :: "'w os \<Rightarrow> Cmd \<Rightarrow> 'i \<Rightarrow> ninep \<Rightarrow> ('i, 'w, unit) srv_act" where
  "start_locked K cmd sid ninep s =
     (if srv_sessions s sid \<noteq> None then (Inl DuplicateId, s)
      else
        and_then (on_os BindFail (os_bind K)) (\<lambda>listener.
        and_then (on_os BindFail (os_port K listener)) (\<lambda>port.
        and_then (lift_result (fill_cmd cmd ninep)) (\<lambda>cmd.
        and_then (if cmd_tty cmd then setup_tty K else setup_pipes K)
          (\<lambda>(child_fds, fd_in, fd_out, fd_err).
        and_then (on_os SpawnFail (os_spawn K port child_fds)) (\<lambda>child.
        and_then (on_os IoErr (os_accept K listener)) (\<lambda>conn.
        let buf = os_encode K cmd in
        and_then (fd_write_all K conn (le_bytes 8 (length buf))) (\<lambda>_.
        and_then (fd_write_all K conn buf) (\<lambda>_.
        and_then (on_os IoErr (os_shutdown K conn)) (\<lambda>_ s.
          (Inr (), s\<lparr>srv_sessions := (srv_sessions s)(sid \<mapsto>
             \<lparr>ses_stdin = fd_in, ses_stdout = fd_out, ses_stderr = fd_err, ses_child = child,
              ses_handles = (case ninep of None \<Rightarrow> [] | Some (p, handle) \<Rightarrow> [handle])\<rparr>)\<rparr>)))))))))) s)"

definition start :: "'w os \<Rightarrow> Cmd \<Rightarrow> 'i \<Rightarrow> ('i, 'w, unit) srv_act" where
  "start K cmd sid = and_then (take_pending sid) (start_locked K cmd sid)"

section \<open>Standard streams and waiting\<close>

definition stdin :: "'w os \<Rightarrow> 'i \<Rightarrow> u8 list list \<Rightarrow> ('i, 'w, unit) srv_act" where
  "stdin K sid in_stream =
     and_then (get_session sid ses_stdin) (\<lambda>cmd_stdin.
     for_each (fd_write_all K cmd_stdin) in_stream)"

text \<open>The task is spawned before its handle is put into the session.\<close>

definition push_handle :: "'i \<Rightarrow> nat \<Rightarrow> ('i, 'w, unit) srv_act" where
  "push_handle sid handle =
     and_then (get_session sid (\<lambda>info. info)) (\<lambda>info s.
       (Inr (), s\<lparr>srv_sessions := (srv_sessions s)(sid \<mapsto>
          info\<lparr>ses_handles := ses_handles info @ [handle]\<rparr>)\<rparr>))"

definition stdout_spawn :: "'i \<Rightarrow> ('i, 'w, nat) srv_act" where
  "stdout_spawn sid = and_then (get_session sid ses_stdout) (\<lambda>_. spawn_task)"

definition stderr_spawn :: "'i \<Rightarrow> ('i, 'w, nat) srv_act" where
  "stderr_spawn sid = and_then (get_session sid ses_stderr) (\<lambda>_. spawn_task)"

definition child_result :: "'w os \<Rightarrow> nat \<Rightarrow> ('i, 'w, SrvError + int) srv_act" where
  "child_result K child s =
     (case os_wait K child (srv_world s) of
        (Inr (Some code), w) \<Rightarrow> (Inr (Inr code), s\<lparr>srv_world := w\<rparr>)
      | (Inr None, w) \<Rightarrow> (Inr (Inl NoReturnCode), s\<lparr>srv_world := w\<rparr>)
      | (Inl e, w) \<Rightarrow> (Inr (Inl (CommandError e)), s\<lparr>srv_world := w\<rparr>))"

definition remove_session :: "'i \<Rightarrow> ('i, 'w, unit) srv_act" where
  "remove_session sid s = (Inr (), s\<lparr>srv_sessions := (srv_sessions s)(sid := None)\<rparr>)"

text \<open>Joining the tasks only waits for them; their results are dropped.\<close>

definition wait :: "'w os \<Rightarrow> 'i \<Rightarrow> ('i, 'w, int) srv_act" where
  "wait K sid =
     and_then (get_session sid ses_child) (\<lambda>child.
     and_then (child_result K child) (\<lambda>ret.
     and_then (get_session sid ses_handles) (\<lambda>handles.
     and_then (remove_session sid) (\<lambda>_.
     lift_result ret))))"

section \<open>Copying\<close>

text \<open>
  \<open>copy_to\<close> on the results of its reads (an empty read is the end of the file) and on whether
  each send finds the channel open: what is sent, and the result, \<open>None\<close> while it still waits.
\<close>

fun copy_to :: "((io_error + u8 list) \<times> bool) list \<Rightarrow> u8 list list \<times> (SrvError + unit) option" where
  "copy_to [] = ([], None)"
| "copy_to ((Inl e, sends) # reads) = ([], Some (Inl (IoErr e)))"
| "copy_to ((Inr buf, sends) # reads) =
     (if buf = [] then ([], Some (Inr ()))
      else if sends then (let (out, r) = copy_to reads in (buf # out, r))
      else ([], Some (Inl ChannelClosed)))"

text \<open>
  The loop of \<open>ninep_forward\<close> on what its \<open>select!\<close> yields: a read from the mount in the
  kernel, with whether the channel to the client is open; or an item of the client's stream,
  with the result of the write to the kernel. The result: what was sent to the client and the
  bytes that were written.
\<close>

datatype forward_event =
    FromKernel "io_error + u8 list" bool
  | FromClient "u8 list option" "io_error + nat"

fun forward_loop ::
  "forward_event list \<Rightarrow> u8 list list \<times> u8 list \<times> (SrvError + unit) option" where
  "forward_loop [] = ([], [], None)"
| "forward_loop (FromKernel (Inl e) sends # es) = ([], [], Some (Inl (IoErr e)))"
| "forward_loop (FromKernel (Inr buf) sends # es) =
     (if buf = [] then ([], [], Some (Inr ()))
      else if sends then (let (out, bs, r) = forward_loop es in (buf # out, bs, r))
      else ([], [], Some (Inl ChannelClosed)))"
| "forward_loop (FromClient None w # es) = ([], [], Some (Inr ()))"
| "forward_loop (FromClient (Some item) (Inl e) # es) = ([], [], Some (Inl (IoErr e)))"
| "forward_loop (FromClient (Some item) (Inr n) # es) =
     (if n = 0 then ([], [], Some (Inr ()))
      else (let (out, bs, r) = forward_loop es in (out, take n item @ bs, r)))"

text \<open>
  The thread that waits for the connection of the mount: what its \<open>select!\<close> yields, the time
  being up or a peer, and what the conversions of the sockets give.
\<close>

datatype 'c accept_event = TimeUp | Accepts "io_error + 'c"

definition accept_timeout ::
  "io_error + unit \<Rightarrow> io_error + unit \<Rightarrow> 'c accept_event \<Rightarrow> ('c \<Rightarrow> io_error + 'd) \<Rightarrow> io_error + 'd" where
  "accept_timeout set_nonblocking from_std maybe_peer into_std =
     (case set_nonblocking of
        Inl e \<Rightarrow> Inl e
      | Inr _ \<Rightarrow>
          (case from_std of
             Inl e \<Rightarrow> Inl e
           | Inr _ \<Rightarrow>
               (case maybe_peer of
                  TimeUp \<Rightarrow> Inl (Simple TimedOut [])
                | Accepts (Inl e) \<Rightarrow> Inl e
                | Accepts (Inr peer) \<Rightarrow> into_std peer)))"

text \<open>The task: \<open>None\<close> is a closed channel; without a connection it ends, without an error.\<close>

definition forward_task ::
  "(io_error + 'd) option \<Rightarrow> io_error + unit \<Rightarrow> io_error + unit \<Rightarrow> forward_event list \<Rightarrow>
   u8 list list \<times> u8 list \<times> (SrvError + unit) option" where
  "forward_task received set_nonblocking from_std es =
     (case received of
        None \<Rightarrow> ([], [], Some (Inl ChannelClosed))
      | Some (Inl e) \<Rightarrow> ([], [], Some (Inr ()))
      | Some (Inr std_stream) \<Rightarrow>
          (case set_nonblocking of
             Inl e \<Rightarrow> ([], [], Some (Inl (IoErr e)))
           | Inr _ \<Rightarrow>
               (case from_std of
                  Inl e \<Rightarrow> ([], [], Some (Inl (IoErr e)))
                | Inr _ \<Rightarrow> forward_loop es)))"

section \<open>Calls in progress\<close>

datatype 'i scall =
    Dialing 'i
  | Forwarding 'i
  | Starting 'i Cmd
  | StartHolds 'i Cmd ninep
  | Feeding 'i "u8 list list"
  | ReadingOut 'i
  | ReadingErr 'i
  | HandlePush 'i nat
  | Waiting 'i
  | WaitsChild 'i nat
  | WaitsHandles 'i "SrvError + int"
  | WaitsRemove 'i "SrvError + int"
  | Returned "SrvError + int"

text \<open>A call is its request and what it is doing now.\<close>

record ('i, 'w) system =
  sys_server :: "('i, 'w) Server"
  sys_calls :: "('i scall \<times> 'i scall) list"

definition returned :: "SrvError + unit \<Rightarrow> 'i scall" where
  "returned r = Returned (map_sum id (\<lambda>_. 0) r)"

text \<open>The next phase of a call: its action and what the call is afterwards.\<close>

fun call_phase :: "'w os \<Rightarrow> 'i scall \<Rightarrow> ('i, 'w) Server \<Rightarrow> 'i scall \<times> ('i, 'w) Server" where
  "call_phase K (Dialing sid) s = (let (r, s') = dial sid s in (returned r, s'))"
| "call_phase K (Forwarding sid) s = (let (r, s') = ninep_forward K sid s in (returned r, s'))"
| "call_phase K (Starting sid cmd) s =
     (case take_pending sid s of
         (Inl e, s') \<Rightarrow> (Returned (Inl e), s')
       | (Inr ninep, s') \<Rightarrow> (StartHolds sid cmd ninep, s'))"
| "call_phase K (StartHolds sid cmd ninep) s = (let (r, s') = start_locked K cmd sid ninep s in (returned r, s'))"
| "call_phase K (Feeding sid items) s = (let (r, s') = stdin K sid items s in (returned r, s'))"
| "call_phase K (ReadingOut sid) s =
     (case stdout_spawn sid s of
         (Inl e, s') \<Rightarrow> (Returned (Inl e), s')
       | (Inr handle, s') \<Rightarrow> (HandlePush sid handle, s'))"
| "call_phase K (ReadingErr sid) s =
     (case stderr_spawn sid s of
         (Inl e, s') \<Rightarrow> (Returned (Inl e), s')
       | (Inr handle, s') \<Rightarrow> (HandlePush sid handle, s'))"
| "call_phase K (HandlePush sid handle) s = (let (r, s') = push_handle sid handle s in (returned r, s'))"
| "call_phase K (Waiting sid) s =
     (case get_session sid ses_child s of
         (Inl e, s') \<Rightarrow> (Returned (Inl e), s')
       | (Inr child, s') \<Rightarrow> (WaitsChild sid child, s'))"
| "call_phase K (WaitsChild sid child) s =
     (case child_result K child s of
         (Inl e, s') \<Rightarrow> (Returned (Inl e), s')
       | (Inr ret, s') \<Rightarrow> (WaitsHandles sid ret, s'))"
| "call_phase K (WaitsHandles sid ret) s =
     (case get_session sid ses_handles s of
         (Inl e, s') \<Rightarrow> (Returned (Inl e), s')
       | (Inr handles, s') \<Rightarrow> (WaitsRemove sid ret, s'))"
| "call_phase K (WaitsRemove sid ret) s = (Returned ret, snd (remove_session sid s))"
| "call_phase K (Returned r) s = (Returned r, s)"

fun call_returned :: "'i scall \<Rightarrow> bool" where
  "call_returned (Returned r) = True"
| "call_returned _ = False"

fun call_starts :: "'i scall \<Rightarrow> bool" where
  "call_starts (Dialing sid) = True"
| "call_starts (Forwarding sid) = True"
| "call_starts (Starting sid cmd) = True"
| "call_starts (Feeding sid items) = True"
| "call_starts (ReadingOut sid) = True"
| "call_starts (ReadingErr sid) = True"
| "call_starts (Waiting sid) = True"
| "call_starts _ = False"

text \<open>A request arrives, or the next phase of a call runs.\<close>

inductive system_step :: "'w os \<Rightarrow> ('i, 'w) system \<Rightarrow> ('i, 'w) system \<Rightarrow> bool" for K where
  request: "call_starts c \<Longrightarrow> system_step K s (s\<lparr>sys_calls := sys_calls s @ [(c, c)]\<rparr>)"
| phase: "i < length (sys_calls s) \<Longrightarrow> sys_calls s ! i = (q, c) \<Longrightarrow> \<not> call_returned c \<Longrightarrow>
    call_phase K c (sys_server s) = (c', server) \<Longrightarrow>
    system_step K s (s\<lparr>sys_server := server, sys_calls := (sys_calls s)[i := (q, c')]\<rparr>)"

definition system_new :: "'w \<Rightarrow> ('i, 'w) system" where
  "system_new w = \<lparr>sys_server = Server_new w, sys_calls = []\<rparr>"

end
