(* ===== verification/Rpc.thy ===== *)
theory Rpc
  imports Server
begin

text \<open>
  The two ends of the gRPC transport: the handlers of
  \<^verbatim>\<open>crates/libp9cpu/src/rpc/rpc_server.rs\<close> over the session server, and the client stub of
  \<^verbatim>\<open>crates/libp9cpu/src/rpc/rpc_client.rs\<close>. What \<open>tonic\<close> generates (the calls on a channel) and
  the \<open>uuid\<close> crate are records of functions.
\<close>

section \<open>Messages and statuses\<close>

record StdinRequest =
  sr_id :: "u8 list option"
  sr_data :: "u8 list"

record NinepForwardRequest =
  nr_id :: "u8 list option"
  nr_data :: "u8 list"

text \<open>The statuses the server makes; others come from the transport.\<close>

datatype Status = Invalid_argument string | Internal string | Other_status nat string

text \<open>\<open>new_v4\<close> draws from the world; \<open>from_slice\<close> refuses bytes that are no identifier.\<close>

record ('i, 'w) uuids =
  u_new :: "'w \<Rightarrow> 'i \<times> 'w"
  u_from_slice :: "u8 list \<Rightarrow> string + 'i"
  u_bytes :: "'i \<Rightarrow> u8 list"

text \<open>\<open>Display\<close> of the errors of the server, given that of \<open>io::Error\<close>.\<close>

fun SrvError_to_string :: "(io_error \<Rightarrow> string) \<Rightarrow> SrvError \<Rightarrow> string" where
  "SrvError_to_string show_io (SpawnFail e) = ''Failed to spawn: '' @ show_io e"
| "SrvError_to_string show_io SessionNotExist = ''Session does not exist''"
| "SrvError_to_string show_io (IoErr e) = ''IO Error: '' @ show_io e"
| "SrvError_to_string show_io DuplicateId = ''Duplicate session id''"
| "SrvError_to_string show_io NoReturnCode = ''Command exited without return code.''"
| "SrvError_to_string show_io (CommandError e) = ''Command error: '' @ show_io e"
| "SrvError_to_string show_io (OpenPtyFail e) = ''Cannot open pty device''"
| "SrvError_to_string show_io (FdCloneFail e) = ''Cannot clone file descriptor: '' @ show_io e"
| "SrvError_to_string show_io (MkDir e) = ''Cannot create directory: '' @ show_io e"
| "SrvError_to_string show_io (InvalidFsTab s) = ''Invalid FsTab: '' @ s"
| "SrvError_to_string show_io (BindFail e) = ''Cannot bind listener: '' @ show_io e"
| "SrvError_to_string show_io No9pPort = ''9p forward not setup''"
| "SrvError_to_string show_io (StringContainsNull s) = ''String contains null: '' @ s"
| "SrvError_to_string show_io ChannelClosed = ''Channel closed''"

definition Status_from :: "(io_error \<Rightarrow> string) \<Rightarrow> SrvError \<Rightarrow> Status" where
  "Status_from show_io e = Internal (SrvError_to_string show_io e)"

definition vec_to_uuid :: "('i, 'w) uuids \<Rightarrow> u8 list \<Rightarrow> Status + 'i" where
  "vec_to_uuid U v = (case u_from_slice U v of Inl e \<Rightarrow> Inl (Invalid_argument e) | Inr sid \<Rightarrow> Inr sid)"

section \<open>The handlers\<close>

text \<open>The environment of the service: machine, identifiers and the texts of I/O errors.\<close>

record ('i, 'w) service =
  sv_os :: "'w os"
  sv_uuids :: "('i, 'w) uuids"
  sv_show :: "io_error \<Rightarrow> string"

type_synonym ('i, 'w, 'x) handler = "(('i, 'w) Server, Status, 'x) action"

definition on_server :: "('i, 'w) service \<Rightarrow> ('i, 'w, 'x) srv_act \<Rightarrow> ('i, 'w, 'x) handler" where
  "on_server V = map_err (Status_from (sv_show V))"

definition service_dial :: "('i, 'w) service \<Rightarrow> ('i, 'w, u8 list) handler" where
  "service_dial V s =
     (let (sid, w) = u_new (sv_uuids V) (srv_world s)
      in and_then (on_server V (dial sid)) (\<lambda>_. succeed (u_bytes (sv_uuids V) sid)) (s\<lparr>srv_world := w\<rparr>))"

definition service_start :: "('i, 'w) service \<Rightarrow> u8 list \<Rightarrow> Cmd option \<Rightarrow> ('i, 'w, unit) handler" where
  "service_start V v cmd =
     (case cmd of
        None \<Rightarrow> throw (Invalid_argument ''No cmd provided.'')
      | Some cmd \<Rightarrow>
          and_then (lift_result (vec_to_uuid (sv_uuids V) v)) (\<lambda>sid.
          on_server V (start (sv_os V) cmd sid)))"

text \<open>
  The first request has to name the session. \<open>stdin\<close> gives its data back to the stream;
  \<open>ninep_forward\<close> drops it.
\<close>

definition no_session_id :: Status where
  "no_session_id = Invalid_argument ''no session id.''"

definition stdin_stream ::
  "('i, 'w) uuids \<Rightarrow> (Status + StdinRequest) channel \<Rightarrow>
   Status + ('i \<times> (u8 list, (Status + StdinRequest) channel scan) PrependedStream)" where
  "stdin_stream U c =
     (case channel_next c of
        Some (Inr req, c') \<Rightarrow>
          (case sr_id req of
             None \<Rightarrow> Inl no_session_id
           | Some v \<Rightarrow>
               (case vec_to_uuid U v of
                  Inl e \<Rightarrow> Inl e
                | Inr sid \<Rightarrow> Inr (sid, \<lparr>pre_stream = scan_new c', pre_item = Some (sr_data req)\<rparr>)))
      | _ \<Rightarrow> Inl no_session_id)"

definition ninep_stream ::
  "('i, 'w) uuids \<Rightarrow> (Status + NinepForwardRequest) channel \<Rightarrow>
   Status + ('i \<times> (Status + NinepForwardRequest) channel scan)" where
  "ninep_stream U c =
     (case channel_next c of
        Some (Inr req, c') \<Rightarrow>
          (case nr_id req of
             None \<Rightarrow> Inl no_session_id
           | Some v \<Rightarrow> map_sum id (\<lambda>sid. (sid, scan_new c')) (vec_to_uuid U v))
      | _ \<Rightarrow> Inl no_session_id)"

text \<open>
  \<open>while let Some(item) = in_stream.next().await\<close>: the items of the stream, with more polls
  than it can answer (\<open>server_items.prepended.poll_times_all\<close>).
\<close>

definition stdin_items :: "(u8 list, (Status + StdinRequest) channel scan) PrependedStream \<Rightarrow> u8 list list" where
  "stdin_items p =
     fst (poll_times (prepended_poll (scan_poll sr_data channel_poll)) (length (scan_stream (pre_stream p)) + 2) p)"

definition service_stdin :: "('i, 'w) service \<Rightarrow> (Status + StdinRequest) channel \<Rightarrow> ('i, 'w, unit) handler" where
  "service_stdin V c =
     and_then (lift_result (stdin_stream (sv_uuids V) c)) (\<lambda>(sid, stream).
     on_server V (stdin (sv_os V) sid (stdin_items stream)))"

text \<open>The streams of the answers are those of the tasks; each item is wrapped in \<open>Ok\<close>.\<close>

definition service_stdout :: "('i, 'w) service \<Rightarrow> u8 list \<Rightarrow> ('i, 'w, nat) handler" where
  "service_stdout V v =
     and_then (lift_result (vec_to_uuid (sv_uuids V) v)) (\<lambda>sid.
     on_server V (and_then (stdout_spawn sid) (\<lambda>handle.
       and_then (push_handle sid handle) (\<lambda>_. succeed handle))))"

definition service_stderr :: "('i, 'w) service \<Rightarrow> u8 list \<Rightarrow> ('i, 'w, nat) handler" where
  "service_stderr V v =
     and_then (lift_result (vec_to_uuid (sv_uuids V) v)) (\<lambda>sid.
     on_server V (and_then (stderr_spawn sid) (\<lambda>handle.
       and_then (push_handle sid handle) (\<lambda>_. succeed handle))))"

definition service_ninep_forward ::
  "('i, 'w) service \<Rightarrow> (Status + NinepForwardRequest) channel \<Rightarrow> ('i, 'w, unit) handler" where
  "service_ninep_forward V c =
     and_then (lift_result (ninep_stream (sv_uuids V) c)) (\<lambda>(sid, stream).
     on_server V (ninep_forward (sv_os V) sid))"

definition service_wait :: "('i, 'w) service \<Rightarrow> u8 list \<Rightarrow> ('i, 'w, int) handler" where
  "service_wait V v =
     and_then (lift_result (vec_to_uuid (sv_uuids V) v)) (\<lambda>sid. on_server V (wait (sv_os V) sid))"

text \<open>The answers to the client as gRPC messages: every item is \<open>Ok\<close>.\<close>

definition result_stream_items :: "u8 list list \<Rightarrow> (Status + u8 list) list" where
  "result_stream_items items = map Inr items"

section \<open>The client stub\<close>

datatype RpcError =
    Rpc Status
  | InvalidUuid string
  | JoinError string
  | Transport string
  | NinepUnwrap Status

text \<open>
  A generated client: each call with its request, on the state of what is at the other end.
  The streaming calls take the channel of requests; \<open>stub_ninep\<close> answers after the first one.
\<close>

record 's stub =
  stub_dial :: "('s, Status, u8 list) action"
  stub_start :: "u8 list \<Rightarrow> Cmd option \<Rightarrow> ('s, Status, unit) action"
  stub_stdin :: "StdinRequest channel \<Rightarrow> ('s, Status, unit) action"
  stub_stdout :: "u8 list \<Rightarrow> ('s, Status, nat) action"
  stub_stderr :: "u8 list \<Rightarrow> ('s, Status, nat) action"
  stub_ninep :: "NinepForwardRequest channel \<Rightarrow> ('s, Status, unit) action"
  stub_wait :: "u8 list \<Rightarrow> ('s, Status, int) action"

definition RpcClient_dial :: "('i, 'w) uuids \<Rightarrow> 's stub \<Rightarrow> ('s, RpcError, 'i) action" where
  "RpcClient_dial U C =
     and_then (map_err Rpc (stub_dial C)) (\<lambda>id_vec.
     map_err InvalidUuid (lift_result (u_from_slice U id_vec)))"

definition RpcClient_start ::
  "('i, 'w) uuids \<Rightarrow> 's stub \<Rightarrow> 'i \<Rightarrow> Cmd \<Rightarrow> ('s, RpcError, unit) action" where
  "RpcClient_start U C sid command = map_err Rpc (stub_start C (u_bytes U sid) (Some command))"

definition RpcClient_stdout :: "('i, 'w) uuids \<Rightarrow> 's stub \<Rightarrow> 'i \<Rightarrow> ('s, RpcError, nat) action" where
  "RpcClient_stdout U C sid = map_err Rpc (stub_stdout C (u_bytes U sid))"

definition RpcClient_stderr :: "('i, 'w) uuids \<Rightarrow> 's stub \<Rightarrow> 'i \<Rightarrow> ('s, RpcError, nat) action" where
  "RpcClient_stderr U C sid = map_err Rpc (stub_stderr C (u_bytes U sid))"

definition RpcClient_wait :: "('i, 'w) uuids \<Rightarrow> 's stub \<Rightarrow> 'i \<Rightarrow> ('s, RpcError, int) action" where
  "RpcClient_wait U C sid = map_err Rpc (stub_wait C (u_bytes U sid))"

text \<open>
  The requests of the standard input: none when the stream ends without an item; otherwise
  the first carries the session. The channel of requests, poll by poll.
\<close>

definition requests_of :: "('i \<Rightarrow> 'j) \<Rightarrow> 'j \<Rightarrow> 'i channel \<Rightarrow> 'j channel" where
  "requests_of f first_req c = Some first_req # map (map_option f) c"

definition stdin_requests :: "('i, 'w) uuids \<Rightarrow> 'i \<Rightarrow> u8 list channel \<Rightarrow> StdinRequest channel option" where
  "stdin_requests U sid c =
     (case channel_next c of
        None \<Rightarrow> None
      | Some (first_vec, c') \<Rightarrow>
          Some (requests_of (\<lambda>data. \<lparr>sr_id = None, sr_data = data\<rparr>)
            \<lparr>sr_id = Some (u_bytes U sid), sr_data = first_vec\<rparr> c'))"

definition RpcClient_stdin ::
  "('i, 'w) uuids \<Rightarrow> 's stub \<Rightarrow> 'i \<Rightarrow> u8 list channel \<Rightarrow> ('s, RpcError, unit) action" where
  "RpcClient_stdin U C sid c =
     (case stdin_requests U sid c of
        None \<Rightarrow> succeed ()
      | Some reqs \<Rightarrow> map_err Rpc (stub_stdin C reqs))"

definition ninep_requests :: "('i, 'w) uuids \<Rightarrow> 'i \<Rightarrow> u8 list channel \<Rightarrow> NinepForwardRequest channel" where
  "ninep_requests U sid c =
     requests_of (\<lambda>data. \<lparr>nr_id = None, nr_data = data\<rparr>) \<lparr>nr_id = Some (u_bytes U sid), nr_data = []\<rparr> c"

text \<open>The result is unwrapped: an error panics.\<close>

definition RpcClient_ninep_forward ::
  "('i, 'w) uuids \<Rightarrow> 's stub \<Rightarrow> 'i \<Rightarrow> u8 list channel \<Rightarrow> ('s, RpcError, unit) action" where
  "RpcClient_ninep_forward U C sid c = map_err NinepUnwrap (stub_ninep C (ninep_requests U sid c))"

text \<open>\<open>TryOrErrInto\<close>: a future of a result that may itself fail, polled.\<close>

definition try_or_err_poll :: "('e2 \<Rightarrow> 'e1) \<Rightarrow> ('e2 + ('e1 + 'r)) poll \<Rightarrow> ('e1 + 'r) poll" where
  "try_or_err_poll err_from p =
     (case p of
        Pending \<Rightarrow> Pending
      | Ready (Inr r) \<Rightarrow> Ready r
      | Ready (Inl e) \<Rightarrow> Ready (Inl (err_from e)))"

section \<open>The two ends connected\<close>

text \<open>
  A transport that loses nothing: each call is handled by the service, and every request of a
  stream arrives.
\<close>

definition direct :: "('i, 'w) service \<Rightarrow> ('i, 'w) Server stub" where
  "direct V =
     \<lparr>stub_dial = service_dial V, stub_start = service_start V,
      stub_stdin = (\<lambda>reqs. service_stdin V (map (map_option Inr) reqs)),
      stub_stdout = service_stdout V, stub_stderr = service_stderr V,
      stub_ninep = (\<lambda>reqs. service_ninep_forward V (map (map_option Inr) reqs)),
      stub_wait = service_wait V\<rparr>"

text \<open>The requests as a channel are what polling the client's stream yields.\<close>

lemma requests_of_rest: "channel_rest (requests_of f x c) = x # map f (channel_rest c)"
  by (induction c) (auto simp: requests_of_def channel_rest_def map_filter_simps split: option.split)

lemma requests_of_polled:
  "poll_times (prepended_poll (map_poll f channel_poll)) (length c + 2) (PrependedStream_new c x) =
     (channel_rest (requests_of f x c), True)"
  by (subst client_requests.prepended.poll_times_all)
    (simp_all add: requests_of_rest PrependedStream_new_def prepended_left_def prepended_rest_def)

lemma stdin_items_rest:
  "stdin_items p = prepended_rest (scan_rest sr_data channel_rest) p"
  unfolding stdin_items_def
  by (subst server_items.prepended.poll_times_all) (auto simp: prepended_left_def)

end
