(* ===== verification/Client.thy ===== *)
theory Client
  imports Rpc
begin

text \<open>
  The client of \<^verbatim>\<open>crates/libp9cpu/src/client.rs\<close>: a session is started and waited for over a
  transport (the trait \<open>ClientInnerT\<close>, a record of its operations), with the terminal in raw
  mode while it waits. The client keeps the list of what it did. The tasks it spawns have
  numbers; what their loops do is modelled apart.
\<close>

section \<open>State\<close>

datatype 'e ClientError =
    NotStarted
  | NonZeroExitCode int
  | AlreadyStarted
  | ClientIoErr io_error
  | Sys Errno
  | ClientChannelClosed
  | Inner 'e

record 'i SessionInfo =
  si_sid :: 'i
  si_handles :: "nat list"
  si_tty :: bool

datatype ('i, 'a) client_event =
    Dialed
  | ForwardNinep 'i
  | ServeUnpfs
  | StartCommand 'i Cmd
  | OpenStdout 'i
  | OpenStderr 'i
  | OpenStdin 'i
  | SetTerminal 'a
  | WaitCommand 'i
  | StopStdin
  | Joined nat

record ('i, 's, 'a, 't) P9cpuClient =
  cl_session :: "'i SessionInfo option"
  cl_inner :: 's
  cl_tasks :: nat
  cl_log :: "('i, 'a) client_event list"
  cl_term :: 't

definition P9cpuClient_new :: "'s \<Rightarrow> 't \<Rightarrow> ('i, 's, 'a, 't) P9cpuClient" where
  "P9cpuClient_new s t = \<lparr>cl_session = None, cl_inner = s, cl_tasks = 0, cl_log = [], cl_term = t\<rparr>"

text \<open>The trait \<open>ClientInnerT\<close>, and the terminal of the standard input.\<close>

record ('s, 'e, 'i) ClientInner =
  in_dial :: "('s, 'e, 'i) action"
  in_start :: "'i \<Rightarrow> Cmd \<Rightarrow> ('s, 'e, unit) action"
  in_stdout :: "'i \<Rightarrow> ('s, 'e, nat) action"
  in_stderr :: "'i \<Rightarrow> ('s, 'e, nat) action"
  in_stdin :: "'i \<Rightarrow> u8 list channel \<Rightarrow> ('s, 'e, unit) action"
  in_ninep_forward :: "'i \<Rightarrow> u8 list channel \<Rightarrow> ('s, 'e, unit) action"
  in_wait :: "'i \<Rightarrow> ('s, 'e, int) action"

record ('a, 't) terminal =
  tm_getattr :: "'t \<Rightarrow> (Errno + 'a) \<times> 't"
  tm_makeraw :: "'a \<Rightarrow> 'a"
  tm_setattr :: "'a \<Rightarrow> 't \<Rightarrow> (Errno + unit) \<times> 't"

type_synonym ('i, 's, 'a, 't, 'e, 'x) client_act =
  "(('i, 's, 'a, 't) P9cpuClient, 'e ClientError, 'x) action"

definition on_inner ::
  "('i, 'a) client_event \<Rightarrow> ('s, 'e, 'x) action \<Rightarrow> ('i, 's, 'a, 't, 'e, 'x) client_act" where
  "on_inner ev m c =
     (let (r, s) = m (cl_inner c)
      in (map_sum Inner id r, c\<lparr>cl_inner := s, cl_log := cl_log c @ [ev]\<rparr>))"

definition note_event :: "('i, 'a) client_event \<Rightarrow> ('i, 's, 'a, 't, 'e, unit) client_act" where
  "note_event ev c = (Inr (), c\<lparr>cl_log := cl_log c @ [ev]\<rparr>)"

definition spawn_client_task :: "('i, 's, 'a, 't, 'e, nat) client_act" where
  "spawn_client_task c = (Inr (cl_tasks c), c\<lparr>cl_tasks := cl_tasks c + 1\<rparr>)"

section \<open>Starting\<close>

text \<open>\<open>in_stdin\<close> only makes the future here; the task it is awaited in is \<open>stdin_task\<close>.\<close>

definition setup_stdio ::
  "('s, 'e, 'i) ClientInner \<Rightarrow> 'i \<Rightarrow> bool \<Rightarrow> ('i, 's, 'a, 't, 'e, nat list) client_act" where
  "setup_stdio R sid tty =
     and_then (on_inner (OpenStdout sid) (in_stdout R sid)) (\<lambda>_.
     and_then spawn_client_task (\<lambda>out_handle.
     and_then
       (if tty then succeed []
        else and_then (on_inner (OpenStderr sid) (in_stderr R sid)) (\<lambda>_.
             and_then spawn_client_task (\<lambda>err_handle. succeed [err_handle]))) (\<lambda>err_handles.
     and_then (note_event (OpenStdin sid)) (\<lambda>_.
     and_then spawn_client_task (\<lambda>in_handle.
     succeed (out_handle # err_handles @ [in_handle]))))))"

text \<open>\<open>replies\<close> is what the 9P server of the client will write.\<close>

definition client_start ::
  "('s, 'e, 'i) ClientInner \<Rightarrow> u8 list channel \<Rightarrow> Cmd \<Rightarrow> ('i, 's, 'a, 't, 'e, unit) client_act" where
  "client_start R replies command c =
     (if cl_session c \<noteq> None then (Inl AlreadyStarted, c)
      else
        and_then (on_inner Dialed (in_dial R)) (\<lambda>sid.
        and_then (only_if (cmd_ninep command)
          (and_then (on_inner (ForwardNinep sid) (in_ninep_forward R sid replies)) (\<lambda>_.
           and_then spawn_client_task (\<lambda>_. note_event ServeUnpfs)))) (\<lambda>_.
        and_then (on_inner (StartCommand sid command) (in_start R sid command)) (\<lambda>_.
        and_then (setup_stdio R sid (cmd_tty command)) (\<lambda>handles c.
          (Inr (), c\<lparr>cl_session := Some \<lparr>si_sid = sid, si_handles = handles, si_tty = cmd_tty command\<rparr>\<rparr>))))) c)"

section \<open>Waiting\<close>

definition wait_inner ::
  "('s, 'e, 'i) ClientInner \<Rightarrow> 'i \<Rightarrow> ('i, 's, 'a, 't, 'e, unit) client_act" where
  "wait_inner R sid =
     and_then (on_inner (WaitCommand sid) (in_wait R sid)) (\<lambda>code.
     if code = 0 then succeed () else throw (NonZeroExitCode code))"

definition take_session :: "('i, 's, 'a, 't, 'e, 'i SessionInfo) client_act" where
  "take_session c =
     (case cl_session c of
        None \<Rightarrow> (Inl NotStarted, c)
      | Some info \<Rightarrow> (Inr info, c\<lparr>cl_session := None\<rparr>))"

definition get_terminal :: "('a, 't) terminal \<Rightarrow> ('i, 's, 'a, 't, 'e, 'a) client_act" where
  "get_terminal T c =
     (let (r, t) = tm_getattr T (cl_term c) in (map_sum Sys id r, c\<lparr>cl_term := t\<rparr>))"

definition set_terminal :: "('a, 't) terminal \<Rightarrow> 'a \<Rightarrow> ('i, 's, 'a, 't, 'e, unit) client_act" where
  "set_terminal T a c =
     (let (r, t) = tm_setattr T a (cl_term c)
      in (map_sum Sys id r, c\<lparr>cl_term := t, cl_log := cl_log c @ [SetTerminal a]\<rparr>))"

definition raw_mode :: "('a, 't) terminal \<Rightarrow> bool \<Rightarrow> ('i, 's, 'a, 't, 'e, 'a option) client_act" where
  "raw_mode T tty =
     (if tty then
        and_then (get_terminal T) (\<lambda>current.
        and_then (set_terminal T (tm_makeraw T current)) (\<lambda>_. succeed (Some current)))
      else succeed None)"

definition restore_terminal :: "('a, 't) terminal \<Rightarrow> 'a option \<Rightarrow> ('i, 's, 'a, 't, 'e, unit) client_act" where
  "restore_terminal T termios_attr =
     (case termios_attr of
        None \<Rightarrow> succeed ()
      | Some current \<Rightarrow>
          discard (set_terminal T current :: ('i, 's, 'a, 't, 'e, unit) client_act))"

text \<open>The result of a call kept for later, and its state.\<close>

definition keep_result :: "('s, 'e, 'x) action \<Rightarrow> ('s, 'e, 'e + 'x) action" where
  "keep_result m s = (let (r, s') = m s in (Inr r, s'))"

definition client_wait ::
  "('a, 't) terminal \<Rightarrow> ('s, 'e, 'i) ClientInner \<Rightarrow> ('i, 's, 'a, 't, 'e, unit) client_act" where
  "client_wait T R =
     and_then take_session (\<lambda>info.
     and_then (raw_mode T (si_tty info)) (\<lambda>termios_attr.
     and_then (keep_result (wait_inner R (si_sid info))) (\<lambda>ret.
     and_then (note_event StopStdin) (\<lambda>_.
     and_then (for_each (\<lambda>handle. note_event (Joined handle)) (si_handles info)) (\<lambda>_.
     and_then (restore_terminal T termios_attr) (\<lambda>_.
     lift_result ret))))))"

section \<open>The tasks\<close>

text \<open>
  The loop that reads the standard input: reads with whether the channel takes the bytes, and
  the signal to stop. The chunks that were sent, and the result, \<open>None\<close> while it still waits.
\<close>

datatype stdin_event = StdinRead "io_error + u8 list" bool | StdinStop

fun stdin_loop :: "stdin_event list \<Rightarrow> u8 list list \<times> ('e ClientError + unit) option" where
  "stdin_loop [] = ([], None)"
| "stdin_loop (StdinStop # es) = ([], Some (Inr ()))"
| "stdin_loop (StdinRead (Inl e) sends # es) = ([], Some (Inl (ClientIoErr e)))"
| "stdin_loop (StdinRead (Inr buf) sends # es) =
     (if buf = [] then ([], Some (Inr ()))
      else if sends then (let (out, r) = stdin_loop es in (buf # out, r))
      else ([], Some (Inl ClientChannelClosed)))"

text \<open>\<open>copy_stream\<close> on a writer.\<close>

definition copy_stream ::
  "(u8 list \<Rightarrow> ('w, io_error, unit) action) \<Rightarrow> ('w, io_error, unit) action \<Rightarrow> u8 list list \<Rightarrow>
   ('w, 'e ClientError, unit) action" where
  "copy_stream put flush_out items =
     for_each (\<lambda>bytes. and_then (map_err ClientIoErr (put bytes)) (\<lambda>_. map_err ClientIoErr flush_out)) items"

section \<open>The transport over gRPC\<close>

definition rpc_inner :: "('i, 'w) service \<Rightarrow> (('i, 'w) Server, RpcError, 'i) ClientInner" where
  "rpc_inner V =
     (let U = sv_uuids V; C = direct V
      in \<lparr>in_dial = RpcClient_dial U C, in_start = RpcClient_start U C, in_stdout = RpcClient_stdout U C,
          in_stderr = RpcClient_stderr U C, in_stdin = RpcClient_stdin U C,
          in_ninep_forward = RpcClient_ninep_forward U C, in_wait = RpcClient_wait U C\<rparr>)"

lemma rpc_inner_simps:
  "in_dial (rpc_inner V) = and_then (map_err Rpc (service_dial V)) (\<lambda>id_vec.
     map_err InvalidUuid (lift_result (u_from_slice (sv_uuids V) id_vec)))"
  "in_start (rpc_inner V) sid cmd = map_err Rpc (service_start V (u_bytes (sv_uuids V) sid) (Some cmd))"
  "in_stdout (rpc_inner V) sid = map_err Rpc (service_stdout V (u_bytes (sv_uuids V) sid))"
  "in_stderr (rpc_inner V) sid = map_err Rpc (service_stderr V (u_bytes (sv_uuids V) sid))"
  "in_ninep_forward (rpc_inner V) sid c = map_err NinepUnwrap (service_ninep_forward V
     (map (map_option Inr) (ninep_requests (sv_uuids V) sid c)))"
  "in_wait (rpc_inner V) sid = map_err Rpc (service_wait V (u_bytes (sv_uuids V) sid))"
  by (simp_all add: rpc_inner_def direct_def Let_def RpcClient_dial_def RpcClient_start_def
      RpcClient_stdout_def RpcClient_stderr_def RpcClient_ninep_forward_def RpcClient_wait_def)

end
