(* ===== verification/Launch_Properties.thy ===== *)
theory Launch_Properties
  imports Launcher
begin

text \<open>
  The properties of the mount tables and of the launcher: what a name space stands for, from
  the option of the client to the mounts of the command, how the command travels from the
  server to the launcher, and what the launcher has done when it runs the program.
\<close>

section \<open>Options\<close>

lemma fstab_opt_loop_result:
  "fstab_opt_loop fs flag opts =
     (if ''bind'' \<in> set fs then insert MS_BIND flag else flag,
      join '','' (opts @ filter (\<lambda>f. f \<noteq> ''defaults'' \<and> f \<noteq> ''bind'') fs))"
  by (induction fs arbitrary: flag opts) auto

lemma parse_fstab_opt_bind: "parse_fstab_opt ''defaults,bind'' = ({MS_BIND}, [])"
proof -
  have "split_on (CHR '','') ''defaults,bind'' = [''defaults'', ''bind'']" by code_simp
  then show ?thesis by (simp add: parse_fstab_opt_def fstab_opt_loop_result)
qed

lemma comma_show_nat: "CHR '','' \<notin> set (show_nat n)"
  using show_nat_digits [of "CHR '',''" n] by (auto simp: is_digit_def)

lemma parse_fstab_opt_9p:
  "parse_fstab_opt (''version=9p2000.L,trans=tcp,port='' @ show_nat n) =
     ({}, ''version=9p2000.L,trans=tcp,port='' @ show_nat n)"
proof -
  have "split_on (CHR '','') (''version=9p2000.L'' @ CHR '','' # ''trans=tcp'' @ CHR '','' # ''port='' @ show_nat n) =
      [''version=9p2000.L'', ''trans=tcp'', ''port='' @ show_nat n]"
    by (subst split_on_append, simp)+ (subst split_on_no_sep, simp_all add: comma_show_nat)
  then show ?thesis by (simp add: parse_fstab_opt_def fstab_opt_loop_result)
qed

section \<open>The socket\<close>

lemma stream_read_exact_append:
  "p_stream s = bs @ rest \<Longrightarrow> stream_read_exact (length bs) s = (Inr bs, s\<lparr>p_stream := rest\<rparr>)"
  by (simp add: stream_read_exact_def)

lemma read_cmd_frame:
  assumes "p_stream s = cmd_frame buf @ rest" "length buf < 2 ^ 64" "decode buf = Inr cmd"
  shows "read_cmd decode s = expect_end cmd (s\<lparr>p_stream := rest\<rparr>)"
proof -
  have len: "le_nat (le_bytes 8 (length buf)) = length buf"
    using assms(2) by (simp add: le_nat_le_bytes del: le_bytes.simps)
  have "stream_read_exact 8 s = (Inr (le_bytes 8 (length buf)), s\<lparr>p_stream := buf @ rest\<rparr>)"
    using stream_read_exact_append [of s "le_bytes 8 (length buf)" "buf @ rest"] assms(1)
    by (simp add: cmd_frame_def del: le_bytes.simps)
  moreover have "stream_read_exact (length buf) (s\<lparr>p_stream := buf @ rest\<rparr>) =
      (Inr buf, s\<lparr>p_stream := rest\<rparr>)"
    by (simp add: stream_read_exact_def)
  ultimately show ?thesis
    using assms(3) len
    by (simp add: read_cmd_def and_then_def map_err_def del: le_bytes.simps)
qed

lemma read_cmd_truncated:
  assumes "strict_prefix (p_stream s) (cmd_frame buf)" "length buf < 2 ^ 64"
  shows "fst (read_cmd decode s) = Inl (ReadUds (case p_stream_error s of None \<Rightarrow> eof_error | Some e \<Rightarrow> e))"
proof -
  have len: "le_nat (le_bytes 8 (length buf)) = length buf"
    using assms(2) by (simp add: le_nat_le_bytes del: le_bytes.simps)
  from assms(1) have "strict_prefix (p_stream s) (le_bytes 8 (length buf) @ buf)"
    by (simp add: cmd_frame_def)
  then show ?thesis
  proof (cases rule: strict_prefix_append_cases)
    case left
    then have "length (p_stream s) < 8" using strict_prefix_length by fastforce
    then show ?thesis
      by (simp add: read_cmd_def and_then_def map_err_def stream_read_exact_def)
  next
    case (right q)
    then have "length q < length buf" by (simp add: strict_prefix_length)
    moreover have "stream_read_exact 8 s = (Inr (le_bytes 8 (length buf)), s\<lparr>p_stream := q\<rparr>)"
      using stream_read_exact_append [of s "le_bytes 8 (length buf)" q] right(1)
      by (simp del: le_bytes.simps)
    ultimately show ?thesis
      using len
      by (simp add: read_cmd_def and_then_def map_err_def stream_read_exact_def [of "length buf"]
          del: le_bytes.simps)
  qed
qed

lemma read_cmd_Inr:
  assumes "read_cmd decode s = (Inr cmd, s')"
  shows "\<exists>buf. p_stream s = cmd_frame buf \<and> decode buf = Inr cmd"
proof -
  from assms obtain b s1 buf s2 where
    1: "stream_read_exact 8 s = (Inr b, s1)" and 2: "stream_read_exact (le_nat b) s1 = (Inr buf, s2)"
    and 3: "decode buf = Inr cmd" and 4: "p_stream s2 = []"
    by (auto simp: read_cmd_def and_then_eq_Inr map_err_eq_Inr expect_end_Inr)
  note 4
  moreover from 1 have "p_stream s = b @ p_stream s1" "length b = 8"
    by (auto simp: stream_read_exact_def split: if_splits)
  moreover from 2 have "p_stream s1 = buf @ p_stream s2" "length buf = le_nat b"
    by (auto simp: stream_read_exact_def split: if_splits)
  ultimately have "p_stream s = cmd_frame buf"
    using le_bytes_le_nat [of b] by (simp add: cmd_frame_def del: le_bytes.simps)
  with 3 show ?thesis by blast
qed

section \<open>What has happened when the program runs\<close>

definition no_exec :: "'w process \<Rightarrow> bool" where
  "no_exec s \<longleftrightarrow> list_all (\<lambda>c. \<not> is_exec c) (p_calls s)"

lemma no_exec_and_then:
  assumes "\<not> no_exec (snd (and_then m k s))" "no_exec s" "only_calls (\<lambda>c. \<not> is_exec c) m"
  obtains x s' where "m s = (Inr x, s')" "no_exec s'" "\<not> no_exec (snd (k x s'))"
    "snd (and_then m k s) = snd (k x s')"
proof -
  obtain r s' where m: "m s = (r, s')" by fastforce
  with only_callsD [OF assms(3) m] assms(2) have "no_exec s'" by (auto simp: no_exec_def)
  with m assms(1) that show thesis by (cases r) (auto simp: and_then_def)
qed

lemma not_exec [calls_intro]:
  "\<not> is_exec Unshare" "\<not> is_exec (Connect port)" "\<not> is_exec Shutdown" "\<not> is_exec (Mount a b c d e)"
  "\<not> is_exec (CreateDirAll p)" "\<not> is_exec (SetVar k v)" "\<not> is_exec Setsid" "\<not> is_exec Tiocsctty"
  "\<not> is_exec (Setgid g)" "\<not> is_exec (Setuid u)"
  by (simp_all add: is_exec_def)

lemma only_calls_steps [calls_intro]:
  "only_calls (\<lambda>c. \<not> is_exec c) (mount_base K cmd)"
  "only_calls (\<lambda>c. \<not> is_exec c) (mount_tab K tab)"
  "only_calls (\<lambda>c. \<not> is_exec c) (set_env env)"
  "only_calls (\<lambda>c. \<not> is_exec c) (read_cmd decode)"
proof -
  show "only_calls (\<lambda>c. \<not> is_exec c) (mount_base K cmd)"
    unfolding mount_base_def Let_def by (intro calls_intro)
  show "only_calls (\<lambda>c. \<not> is_exec c) (mount_tab K tab)"
    unfolding mount_tab_def tab_mount_def by (cases "parse_fstab_opt (tab_mntops tab)")
      (simp, intro calls_intro)
  show "only_calls (\<lambda>c. \<not> is_exec c) (set_env env)"
    by (simp add: only_calls_def set_env_def is_exec_def)
  show "only_calls (\<lambda>c. \<not> is_exec c) (read_cmd decode)"
    unfolding read_cmd_def by (intro calls_intro)
qed

lemma CString_new_Inr: "CString_new a = Inr b \<Longrightarrow> b = a"
  by (simp add: CString_new_def split: if_splits)

lemma CString_all_Inr: "CString_all as = Inr bs \<Longrightarrow> bs = as"
proof (induction as arbitrary: bs)
  case (Cons a as)
  then show ?case
    by (cases "CString_new a"; cases "CString_all as") (auto dest: CString_new_Inr)
qed simp

lemma by_nix_calls: "by_nix K c s = (r, s') \<Longrightarrow> p_calls s' = p_calls s @ [c]"
  by (auto simp: by_nix_def split: prod.splits)

lemma by_nix_stream: "by_nix K c s = (r, s') \<Longrightarrow> p_stream s' = p_stream s"
  by (auto simp: by_nix_def split: prod.splits)

lemma by_io_stream: "by_io K c s = (r, s') \<Longrightarrow> p_stream s' = p_stream s"
  by (auto simp: by_io_def split: prod.splits)

lemma map_err_snd [simp]: "snd (map_err f m s) = snd (m s)"
  by (simp add: map_err_def split: prod.split sum.split)

lemma exec_cmd_calls:
  assumes "no_exec s" "\<not> no_exec (snd (exec_cmd K cmd s))"
  shows "\<exists>pre. list_all (\<lambda>c. \<not> is_exec c) pre \<and> p_calls (snd (exec_cmd K cmd s)) =
    pre @ [Setgid (cmd_gid cmd), Setuid (cmd_uid cmd),
           Execvp (cmd_program cmd) (cmd_program cmd # cmd_args cmd)]"
proof -
  let ?tty = "and_then (map_err SetSid (by_nix K Setsid)) (\<lambda>_. map_err SetControllingTerminal (by_nix K Tiocsctty))"
  let ?exec = "\<lambda>a as. map_err Exec (by_nix K (Execvp a (a # as)))"
  let ?uid = "\<lambda>a as. and_then (map_err SetUid (by_nix K (Setuid (cmd_uid cmd)))) (\<lambda>_. ?exec a as)"
  let ?gid = "\<lambda>a as. and_then (map_err SetGid (by_nix K (Setgid (cmd_gid cmd)))) (\<lambda>_. ?uid a as)"
  let ?rest = "\<lambda>a as. and_then (only_if (cmd_tty cmd) ?tty) (\<lambda>_. ?gid a as)"
  obtain a where 1: "CString_new (cmd_program cmd) = Inr a"
      "\<not> no_exec (snd (and_then (lift_result (CString_all (cmd_args cmd))) (?rest a) s))"
    using assms(2) unfolding exec_cmd_def
    by (rule no_exec_and_then) (auto intro: assms(1) calls_intro)
  obtain as where 2: "CString_all (cmd_args cmd) = Inr as" "\<not> no_exec (snd (?rest a as s))"
    using 1(2) by (rule no_exec_and_then) (auto intro: assms(1) calls_intro)
  obtain s3 where 3: "no_exec s3" "\<not> no_exec (snd (?gid a as s3))" "snd (?rest a as s) = snd (?gid a as s3)"
    using 2(2) by (rule no_exec_and_then) (rule assms(1), intro calls_intro)
  have oc: "only_calls (\<lambda>c. \<not> is_exec c) (map_err SetGid (by_nix K (Setgid (cmd_gid cmd))))"
    "only_calls (\<lambda>c. \<not> is_exec c) (map_err SetUid (by_nix K (Setuid (cmd_uid cmd))))"
    by (intro calls_intro)+
  obtain s4 where 4: "by_nix K (Setgid (cmd_gid cmd)) s3 = (Inr (), s4)" "no_exec s4"
      "\<not> no_exec (snd (?uid a as s4))" "snd (?gid a as s3) = snd (?uid a as s4)"
    using 3(2) by (rule no_exec_and_then [OF _ 3(1) oc(1)]) (auto simp: map_err_eq_Inr)
  obtain s5 where 5: "by_nix K (Setuid (cmd_uid cmd)) s4 = (Inr (), s5)"
      "snd (?uid a as s4) = snd (?exec a as s5)"
    using 4(3) by (rule no_exec_and_then [OF _ 4(2) oc(2)]) (auto simp: map_err_eq_Inr)
  have "snd (exec_cmd K cmd s) = snd (?rest a as s)"
    using 1(1) 2(1) by (simp add: exec_cmd_def and_then_def)
  then have "snd (exec_cmd K cmd s) = snd (by_nix K (Execvp a (a # as)) s5)"
    using 3(3) 4(4) 5(2) by simp
  then have "p_calls (snd (exec_cmd K cmd s)) = p_calls s5 @ [Execvp a (a # as)]"
    using by_nix_calls by (metis prod.collapse)
  moreover have "a = cmd_program cmd" "as = cmd_args cmd"
    using 1(1) 2(1) by (simp_all add: CString_new_Inr CString_all_Inr)
  moreover have "p_calls s5 = p_calls s3 @ [Setgid (cmd_gid cmd), Setuid (cmd_uid cmd)]"
    using by_nix_calls [OF 4(1)] by_nix_calls [OF 5(1)] by simp
  ultimately show ?thesis
    using 3(1) by (intro exI [of _ "p_calls s3"]) (simp add: no_exec_def)
qed

lemma connect_reaches_exec:
  assumes "no_exec s" "\<not> no_exec (snd (connect K decode port s))"
  shows "\<exists>buf cmd s'. p_stream s = cmd_frame buf \<and> decode buf = Inr cmd \<and> no_exec s' \<and>
    \<not> no_exec (snd (exec_cmd K cmd s')) \<and> snd (connect K decode port s) = snd (exec_cmd K cmd s')"
proof -
  let ?exec = "\<lambda>cmd. exec_cmd K cmd"
  let ?env = "\<lambda>cmd. and_then (for_each set_env (cmd_envs cmd)) (\<lambda>_. ?exec cmd)"
  let ?tab = "\<lambda>cmd. and_then (for_each (mount_tab K) (cmd_fstab cmd)) (\<lambda>_. ?env cmd)"
  let ?base = "\<lambda>cmd. and_then (mount_base K cmd) (\<lambda>_. ?tab cmd)"
  let ?shut = "\<lambda>cmd. and_then (map_err ShutdownSocket (by_io K Shutdown)) (\<lambda>_. ?base cmd)"
  let ?read = "and_then (read_cmd decode) ?shut"
  let ?conn = "and_then (map_err ConnectToPort (by_io K (Connect port))) (\<lambda>_. ?read)"
  note 0 = assms(1)
  from assms(2) have c: "\<not> no_exec (snd (and_then (map_err (UnshareFails ''CLONE_NEWNS'') (by_nix K Unshare))
      (\<lambda>_. ?conn) s))"
    by (simp add: connect_def)
  have oc: "only_calls (\<lambda>c. \<not> is_exec c) (map_err (UnshareFails ''CLONE_NEWNS'') (by_nix K Unshare))"
    "only_calls (\<lambda>c. \<not> is_exec c) (map_err ConnectToPort (by_io K (Connect port)))"
    "only_calls (\<lambda>c. \<not> is_exec c) (read_cmd decode)"
    "only_calls (\<lambda>c. \<not> is_exec c) (map_err ShutdownSocket (by_io K Shutdown))"
    "only_calls (\<lambda>c. \<not> is_exec c) (mount_base K cmd)"
    "only_calls (\<lambda>c. \<not> is_exec c) (for_each (mount_tab K) (cmd_fstab cmd))"
    "only_calls (\<lambda>c. \<not> is_exec c) (for_each set_env (cmd_envs cmd))" for cmd
    by (intro calls_intro)+
  obtain s1 where 1: "by_nix K Unshare s = (Inr (), s1)" "no_exec s1"
      "\<not> no_exec (snd (?conn s1))" "snd (connect K decode port s) = snd (?conn s1)"
    using c by (rule no_exec_and_then [OF _ 0 oc(1)]) (auto simp: map_err_eq_Inr connect_def)
  obtain s2 where 2: "by_io K (Connect port) s1 = (Inr (), s2)" "no_exec s2"
      "\<not> no_exec (snd (?read s2))" "snd (?conn s1) = snd (?read s2)"
    using 1(3) by (rule no_exec_and_then [OF _ 1(2) oc(2)]) (auto simp: map_err_eq_Inr)
  obtain cmd s3 where 3: "read_cmd decode s2 = (Inr cmd, s3)" "no_exec s3"
      "\<not> no_exec (snd (?shut cmd s3))" "snd (?read s2) = snd (?shut cmd s3)"
    using 2(3) by (rule no_exec_and_then [OF _ 2(2) oc(3)])
  obtain s4 where 4: "no_exec s4" "\<not> no_exec (snd (?base cmd s4))"
      "snd (?shut cmd s3) = snd (?base cmd s4)"
    using 3(3) by (rule no_exec_and_then [OF _ 3(2) oc(4)])
  obtain s5 where 5: "no_exec s5" "\<not> no_exec (snd (?tab cmd s5))"
      "snd (?base cmd s4) = snd (?tab cmd s5)"
    using 4(2) by (rule no_exec_and_then [OF _ 4(1) oc(5)])
  obtain s6 where 6: "no_exec s6" "\<not> no_exec (snd (?env cmd s6))"
      "snd (?tab cmd s5) = snd (?env cmd s6)"
    using 5(2) by (rule no_exec_and_then [OF _ 5(1) oc(6)])
  obtain s7 where 7: "no_exec s7" "\<not> no_exec (snd (?exec cmd s7))"
      "snd (?env cmd s6) = snd (?exec cmd s7)"
    using 6(2) by (rule no_exec_and_then [OF _ 6(1) oc(7)])
  obtain buf where "p_stream s2 = cmd_frame buf" "decode buf = Inr cmd"
    using read_cmd_Inr [OF 3(1)] by blast
  moreover have "p_stream s2 = p_stream s"
    using by_nix_stream [OF 1(1)] by_io_stream [OF 2(1)] by simp
  moreover have "snd (connect K decode port s) = snd (?exec cmd s7)"
    using 1(4) 2(4) 3(4) 4(3) 5(3) 6(3) 7(3) by simp
  ultimately show ?thesis using 7(1,2) by metis
qed

definition tab_words :: "FsTab \<Rightarrow> string list" where
  "tab_words tab =
     [tab_spec tab, tab_file tab, tab_vfstype tab, tab_mntops tab,
      show_int (tab_freq tab), show_int (tab_passno tab)]"

text \<open>A kernel that grants everything, and what the witnesses below run on it.\<close>

definition sample_kernel :: "unit kernel" where
  "sample_kernel = \<lparr>k_nix = (\<lambda>_ w. (Inr (), w)), k_io = (\<lambda>_ w. (Inr (), w))\<rparr>"

definition sample_cmd :: Cmd where
  "sample_cmd = Cmd_default\<lparr>cmd_program := ''sh'', cmd_args := [''-c''], cmd_uid := 1000, cmd_gid := 100\<rparr>"

definition sample_process :: "unit process" where
  "sample_process =
     \<lparr>p_calls = [], p_stream = cmd_frame [], p_stream_error = None, p_world = ()\<rparr>"

definition sample_args :: Args where
  "sample_args =
     \<lparr>args_namespace = ''/home:/bin=/usr/bin:/home=/x'', args_tty = False, args_tmp_mnt = ''/tmp'',
      args_uid = 1000, args_gid = 100, args_args = [''sh'']\<rparr>"

section \<open>Properties\<close>

text \<open>
  The program is run last, and only when everything before it went well: if the launcher,
  started fresh, calls exec at all, then what it read from the socket was exactly one complete
  frame that decodes to a command, and its calls end in setting the group, then the user, then
  the exec of the program of that command with its arguments; no other exec came before.
\<close>

theorem connect_exec:
  assumes "p_calls s = []" "list_ex is_exec (p_calls (snd (connect K decode port s)))"
  shows "\<exists>buf cmd pre. p_stream s = cmd_frame buf \<and> decode buf = Inr cmd \<and>
    list_all (\<lambda>c. \<not> is_exec c) pre \<and> p_calls (snd (connect K decode port s)) =
      pre @ [Setgid (cmd_gid cmd), Setuid (cmd_uid cmd),
             Execvp (cmd_program cmd) (cmd_program cmd # cmd_args cmd)]"
proof -
  have "no_exec s" "\<not> no_exec (snd (connect K decode port s))"
    using assms by (auto simp: no_exec_def list_all_iff list_ex_iff)
  then obtain buf cmd s' where "p_stream s = cmd_frame buf" "decode buf = Inr cmd" "no_exec s'"
    "\<not> no_exec (snd (exec_cmd K cmd s'))" "snd (connect K decode port s) = snd (exec_cmd K cmd s')"
    using connect_reaches_exec by blast
  then show ?thesis using exec_cmd_calls [of s' K cmd] by metis
qed

theorem connect_exec_witness:
  "\<exists>pre. p_calls (snd (connect sample_kernel (\<lambda>_. Inr sample_cmd) 5 sample_process)) =
     pre @ [Setgid 100, Setuid 1000, Execvp ''sh'' [''sh'', ''-c'']]"
proof -
  let ?c = "connect sample_kernel (\<lambda>_. Inr sample_cmd) 5 sample_process"
  have "list_ex is_exec (p_calls (snd ?c))"
    by (simp add: connect_def read_cmd_def mount_base_def exec_cmd_def and_then_def map_err_def
        only_if_def by_nix_def by_io_def stream_read_exact_def expect_end_def stream_read1_def
        sample_kernel_def sample_process_def sample_cmd_def Cmd_default_def cmd_frame_def
        CString_new_def is_exec_def le_nat_le_bytes Let_def del: le_bytes.simps)
  then obtain buf cmd pre where "(Inr sample_cmd :: string + Cmd) = Inr cmd" "p_calls (snd ?c) =
      pre @ [Setgid (cmd_gid cmd), Setuid (cmd_uid cmd),
             Execvp (cmd_program cmd) (cmd_program cmd # cmd_args cmd)]"
    using connect_exec [of sample_process sample_kernel "\<lambda>_. Inr sample_cmd" 5]
    by (auto simp: sample_process_def)
  then show ?thesis by (auto simp: sample_cmd_def)
qed

text \<open>
  C35. The command travels whole: what the server writes, the length and the message, read back
  up to the end of the connection gives the command; with any byte missing the launcher reports
  the failed read, and with any byte more it refuses.
\<close>

theorem cmd_frame_read_cmd:
  assumes "length buf < 2 ^ 64" "decode buf = Inr cmd" "p_stream_error s = None"
  shows "(p_stream s = cmd_frame buf \<longrightarrow> fst (read_cmd decode s) = Inr cmd) \<and>
    (strict_prefix (p_stream s) (cmd_frame buf) \<longrightarrow> fst (read_cmd decode s) = Inl (ReadUds eof_error)) \<and>
    (strict_prefix (cmd_frame buf) (p_stream s) \<longrightarrow> fst (read_cmd decode s) = Inl UnexpectedBytes)"
proof (intro conjI impI)
  assume "p_stream s = cmd_frame buf"
  then show "fst (read_cmd decode s) = Inr cmd"
    using read_cmd_frame [of s buf "[]" decode cmd] assms
    by (simp add: expect_end_def stream_read1_def)
next
  assume "strict_prefix (p_stream s) (cmd_frame buf)"
  then show "fst (read_cmd decode s) = Inl (ReadUds eof_error)"
    using read_cmd_truncated [of s buf decode] assms by simp
next
  assume "strict_prefix (cmd_frame buf) (p_stream s)"
  then obtain b rest where "p_stream s = cmd_frame buf @ b # rest"
    by (rule strict_prefixE')
  then show "fst (read_cmd decode s) = Inl UnexpectedBytes"
    using read_cmd_frame [of s buf "b # rest" decode cmd] assms
    by (simp add: expect_end_def stream_read1_def)
qed

theorem cmd_frame_read_cmd_witness:
  "fst (read_cmd (\<lambda>_. Inr sample_cmd) (sample_process :: unit process)) = Inr sample_cmd"
  using cmd_frame_read_cmd [of "[]" "\<lambda>_. Inr sample_cmd" sample_cmd sample_process]
  by (simp add: sample_process_def)

text \<open>
  C36. A line of a mount table read back: six words separated by blanks, the last two numbers in
  the range of \<open>i32\<close>, are parsed to exactly these fields, and with fewer words or one more the
  line is refused.
\<close>

theorem FsTab_try_from_line:
  assumes "\<forall>w\<in>{tab_spec tab, tab_file tab, tab_vfstype tab, tab_mntops tab, w'}. is_word w"
    and "i32_ok (tab_freq tab)" "i32_ok (tab_passno tab)"
  shows "FsTab_try_from (join '' '' (tab_words tab)) = Inr tab \<and>
    FsTab_try_from (join '' '' (tab_words tab) @ '' '' @ w') = Inl NotSixFields \<and>
    (\<forall>n<6. FsTab_try_from (join '' '' (take n (tab_words tab))) = Inl NotSixFields)"
proof (intro conjI allI impI)
  show "FsTab_try_from (join '' '' (tab_words tab)) = Inr tab"
    using assms by (simp add: FsTab_try_from_def tab_words_def split_whitespace_words
        is_word_show_int parse_i32_show)
  show "FsTab_try_from (join '' '' (tab_words tab) @ '' '' @ w') = Inl NotSixFields"
    using assms by (simp add: FsTab_try_from_def tab_words_def split_whitespace_words
        is_word_show_int parse_i32_show)
  fix n :: nat
  assume "n < 6"
  then have "n \<in> {0, 1, 2, 3, 4, 5}" by auto
  then show "FsTab_try_from (join '' '' (take n (tab_words tab))) = Inl NotSixFields"
    using assms by (auto simp: FsTab_try_from_def tab_words_def split_whitespace_words
        is_word_show_int parse_i32_show eval_nat_numeral split_whitespace_def [of "[]"])
qed

theorem FsTab_try_from_line_witness:
  "FsTab_try_from ''tmpfs /tmp tmpfs size=1m 0 -1'' =
     Inr \<lparr>tab_spec = ''tmpfs'', tab_file = ''/tmp'', tab_vfstype = ''tmpfs'', tab_mntops = ''size=1m'',
       tab_freq = 0, tab_passno = -1\<rparr>"
proof -
  let ?tab = "\<lparr>tab_spec = ''tmpfs'', tab_file = ''/tmp'', tab_vfstype = ''tmpfs'', tab_mntops = ''size=1m'',
    tab_freq = 0, tab_passno = -1\<rparr>"
  have "join '' '' (tab_words ?tab) = ''tmpfs /tmp tmpfs size=1m 0 -1''"
    by code_simp
  moreover have "is_word ''tmpfs''" "is_word ''/tmp''" "is_word ''size=1m''" "is_word ''x''"
    by (rule is_word_ascii; simp)+
  ultimately show ?thesis
    using FsTab_try_from_line [of ?tab "''x''"] by (simp add: i32_ok_def)
qed

text \<open>The mounts made from the lines of a name space.\<close>

lemma tab_mount_bind: "tab_mount (bind_tab tmp target source) =
  Mount (Some (tmp @ ''/mnt9p'' @ source)) target (Some ''none'') {MS_BIND} None"
  by (simp add: tab_mount_def bind_tab_def parse_fstab_opt_bind get_ptr_def NINEP_MOUNT_def)

lemma tab_mount_ninep:
  "tab_mount ((ninep_tab tmp)\<lparr>tab_spec := ''127.0.0.1'', tab_mntops := ninep_opts port\<rparr>) =
     Mount (Some ''127.0.0.1'') (tmp @ ''/mnt9p'') (Some ''9p'') {} (Some (ninep_opts port))"
  using parse_fstab_opt_9p [of port]
  by (simp add: tab_mount_def ninep_tab_def get_ptr_def NINEP_MOUNT_def flip: ninep_opts_def)
    (simp add: ninep_opts_def)

lemma fill_ninep_first: "fill_ninep_tab tmp port (ninep_tab tmp # tabs) =
  (ninep_tab tmp)\<lparr>tab_spec := ''127.0.0.1'', tab_mntops := ninep_opts port\<rparr> # tabs"
  by (simp add: ninep_tab_def)

lemma app_command_runs:
  "app_command args fs_tab vars = AppRuns cmd \<longleftrightarrow>
     args_tmp_mnt args \<noteq> [] \<and> (\<exists>program rest user_tabs. args_args args = program # rest \<and>
       read_fs_tab (case fs_tab of None \<Rightarrow> [] | Some lines \<Rightarrow> lines) = Inr user_tabs \<and>
       cmd = \<lparr>cmd_program = program, cmd_args = rest,
         cmd_envs = map (\<lambda>(k, v). \<lparr>env_key = k, env_val = v\<rparr>) vars,
         cmd_fstab = parse_namespace (args_namespace args) (args_tmp_mnt args) @ user_tabs,
         cmd_ninep = (parse_namespace (args_namespace args) (args_tmp_mnt args) \<noteq> []),
         cmd_tty = args_tty args, cmd_tmp_mnt = args_tmp_mnt args, cmd_uid = args_uid args,
         cmd_gid = args_gid args\<rparr>)"
  by (auto simp: app_command_def Command_new_def Command_args_def Command_envs_def
      Command_ninep_def Command_fstab_def Command_tty_def Command_tmp_mnt_def
      Command_ugid_def Cmd_default_def Let_def split: sum.split list.split)

text \<open>
  From the name space option to the mounts: in the command that the client builds, and with
  the port of the 9P listener filled in by the server, the lines of the name space stand for
  one mount of the client's files over 9P at the mount point, and then a bind mount for each
  valid part of the option, in order, whose target no part before it has, from its source below
  that mount point; the lines of the user's table come after. With no valid part there is no
  line and 9P is off.
\<close>

theorem namespace_mounts:
  assumes "args_tmp_mnt args \<noteq> []" "args_args args \<noteq> []"
    and "read_fs_tab lines = Inr user_tabs"
  shows "\<exists>cmd. app_command args (Some lines) vars = AppRuns cmd \<and>
    cmd_ninep cmd = (args_namespace args \<noteq> [] \<and> bindings (args_namespace args) \<noteq> []) \<and>
    distinct (map fst (bindings (args_namespace args))) \<and>
    (if cmd_ninep cmd
     then map tab_mount (fill_ninep_tab (cmd_tmp_mnt cmd) port (cmd_fstab cmd)) =
       Mount (Some ''127.0.0.1'') (args_tmp_mnt args @ ''/mnt9p'') (Some ''9p'') {}
         (Some (''version=9p2000.L,trans=tcp,port='' @ show_nat port)) #
       map (\<lambda>(target, source). Mount (Some (args_tmp_mnt args @ ''/mnt9p'' @ source)) target
         (Some ''none'') {MS_BIND} None) (bindings (args_namespace args)) @
       map tab_mount user_tabs
     else cmd_fstab cmd = user_tabs)"
proof -
  obtain program rest where p: "args_args args = program # rest" using assms(2) by (cases "args_args args") auto
  have cmd: "app_command args (Some lines) vars = AppRuns
      \<lparr>cmd_program = program, cmd_args = rest,
       cmd_envs = map (\<lambda>(k, v). \<lparr>env_key = k, env_val = v\<rparr>) vars,
       cmd_fstab = parse_namespace (args_namespace args) (args_tmp_mnt args) @ user_tabs,
       cmd_ninep = (parse_namespace (args_namespace args) (args_tmp_mnt args) \<noteq> []),
       cmd_tty = args_tty args, cmd_tmp_mnt = args_tmp_mnt args, cmd_uid = args_uid args,
       cmd_gid = args_gid args\<rparr>" (is "_ = AppRuns ?cmd")
    using assms p by (simp add: app_command_runs)
  show ?thesis
  proof (cases "args_namespace args \<noteq> [] \<and> bindings (args_namespace args) \<noteq> []")
    case True
    then have "parse_namespace (args_namespace args) (args_tmp_mnt args) =
        ninep_tab (args_tmp_mnt args) # map (\<lambda>(target, source).
          bind_tab (args_tmp_mnt args) target source) (bindings (args_namespace args))"
      by (simp add: parse_namespace_bindings)
    with True cmd show ?thesis
      by (intro exI [of _ ?cmd], simp add: fill_ninep_first tab_mount_ninep tab_mount_bind comp_def case_prod_beta bindings_distinct
          del: fill_ninep_tab.simps) (simp add: ninep_opts_def)
  next
    case False
    then have "parse_namespace (args_namespace args) (args_tmp_mnt args) = []"
      by (auto simp: parse_namespace_bindings)
    with False cmd show ?thesis
      by (intro exI [of _ ?cmd]) (auto simp: bindings_distinct)
  qed
qed

theorem namespace_mounts_witness:
  "\<exists>cmd. app_command sample_args (Some [''# none'']) [] = AppRuns cmd \<and>
     map tab_mount (fill_ninep_tab (cmd_tmp_mnt cmd) 564 (cmd_fstab cmd)) =
       [Mount (Some ''127.0.0.1'') ''/tmp/mnt9p'' (Some ''9p'') {}
          (Some (''version=9p2000.L,trans=tcp,port='' @ show_nat 564)),
        Mount (Some ''/tmp/mnt9p/home'') ''/home'' (Some ''none'') {MS_BIND} None,
        Mount (Some ''/tmp/mnt9p/usr/bin'') ''/bin'' (Some ''none'') {MS_BIND} None]"
proof -
  have "bindings ''/home:/bin=/usr/bin:/home=/x'' = [(''/home'', ''/home''), (''/bin'', ''/usr/bin'')]"
    by code_simp
  then show ?thesis
    using namespace_mounts [of sample_args "[''# none'']" "[]" "[]" 564]
    by (auto simp: sample_args_def)
qed

end
