(* ===== verification/Server_Properties.thy ===== *)
theory Server_Properties
  imports Server Launch_Properties
begin

text \<open>
  What the session server promises: which tables each operation and each phase of a call
  changes, the accounting of dials and starts over all interleavings of calls, that a started
  command reaches the launcher, and what its loops copy.
\<close>

named_theorems keeps_intro \<open>actions that leave the tables of sessions alone\<close>

section \<open>The tables\<close>

definition keeps :: "('i, 'w, 'x) srv_act \<Rightarrow> bool" where
  "keeps m \<longleftrightarrow> (\<forall>s r s'. m s = (r, s') \<longrightarrow>
     srv_sessions s' = srv_sessions s \<and> srv_pending s' = srv_pending s)"

lemma keepsD:
  assumes "keeps m" "m s = (r, s')"
  shows "srv_sessions s' = srv_sessions s" "srv_pending s' = srv_pending s"
  using assms by (auto simp: keeps_def)

lemma keeps_on_os [keeps_intro]: "keeps (on_os err call)"
  by (auto simp: keeps_def on_os_def split: prod.splits sum.splits)

lemma keeps_succeed [keeps_intro]: "keeps (succeed x)"
  by (simp add: keeps_def)

lemma keeps_lift_result [keeps_intro]: "keeps (lift_result r)"
  by (simp add: keeps_def)

lemma keeps_and_then [keeps_intro]: "keeps m \<Longrightarrow> (\<And>x. keeps (k x)) \<Longrightarrow> keeps (and_then m k)"
  unfolding keeps_def and_then_def by (auto split: prod.splits sum.splits)

lemma keeps_for_each [keeps_intro]: "(\<And>x. keeps (f x)) \<Longrightarrow> keeps (for_each f xs)"
  by (induction xs) (auto intro!: keeps_intro)

lemma keeps_if [keeps_intro]: "keeps m \<Longrightarrow> keeps m' \<Longrightarrow> keeps (if b then m else m')"
  by simp

lemma keeps_spawn_task [keeps_intro]: "keeps spawn_task"
  by (simp add: keeps_def spawn_task_def)

lemma keeps_get_session [keeps_intro]: "keeps (get_session sid op)"
  by (auto simp: keeps_def get_session_def split: option.splits)

lemma keeps_fd_write_all [keeps_intro]: "keeps (fd_write_all K fd bs)"
  unfolding fd_write_all_def by (intro keeps_intro) (simp add: keeps_def)

lemma keeps_setup [keeps_intro]: "keeps (setup_tty K)" "keeps (setup_pipes K)"
  unfolding setup_tty_def setup_pipes_def by (auto intro!: keeps_intro split: prod.split)

lemma keeps_stdin [keeps_intro]: "keeps (stdin K sid items)"
  unfolding stdin_def by (intro keeps_intro)

lemma keeps_stdout_spawn [keeps_intro]: "keeps (stdout_spawn sid)" "keeps (stderr_spawn sid)"
  unfolding stdout_spawn_def stderr_spawn_def by (intro keeps_intro)+

lemma keeps_child_result [keeps_intro]: "keeps (child_result K child)"
  by (auto simp: keeps_def child_result_def split: prod.splits sum.splits option.splits)

text \<open>The middle of \<open>start\<close>: everything between the check for a duplicate and the insertion.\<close>

definition start_middle :: "'w os \<Rightarrow> Cmd \<Rightarrow> ninep \<Rightarrow> ('i, 'w, Session) srv_act" where
  "start_middle K cmd ninep =
        and_then (on_os BindFail (os_bind K)) (\<lambda>listener.
        and_then (on_os BindFail (os_port K listener)) (\<lambda>port.
        and_then (lift_result (fill_cmd cmd ninep)) (\<lambda>cmd.
        and_then (if cmd_tty cmd then setup_tty K else setup_pipes K)
          (\<lambda>(child_fds, fd_in, fd_out, fd_err).
        and_then (on_os SpawnFail (os_spawn K port child_fds)) (\<lambda>child.
        and_then (on_os IoErr (os_accept K listener)) (\<lambda>conn.
        and_then (fd_write_all K conn (le_bytes 8 (length (os_encode K cmd)))) (\<lambda>_.
        and_then (fd_write_all K conn (os_encode K cmd)) (\<lambda>_.
        and_then (on_os IoErr (os_shutdown K conn)) (\<lambda>_.
        succeed
             \<lparr>ses_stdin = fd_in, ses_stdout = fd_out, ses_stderr = fd_err, ses_child = child,
              ses_handles = (case ninep of None \<Rightarrow> [] | Some (p, handle) \<Rightarrow> [handle])\<rparr>)))))))))"

definition insert_session :: "'i \<Rightarrow> Session \<Rightarrow> ('i, 'w, unit) srv_act" where
  "insert_session sid info s = (Inr (), s\<lparr>srv_sessions := (srv_sessions s)(sid \<mapsto> info)\<rparr>)"

lemma start_locked_middle:
  "start_locked K cmd sid ninep s =
     (if srv_sessions s sid \<noteq> None then (Inl DuplicateId, s)
      else and_then (start_middle K cmd ninep) (insert_session sid) s)"
  by (simp add: start_locked_def start_middle_def and_then_assoc and_then_succeed insert_session_def
      Let_def case_prod_unfold cong: if_cong)
     

lemma keeps_start_middle [keeps_intro]: "keeps (start_middle K cmd ninep)"
  unfolding start_middle_def by (auto intro!: keeps_intro split: prod.split)

lemma start_locked_tables:
  assumes "start_locked K cmd sid ninep s = (r, s')"
  shows "srv_pending s' = srv_pending s"
    "\<And>e. r = Inl e \<Longrightarrow> srv_sessions s' = srv_sessions s"
    "r = Inr u \<Longrightarrow> srv_sessions s sid = None \<and> (\<exists>info. srv_sessions s' = (srv_sessions s)(sid \<mapsto> info))"
  using assms keepsD [OF keeps_start_middle, of K cmd ninep s]
  by (auto simp: start_locked_middle and_then_def insert_session_def
      split: if_splits prod.splits sum.splits)

section \<open>Calls and other sessions\<close>

fun scall_sid :: "'i scall \<Rightarrow> 'i option" where
  "scall_sid (Dialing sid) = Some sid"
| "scall_sid (Forwarding sid) = Some sid"
| "scall_sid (Starting sid cmd) = Some sid"
| "scall_sid (StartHolds sid cmd ninep) = Some sid"
| "scall_sid (Feeding sid items) = Some sid"
| "scall_sid (ReadingOut sid) = Some sid"
| "scall_sid (ReadingErr sid) = Some sid"
| "scall_sid (HandlePush sid handle) = Some sid"
| "scall_sid (Waiting sid) = Some sid"
| "scall_sid (WaitsChild sid child) = Some sid"
| "scall_sid (WaitsHandles sid ret) = Some sid"
| "scall_sid (WaitsRemove sid ret) = Some sid"
| "scall_sid (Returned r) = None"

text \<open>What a phase does to the entries of its own session.\<close>

definition phase_pending :: "'i scall \<Rightarrow> ninep option \<Rightarrow> ninep option \<Rightarrow> bool" where
  "phase_pending c old new \<longleftrightarrow>
     (case c of
        Dialing sid \<Rightarrow> new = (if old = None then Some None else old)
      | Forwarding sid \<Rightarrow> new = old \<or> old \<noteq> None \<and> (\<exists>forward. new = Some (Some forward))
      | Starting sid cmd \<Rightarrow> new = None
      | _ \<Rightarrow> new = old)"

definition phase_session :: "'i scall \<Rightarrow> 'i scall \<Rightarrow> Session option \<Rightarrow> Session option \<Rightarrow> bool" where
  "phase_session c c' old new \<longleftrightarrow>
     (case c of
        StartHolds sid cmd ninep \<Rightarrow>
          (if c' = Returned (Inr 0) then old = None \<and> new \<noteq> None else new = old)
      | HandlePush sid handle \<Rightarrow>
          new = map_option (\<lambda>info. info\<lparr>ses_handles := ses_handles info @ [handle]\<rparr>) old
      | WaitsRemove sid ret \<Rightarrow> new = None
      | _ \<Rightarrow> new = old)"

lemma ninep_forward_tables:
  assumes "ninep_forward K sid s = (r, s')"
  shows "srv_sessions s' = srv_sessions s"
    "srv_pending s' = srv_pending s \<or>
      srv_pending s sid \<noteq> None \<and> (\<exists>forward. srv_pending s' = (srv_pending s)(sid \<mapsto> Some forward))"
  using assms
  by (auto simp: ninep_forward_def and_then_def on_os_def spawn_task_def
      split: if_splits prod.splits sum.splits) blast

lemma push_handle_tables:
  assumes "push_handle sid handle s = (r, s')"
  shows "srv_pending s' = srv_pending s"
    "srv_sessions s' = (srv_sessions s)(sid := map_option
       (\<lambda>info. info\<lparr>ses_handles := ses_handles info @ [handle]\<rparr>) (srv_sessions s sid))"
  using assms
  by (auto simp: push_handle_def and_then_def get_session_def split: option.splits)

lemma call_phase_effect:
  assumes "call_phase K c s = (c', s')"
  shows "\<forall>sid. if scall_sid c = Some sid
    then phase_pending c (srv_pending s sid) (srv_pending s' sid) \<and>
         phase_session c c' (srv_sessions s sid) (srv_sessions s' sid)
    else srv_pending s' sid = srv_pending s sid \<and> srv_sessions s' sid = srv_sessions s sid"
proof (cases c)
  case (Dialing sid)
  then show ?thesis using assms
    by (auto simp: dial_def phase_pending_def phase_session_def split: if_splits)
next
  case (Forwarding sid)
  with assms obtain r where "ninep_forward K sid s = (r, s')"
    by (auto split: prod.splits)
  from ninep_forward_tables [OF this] Forwarding show ?thesis
    by (auto simp: phase_pending_def phase_session_def)
next
  case (Starting sid cmd)
  then show ?thesis using assms
    by (auto simp: take_pending_def phase_pending_def phase_session_def
        split: prod.splits sum.splits option.splits)
next
  case (StartHolds sid cmd ninep)
  with assms obtain r where r: "start_locked K cmd sid ninep s = (r, s')" "c' = returned r"
    by (auto split: prod.splits)
  from start_locked_tables [OF r(1)] r(2) StartHolds show ?thesis
    by (cases r) (auto simp: phase_pending_def phase_session_def returned_def)
next
  case (Feeding sid items)
  with assms obtain r where "stdin K sid items s = (r, s')"
    by (auto split: prod.splits)
  from keepsD [OF keeps_stdin this] Feeding show ?thesis
    by (auto simp: phase_pending_def phase_session_def)
next
  case (ReadingOut sid)
  with assms obtain r where "stdout_spawn sid s = (r, s')"
    by (auto split: prod.splits sum.splits)
  from keepsD [OF keeps_stdout_spawn(1) this] ReadingOut show ?thesis
    by (auto simp: phase_pending_def phase_session_def)
next
  case (ReadingErr sid)
  with assms obtain r where "stderr_spawn sid s = (r, s')"
    by (auto split: prod.splits sum.splits)
  from keepsD [OF keeps_stdout_spawn(2) this] ReadingErr show ?thesis
    by (auto simp: phase_pending_def phase_session_def)
next
  case (HandlePush sid handle)
  with assms obtain r where "push_handle sid handle s = (r, s')"
    by (auto split: prod.splits)
  from push_handle_tables [OF this] HandlePush show ?thesis
    by (auto simp: phase_pending_def phase_session_def)
next
  case (WaitsChild sid child)
  with assms obtain r where "child_result K child s = (r, s')"
    by (auto split: prod.splits sum.splits)
  from keepsD [OF keeps_child_result this] WaitsChild show ?thesis
    by (auto simp: phase_pending_def phase_session_def)
next
  case (WaitsRemove sid ret)
  then show ?thesis using assms
    by (auto simp: remove_session_def phase_pending_def phase_session_def)
qed (use assms in \<open>auto simp: get_session_def phase_pending_def phase_session_def
    split: prod.splits sum.splits option.splits\<close>)

text \<open>A machine on which all calls succeed; descriptors, ports and children are numbered.\<close>

definition sample_os :: "nat os" where
  "sample_os =
     \<lparr>os_bind = \<lambda>w. (Inr w, w + 1), os_port = \<lambda>l w. (Inr (1000 + l), w),
      os_openpty = \<lambda>w. (Inr (w, w + 1), w + 2), os_pipe2 = \<lambda>w. (Inr (w, w + 1), w + 2),
      os_try_clone = \<lambda>fd w. (Inr w, w + 1), os_async_fd = \<lambda>fd w. (Inr fd, w),
      os_spawn = \<lambda>port fds w. (Inr w, w + 1), os_accept = \<lambda>l w. (Inr w, w + 1),
      os_write_all = \<lambda>fd bs w. (Inr (), w), os_shutdown = \<lambda>fd w. (Inr (), w),
      os_wait = \<lambda>child w. (Inr (Some (int child)), w),
      os_encode = \<lambda>cmd. [if cmd_tty cmd then 1 else 0]\<rparr>"

text \<open>
  C27. A phase of a call changes only the entries of the call's own session, and those only
  this way: dialing makes a session that is not pending pending, 9P forwarding gives a pending
  one its port, starting takes it out of the pending ones and, under the lock of the running
  sessions, enters it there if and only if the start succeeds, when it was not there; reading an output adds a
  task to a running session, and waiting removes it.
\<close>

theorem call_phase_tables:
  assumes "call_phase K c s = (c', s')"
  shows "\<forall>sid. if scall_sid c = Some sid
    then phase_pending c (srv_pending s sid) (srv_pending s' sid) \<and>
         phase_session c c' (srv_sessions s sid) (srv_sessions s' sid)
    else srv_pending s' sid = srv_pending s sid \<and> srv_sessions s' sid = srv_sessions s sid"
  by (rule call_phase_effect [OF assms])

theorem call_phase_tables_witness:
  "srv_pending (snd (call_phase sample_os (Dialing (0::nat)) (Server_new 0))) 1 = None"
  using call_phase_tables [of sample_os "Dialing 0" "Server_new 0"
      "fst (call_phase sample_os (Dialing (0::nat)) (Server_new 0))"
      "snd (call_phase sample_os (Dialing (0::nat)) (Server_new 0))", OF prod.collapse [symmetric]]
  by (auto simp: Server_new_def dest: spec [of _ 1])

section \<open>Each dial is used up by one start\<close>

text \<open>
  A request that succeeded in dialing; a start that took the pending session and holds it,
  and one that has returned after taking it. (Only a start that found no pending session
  returns \<open>SessionNotExist\<close>.)
\<close>

fun dialed :: "'i \<Rightarrow> 'i scall \<times> 'i scall \<Rightarrow> bool" where
  "dialed sid (Dialing x, Returned (Inr k)) = (x = sid)"
| "dialed sid _ = False"

fun start_holds :: "'i \<Rightarrow> 'i scall \<times> 'i scall \<Rightarrow> bool" where
  "start_holds sid (Starting x cmd, StartHolds y cmd' ninep) = (x = sid)"
| "start_holds sid _ = False"

fun start_over :: "'i \<Rightarrow> 'i scall \<times> 'i scall \<Rightarrow> bool" where
  "start_over sid (Starting x cmd, Returned r) = (x = sid \<and> r \<noteq> Inl SessionNotExist)"
| "start_over sid _ = False"

fun started :: "'i \<Rightarrow> 'i scall \<times> 'i scall \<Rightarrow> bool" where
  "started sid (Starting x cmd, Returned (Inr k)) = (x = sid)"
| "started sid _ = False"

text \<open>What a request can be doing.\<close>

fun call_wf :: "'i scall \<times> 'i scall \<Rightarrow> bool" where
  "call_wf (q, Returned r) = call_starts q"
| "call_wf (q, StartHolds sid cmd ninep) = (q = Starting sid cmd)"
| "call_wf (q, HandlePush sid handle) = (q = ReadingOut sid \<or> q = ReadingErr sid)"
| "call_wf (q, WaitsChild sid child) = (q = Waiting sid)"
| "call_wf (q, WaitsHandles sid ret) = (q = Waiting sid)"
| "call_wf (q, WaitsRemove sid ret) = (q = Waiting sid)"
| "call_wf (q, c) = (call_starts c \<and> q = c)"

definition accounts :: "('i, 'w) system \<Rightarrow> 'i \<Rightarrow> bool" where
  "accounts s sid \<longleftrightarrow>
     length (filter (dialed sid) (sys_calls s)) =
       (if srv_pending (sys_server s) sid = None then 0 else 1) +
       length (filter (start_holds sid) (sys_calls s)) +
       length (filter (start_over sid) (sys_calls s))"

lemma length_filter_update:
  assumes "i < length xs"
  shows "length (filter P (xs[i := y])) + (if P (xs ! i) then 1 else 0) =
    length (filter P xs) + (if P y then 1 else 0)"
  using assms
proof (induction xs arbitrary: i)
  case (Cons x xs)
  then show ?case by (cases i) fastforce+
qed simp

text \<open>Starting fails in many ways, but not with \<open>SessionNotExist\<close>.\<close>

definition never :: "'e \<Rightarrow> ('s, 'e, 'x) action \<Rightarrow> bool" where
  "never e m \<longleftrightarrow> (\<forall>s. fst (m s) \<noteq> Inl e)"

named_theorems never_intro \<open>actions without a given error\<close>

lemma never_and_then [never_intro]: "never e m \<Longrightarrow> (\<And>x. never e (k x)) \<Longrightarrow> never e (and_then m k)"
  unfolding never_def and_then_def by (auto split: prod.splits sum.splits) (metis fst_conv)

lemma never_on_os [never_intro]: "(\<And>x. err x \<noteq> e) \<Longrightarrow> never e (on_os err call)"
  by (auto simp: never_def on_os_def split: prod.split sum.split)

lemma never_succeed [never_intro]: "never e (succeed x)"
  by (simp add: never_def)

lemma never_fill_cmd [never_intro]: "never SessionNotExist (lift_result (fill_cmd cmd ninep))"
  by (auto simp: never_def fill_cmd_def split: option.split)

lemma never_write_all [never_intro]: "never SessionNotExist (fd_write_all K fd bs)"
  unfolding fd_write_all_def by (intro never_intro) (simp_all add: never_def)

lemma never_setup [never_intro]:
  "never SessionNotExist (setup_tty K)" "never SessionNotExist (setup_pipes K)"
  unfolding setup_tty_def setup_pipes_def by (auto intro!: never_intro split: prod.split)

lemma never_start_middle: "never SessionNotExist (start_middle K cmd ninep)"
  unfolding start_middle_def by (auto intro!: never_intro split: prod.split)

lemma start_locked_not_SessionNotExist: "fst (start_locked K cmd sid ninep s) \<noteq> Inl SessionNotExist"
proof -
  obtain r s1 where m: "start_middle K cmd ninep s = (r, s1)" by fastforce
  with never_start_middle [of K cmd ninep] have "r \<noteq> Inl SessionNotExist"
    unfolding never_def by (metis fst_conv)
  with m show ?thesis
    by (auto simp: start_locked_middle and_then_def insert_session_def split: sum.split)
qed

text \<open>One phase keeps the books, and keeps a session in the table only after a start.\<close>

lemma call_phase_wf:
  assumes "call_wf (q, c)" "call_phase K c s = (c', s')"
  shows "call_wf (q, c')"
  using assms
  by (cases c) (auto simp: returned_def split: prod.splits sum.splits)

lemma call_phase_same_pending:
  assumes "call_phase K c s = (c', s')"
    and "\<forall>x cmd. c \<noteq> Dialing x \<and> c \<noteq> Starting x cmd"
  shows "srv_pending s' sid = None \<longleftrightarrow> srv_pending s sid = None"
  using call_phase_effect [OF assms(1), THEN spec, of sid] assms(2)
  by (cases c) (auto simp: phase_pending_def split: if_splits)

lemma no_books:
  "call_starts q \<Longrightarrow> \<forall>x cmd. q \<noteq> Dialing x \<and> q \<noteq> Starting x cmd \<Longrightarrow>
    \<not> dialed sid (q, c) \<and> \<not> start_holds sid (q, c) \<and> \<not> start_over sid (q, c)"
  by (cases q) simp_all

lemma call_phase_accounts:
  assumes "call_wf (q, c)" "\<not> call_returned c" "call_phase K c s = (c', s')"
  shows "(if dialed sid (q, c') then 1 else 0) + (if srv_pending s sid = None then 0 else 1) +
      (if start_holds sid (q, c) then 1 else 0) =
    (if srv_pending s' sid = None then 0 else (1::nat)) +
      (if start_holds sid (q, c') then 1 else 0) + (if start_over sid (q, c') then 1 else 0)"
proof (cases c)
  case (Dialing x)
  then show ?thesis using assms
    by (auto simp: dial_def returned_def split: if_splits)
next
  case (Starting x cmd)
  then show ?thesis using assms
    by (auto simp: take_pending_def split: prod.splits sum.splits option.splits)
next
  case (StartHolds x cmd ninep)
  with assms obtain r where r: "start_locked K cmd x ninep s = (r, s')" "c' = returned r"
    by (auto split: prod.splits)
  with start_locked_tables(1) [OF r(1)] start_locked_not_SessionNotExist [of K cmd x ninep s]
  show ?thesis using assms(1) StartHolds by (cases r) (auto simp: returned_def)
next
  case (Forwarding x)
  with assms obtain r where r: "ninep_forward K x s = (r, s')" "c' = returned r"
    by (auto split: prod.splits)
  with ninep_forward_tables [OF r(1)] assms(1) Forwarding show ?thesis by auto
next
  case (Returned r)
  with assms(2) show ?thesis by simp
qed (use call_phase_same_pending [OF assms(3), of sid] assms(1) in \<open>auto simp: no_books\<close>)

lemma call_phase_started:
  assumes "call_wf (q, c)" "call_phase K c s = (c', s')"
    and "srv_sessions s' sid \<noteq> None" "srv_sessions s sid = None"
  shows "started sid (q, c')"
  using call_phase_effect [OF assms(2), THEN spec, of sid] assms(1,3,4)
  by (cases c) (auto simp: phase_session_def split: if_splits)

lemma not_returned_not_started: "\<not> call_returned c \<Longrightarrow> \<not> started sid (q, c)"
  "\<not> call_returned c \<Longrightarrow> \<not> dialed sid (q, c)" "\<not> call_returned c \<Longrightarrow> \<not> start_over sid (q, c)"
  by (cases q; cases c; simp)+

definition system_inv :: "('i, 'w) system \<Rightarrow> bool" where
  "system_inv s \<longleftrightarrow> (\<forall>call \<in> set (sys_calls s). call_wf call) \<and> (\<forall>sid. accounts s sid) \<and>
     (\<forall>sid. srv_sessions (sys_server s) sid \<noteq> None \<longrightarrow> filter (started sid) (sys_calls s) \<noteq> [])"

lemma system_inv_step:
  assumes "system_step K s s'" "system_inv s"
  shows "system_inv s'"
  using assms(1)
proof cases
  case (request c)
  then show ?thesis using assms(2)
    by (cases c) (auto simp: system_inv_def accounts_def)
next
  case (phase i q c c' server)
  let ?calls = "sys_calls s"
  have old: "(q, c) \<in> set ?calls" using phase(2,3) by (metis nth_mem)
  with assms(2) have wf: "call_wf (q, c)" by (auto simp: system_inv_def)
  note wf' = call_phase_wf [OF wf phase(5)]
  have "\<forall>call \<in> set (?calls[i := (q, c')]). call_wf call"
    using assms(2) wf' set_update_subset_insert [of ?calls i "(q, c')"] by (auto simp: system_inv_def)
  moreover have "accounts s' sid" for sid
  proof -
    have "accounts s sid" using assms(2) by (simp add: system_inv_def)
    then show ?thesis
      using call_phase_accounts [OF wf phase(4,5), of sid] phase(1,3)
        length_filter_update [OF phase(2), of "dialed sid" "(q, c')"]
        length_filter_update [OF phase(2), of "start_holds sid" "(q, c')"]
        length_filter_update [OF phase(2), of "start_over sid" "(q, c')"]
        not_returned_not_started(2,3) [OF phase(4), of sid q]
      by (simp add: accounts_def)
  qed
  moreover have "filter (started sid) (?calls[i := (q, c')]) \<noteq> []"
    if "srv_sessions server sid \<noteq> None" for sid
  proof -
    note count = length_filter_update [OF phase(2), of "started sid" "(q, c')"]
    show ?thesis
    proof (cases "srv_sessions (sys_server s) sid = None")
      case True
      with call_phase_started [OF wf phase(5)] that have "started sid (q, c')" by blast
      with count not_returned_not_started(1) [OF phase(4), of sid q] phase(3) show ?thesis by auto
    next
      case False
      with assms(2) have "filter (started sid) ?calls \<noteq> []" by (simp add: system_inv_def)
      with count not_returned_not_started(1) [OF phase(4), of sid q] phase(3) show ?thesis by auto
    qed
  qed
  ultimately show ?thesis using phase(1) by (simp add: system_inv_def)
qed

lemma system_inv_reachable:
  assumes "(system_step K)\<^sup>*\<^sup>* (system_new w) s"
  shows "system_inv s"
  using assms
proof (induction rule: rtranclp_induct)
  case base
  then show ?case by (simp add: system_new_def system_inv_def accounts_def Server_new_def)
next
  case (step s s')
  from system_inv_step [OF this(2,3)] show ?case .
qed

text \<open>
  C7. However the calls on the server are interleaved, each successful dial of a session is
  used up by exactly one start: the dials that succeeded are the pending session, if there is
  one, the starts that hold it and the starts that are over after taking it. So there are never more
  started commands than dials, and a session that is running was started.
\<close>

theorem starts_use_dials:
  assumes "(system_step K)\<^sup>*\<^sup>* (system_new w) s"
  shows "length (filter (dialed sid) (sys_calls s)) =
      (if srv_pending (sys_server s) sid = None then 0 else 1) +
      length (filter (start_holds sid) (sys_calls s)) + length (filter (start_over sid) (sys_calls s)) \<and>
    (srv_sessions (sys_server s) sid \<noteq> None \<longrightarrow> filter (started sid) (sys_calls s) \<noteq> [])"
  using system_inv_reachable [OF assms] by (simp add: system_inv_def accounts_def)

text \<open>Two starts for one dial, the second in the middle of the first.\<close>

lemma system_step_eq:
  "\<lbrakk> i < length (sys_calls s); sys_calls s ! i = (q, c); \<not> call_returned c;
     s' = s\<lparr>sys_server := snd (call_phase K c (sys_server s)),
           sys_calls := (sys_calls s)[i := (q, fst (call_phase K c (sys_server s)))]\<rparr> \<rbrakk> \<Longrightarrow>
   system_step K s s'"
  using system_step.phase [of i s q c K] by (metis prod.collapse)

definition two_starts :: "(nat scall \<times> nat scall) list" where
  "two_starts =
     [(Dialing 7, Returned (Inr 0)), (Starting 7 (Command_new ''sh''), StartHolds 7 (Command_new ''sh'') None),
      (Starting 7 (Command_new ''ls''), Returned (Inl SessionNotExist))]"

theorem starts_use_dials_witness:
  "\<exists>s. (system_step sample_os)\<^sup>*\<^sup>* (system_new 0) s \<and> sys_calls s = two_starts \<and>
    length (filter (dialed 7) two_starts) =
      (if srv_pending (sys_server s) 7 = None then 0 else 1) +
      length (filter (start_holds 7) two_starts) + length (filter (start_over 7) two_starts)"
proof -
  let ?c1 = "(Dialing 7, Dialing 7)" and ?c2 = "\<lambda>cmd. (Starting 7 (Command_new cmd), Starting 7 (Command_new cmd))"
  let ?new = "Server_new 0 :: (nat, nat) Server"
  let ?dialed = "?new\<lparr>srv_pending := [7 \<mapsto> None]\<rparr>"
  let ?d = "(Dialing 7, Returned (Inr 0))"
  let ?h = "(Starting 7 (Command_new ''sh''), StartHolds 7 (Command_new ''sh'') None)"
  let ?s1 = "\<lparr>sys_server = ?new, sys_calls = [?c1]\<rparr>"
  let ?s2 = "\<lparr>sys_server = ?dialed, sys_calls = [?d]\<rparr>"
  let ?s3 = "\<lparr>sys_server = ?dialed, sys_calls = [?d, ?c2 ''sh'']\<rparr>"
  let ?s4 = "\<lparr>sys_server = ?dialed, sys_calls = [?d, ?c2 ''sh'', ?c2 ''ls'']\<rparr>"
  let ?s5 = "\<lparr>sys_server = ?new, sys_calls = [?d, ?h, ?c2 ''ls'']\<rparr>"
  let ?s6 = "\<lparr>sys_server = ?new, sys_calls = two_starts\<rparr>"
  have "system_step sample_os (system_new 0) ?s1"
    using system_step.request [of "Dialing 7" sample_os "system_new 0"] by (simp add: system_new_def)
  moreover have "system_step sample_os ?s1 ?s2"
    by (rule system_step_eq [of 0]) (auto simp: dial_def returned_def Server_new_def)
  moreover have "system_step sample_os ?s2 ?s3"
    using system_step.request [of "Starting 7 (Command_new ''sh'')" sample_os ?s2] by simp
  moreover have "system_step sample_os ?s3 ?s4"
    using system_step.request [of "Starting 7 (Command_new ''ls'')" sample_os ?s3] by simp
  moreover have "system_step sample_os ?s4 ?s5"
    by (rule system_step_eq [of 1]) (auto simp: take_pending_def Server_new_def)
  moreover have "system_step sample_os ?s5 ?s6"
    by (rule system_step_eq [of 2])
      (auto simp: take_pending_def Server_new_def two_starts_def)
  ultimately have "(system_step sample_os)\<^sup>*\<^sup>* (system_new 0) ?s6"
    by (meson converse_rtranclp_into_rtranclp rtranclp.rtrancl_refl)
  with starts_use_dials [OF this, of 7] show ?thesis
    by (intro exI [of _ ?s6] conjI) simp_all
qed

section \<open>Every call returns\<close>

text \<open>How many phases a call has left, at most, and all calls together.\<close>

fun call_rank :: "'i scall \<Rightarrow> nat" where
  "call_rank (Returned r) = 0"
| "call_rank (Starting sid cmd) = 2"
| "call_rank (ReadingOut sid) = 2"
| "call_rank (ReadingErr sid) = 2"
| "call_rank (Waiting sid) = 4"
| "call_rank (WaitsChild sid child) = 3"
| "call_rank (WaitsHandles sid ret) = 2"
| "call_rank _ = 1"

definition system_rank :: "('i, 'w) system \<Rightarrow> nat" where
  "system_rank s = (\<Sum>c\<in>#mset (sys_calls s). call_rank (snd c))"

lemma call_rank_le: "call_rank c \<le> 4"
  by (cases c) simp_all

lemma call_phase_rank:
  assumes "\<not> call_returned c" "call_phase K c s = (c', s')"
  shows "call_rank c' < call_rank c"
  using assms by (cases c) (auto simp: returned_def split: prod.splits sum.splits)

lemma system_step_rank:
  "system_step K s s' \<Longrightarrow>
    system_rank s' + 5 * length (sys_calls s) < system_rank s + 5 * length (sys_calls s')"
proof (induction rule: system_step.induct)
  case (request c s)
  then show ?case using call_rank_le [of c] by (simp add: system_rank_def)
next
  case (phase i s q c c' server)
  from phase(1) obtain M where M: "mset (sys_calls s) = add_mset (q, c) M"
    "mset ((sys_calls s)[i := (q, c')]) = add_mset (q, c') M"
    by (rule mset_list_update) (simp add: phase(2))
  from call_phase_rank [OF phase(3,4)] M show ?case by (simp add: system_rank_def)
qed

lemma system_steps_rank:
  "(system_step K ^^ n) s s' \<Longrightarrow>
    n + system_rank s' + 5 * length (sys_calls s) \<le> system_rank s + 5 * length (sys_calls s')"
proof (induction n arbitrary: s')
  case (Suc n)
  then obtain t where "(system_step K ^^ n) s t" "system_step K t s'" by auto
  with Suc.IH [of t] system_step_rank [of K t s'] show ?case by simp
qed simp

text \<open>A call that has not returned can take its next phase.\<close>

lemma system_phase_possible:
  assumes "(q, c) \<in> set (sys_calls s)" "\<not> call_returned c"
  shows "\<exists>s'. system_step K s s' \<and> length (sys_calls s') = length (sys_calls s)"
proof -
  from assms(1) obtain i where i: "i < length (sys_calls s)" "sys_calls s ! i = (q, c)"
    by (auto simp: in_set_conv_nth)
  obtain c' server where "call_phase K c (sys_server s) = (c', server)" by fastforce
  from system_step.phase [OF i assms(2) this] show ?thesis by auto
qed

lemma system_step_returned:
  assumes "system_step K s s'" "\<forall>(q, c) \<in> set (sys_calls s). call_returned c"
  shows "length (sys_calls s') = Suc (length (sys_calls s))"
  using assms(1)
proof (cases rule: system_step.cases)
  case (phase i q c c' server)
  from nth_mem [OF phase(2)] phase(3,4) assms(2) show ?thesis by auto
qed simp



section \<open>Starting, from the dial to the launcher\<close>

lemma on_os_sent: "on_os err call s = (r, s') \<Longrightarrow> srv_sent s' = srv_sent s"
  by (auto simp: on_os_def split: prod.splits sum.splits)

lemma fd_write_all_sent: "fd_write_all K fd bs s = (Inr u, s') \<Longrightarrow> srv_sent s' = srv_sent s @ [(fd, bs)]"
  by (auto simp: fd_write_all_def and_then_eq_Inr on_os_sent)

lemma setup_sent:
  "(if b then setup_tty K else setup_pipes K) s = (Inr x, s') \<Longrightarrow> srv_sent s' = srv_sent s"
  unfolding setup_tty_def setup_pipes_def
  by (auto simp: and_then_eq_Inr on_os_sent split: if_splits prod.splits)

lemma start_middle_Inr:
  assumes "start_middle K cmd ninep s = (Inr info, s')"
  shows "\<exists>cmd' conn. fill_cmd cmd ninep = Inr cmd' \<and>
    srv_sent s' = srv_sent s @ [(conn, le_bytes 8 (length (os_encode K cmd'))), (conn, os_encode K cmd')] \<and>
    ses_handles info = (case ninep of None \<Rightarrow> [] | Some (p, handle) \<Rightarrow> [handle])"
  using assms unfolding start_middle_def
  by (auto simp: and_then_eq_Inr on_os_sent dest!: on_os_sent fd_write_all_sent setup_sent
      simp del: le_bytes.simps split: prod.splits)

lemma start_cases:
  "start K cmd sid s =
     (case srv_pending s sid of
        None \<Rightarrow> (Inl SessionNotExist, s)
      | Some ninep \<Rightarrow> start_locked K cmd sid ninep (s\<lparr>srv_pending := (srv_pending s)(sid := None)\<rparr>))"
  by (simp add: start_def take_pending_def and_then_def split: option.split)

lemma start_Inr:
  assumes "start K cmd sid s = (Inr u, s')"
  shows "\<exists>ninep cmd' conn info. srv_pending s sid = Some ninep \<and> fill_cmd cmd ninep = Inr cmd' \<and>
    srv_sent s' = srv_sent s @ [(conn, le_bytes 8 (length (os_encode K cmd'))), (conn, os_encode K cmd')] \<and>
    srv_sessions s sid = None \<and> srv_sessions s' = (srv_sessions s)(sid \<mapsto> info) \<and>
    srv_pending s' = (srv_pending s)(sid := None) \<and>
    ses_handles info = (case ninep of None \<Rightarrow> [] | Some (port, handle) \<Rightarrow> [handle])"
proof -
  let ?s = "s\<lparr>srv_pending := (srv_pending s)(sid := None)\<rparr>"
  from assms obtain ninep where pending: "srv_pending s sid = Some ninep"
    and locked: "start_locked K cmd sid ninep ?s = (Inr u, s')"
    by (auto simp: start_cases split: option.splits)
  then have none: "srv_sessions s sid = None" by (simp add: start_locked_middle split: if_splits)
  with locked obtain info s1 where m: "start_middle K cmd ninep ?s = (Inr info, s1)"
    "insert_session sid info s1 = (Inr u, s')"
    by (auto simp: start_locked_middle and_then_eq_Inr)
  with start_middle_Inr [OF m(1)] keepsD [OF keeps_start_middle m(1)] none pending
  show ?thesis
    by (auto simp: insert_session_def simp del: le_bytes.simps)
qed

lemma read_cmd_sent:
  assumes "p_stream p = concat (map snd [(conn, le_bytes 8 (length buf)), (conn, buf)])" "p_stream_error p = None"
    and "decode buf = Inr cmd" "length buf < 2 ^ 64"
  shows "fst (read_cmd decode p) = Inr cmd"
proof -
  from assms(1) have "p_stream p = cmd_frame buf @ []"
    by (simp add: cmd_frame_def del: le_bytes.simps)
  from read_cmd_frame [where decode = decode, OF this assms(4,3)] assms(2) show ?thesis
    by (simp add: expect_end_def stream_read1_def)
qed

text \<open>
  When the start of a dialed session succeeds, what the server wrote to the connection of
  the launcher is the frame of the client's command with the 9P port of the session filled in,
  and the launcher reads exactly that command from it (for every encoding that decodes it and
  has a length of 64 bits). The session is no longer pending but running, and it alone, with the
  task of its 9P forwarding to be joined.
\<close>

theorem start_reaches_launcher:
  assumes "start K cmd sid s = (Inr u, s')" "srv_pending s sid = Some ninep"
    and "\<And>cmd'. fill_cmd cmd ninep = Inr cmd' \<Longrightarrow>
      decode (os_encode K cmd') = Inr cmd' \<and> length (os_encode K cmd') < 2 ^ 64"
    and "p_stream p = concat (map snd (drop (length (srv_sent s)) (srv_sent s')))" "p_stream_error p = None"
  shows "\<exists>cmd' info. fill_cmd cmd ninep = Inr cmd' \<and> fst (read_cmd decode p) = Inr cmd' \<and>
    srv_sessions s sid = None \<and> srv_sessions s' = (srv_sessions s)(sid \<mapsto> info) \<and>
    srv_pending s' = (srv_pending s)(sid := None) \<and>
    ses_handles info = (case ninep of None \<Rightarrow> [] | Some (port, handle) \<Rightarrow> [handle])"
proof -
  from start_Inr [OF assms(1)] assms(2) obtain cmd' conn info where c: "fill_cmd cmd ninep = Inr cmd'"
    and sent: "srv_sent s' = srv_sent s @ [(conn, le_bytes 8 (length (os_encode K cmd'))), (conn, os_encode K cmd')]"
    and tables: "srv_sessions s sid = None" "srv_sessions s' = (srv_sessions s)(sid \<mapsto> info)"
      "srv_pending s' = (srv_pending s)(sid := None)"
      "ses_handles info = (case ninep of None \<Rightarrow> [] | Some (port, handle) \<Rightarrow> [handle])"
    by auto
  from read_cmd_sent [where p = p and decode = decode and buf = "os_encode K cmd'" and conn = conn]
    assms(3) [OF c] assms(4,5) sent
  have "fst (read_cmd decode p) = Inr cmd'" by simp
  with c tables show ?thesis by blast
qed

definition ninep_cmd :: Cmd where
  "ninep_cmd = Command_ninep True (Command_tmp_mnt ''/tmp'' (Command_fstab [ninep_tab ''/tmp''] (Command_new ''ls'')))"

definition dialed_server :: "(nat, nat) Server" where
  "dialed_server =
     \<lparr>srv_sessions = Map.empty, srv_pending = [7 \<mapsto> Some (564, 3)], srv_task = 4, srv_sent = [], srv_world = 20\<rparr>"

definition filled_cmd :: Cmd where
  "filled_cmd = ninep_cmd\<lparr>cmd_fstab := [\<lparr>tab_spec = ''127.0.0.1'', tab_file = ''/tmp/mnt9p'',
     tab_vfstype = ''9p'', tab_mntops = ninep_opts 564, tab_freq = 0, tab_passno = 0\<rparr>]\<rparr>"

lemma fill_ninep_cmd: "fill_cmd ninep_cmd (Some (564, 3)) = Inr filled_cmd"
  by (simp add: fill_cmd_def ninep_cmd_def filled_cmd_def Command_ninep_def Command_tmp_mnt_def
      Command_fstab_def Command_new_def Cmd_default_def ninep_tab_def NINEP_MOUNT_def)

lemma encode_filled_cmd: "os_encode sample_os filled_cmd = [0]"
  by (simp add: sample_os_def filled_cmd_def ninep_cmd_def Command_ninep_def Command_tmp_mnt_def
      Command_fstab_def Command_new_def Cmd_default_def)

lemma start_dialed_server:
  "start sample_os ninep_cmd 7 dialed_server =
     (Inr (), \<lparr>srv_sessions = [7 \<mapsto> \<lparr>ses_stdin = 22, ses_stdout = 23, ses_stderr = Some 25, ses_child = 27, ses_handles = [3]\<rparr>],
       srv_pending = Map.empty, srv_task = 4, srv_sent = [(28, [1, 0, 0, 0, 0, 0, 0, 0]), (28, [0])], srv_world = 29\<rparr>)"
proof -
  have tty: "cmd_tty filled_cmd = False"
    by (simp add: filled_cmd_def ninep_cmd_def Command_ninep_def Command_tmp_mnt_def
      Command_fstab_def Command_new_def Cmd_default_def)
  have "le_bytes 8 1 = ([1, 0, 0, 0, 0, 0, 0, 0] :: u8 list)" by code_simp
  with encode_filled_cmd show ?thesis
    by (simp add: start_cases start_locked_def and_then_def on_os_def fd_write_all_def setup_pipes_def
        fill_ninep_cmd tty dialed_server_def sample_os_def Let_def del: le_bytes.simps)
qed

theorem start_reaches_launcher_witness:
  "fst (read_cmd (\<lambda>buf. if buf = [0] then Inr filled_cmd else Inl ''bad'')
    \<lparr>p_calls = [], p_stream = [1, 0, 0, 0, 0, 0, 0, 0, 0], p_stream_error = None, p_world = ()\<rparr>) =
   Inr filled_cmd"
  using start_reaches_launcher [OF start_dialed_server, of "Some (564, 3)"
      "\<lambda>buf. if buf = [0] then Inr filled_cmd else Inl ''bad''"
      "\<lparr>p_calls = [], p_stream = [1, 0, 0, 0, 0, 0, 0, 0, 0], p_stream_error = None, p_world = ()\<rparr>"]
  by (auto simp: fill_ninep_cmd encode_filled_cmd) (simp add: dialed_server_def)

text \<open>
  C28. When starting fails, no session is entered or removed, and nothing of the other sessions
  changes; but the session is not pending any more, so every further attempt to start it, or
  to forward 9P for it, is refused with \<open>SessionNotExist\<close> until it is dialed again.
\<close>

theorem start_failure:
  assumes "start K cmd sid s = (Inl e, s')"
  shows "srv_sessions s' = srv_sessions s \<and> srv_pending s' = (srv_pending s)(sid := None) \<and>
    start K' cmd' sid s' = (Inl SessionNotExist, s') \<and>
    ninep_forward K' sid s' = (Inl SessionNotExist, s') \<and> fst (dial sid s') = Inr ()"
proof -
  have "srv_sessions s' = srv_sessions s \<and> srv_pending s' = (srv_pending s)(sid := None)"
    using assms by (auto simp: start_cases fun_upd_idem dest: start_locked_tables(1,2) split: option.splits)
  then show ?thesis
    by (simp add: start_cases ninep_forward_def dial_def)
qed

theorem start_failure_witness:
  "start sample_os ninep_cmd 7 (snd (start sample_os ninep_cmd 7 (dialed_server\<lparr>srv_pending := [7 \<mapsto> None]\<rparr>))) =
     (Inl SessionNotExist, dialed_server\<lparr>srv_pending := Map.empty, srv_world := 21\<rparr>)"
proof -
  have "start sample_os ninep_cmd 7 (dialed_server\<lparr>srv_pending := [7 \<mapsto> None]\<rparr>) =
      (Inl No9pPort, dialed_server\<lparr>srv_pending := Map.empty, srv_world := 21\<rparr>)"
    by (simp add: start_cases start_locked_def and_then_def on_os_def fill_cmd_def ninep_cmd_def
        Command_ninep_def Command_tmp_mnt_def dialed_server_def sample_os_def)
  from start_failure [OF this, of sample_os ninep_cmd] this show ?thesis by simp
qed

section \<open>Calls alone\<close>

text \<open>The operation a request stands for, in one piece, with results as numbers.\<close>

definition as_number :: "('i, 'w, unit) srv_act \<Rightarrow> ('i, 'w, int) srv_act" where
  "as_number m = and_then m (\<lambda>_. succeed 0)"

fun operation :: "'w os \<Rightarrow> 'i scall \<Rightarrow> ('i, 'w, int) srv_act" where
  "operation K (Dialing sid) = as_number (dial sid)"
| "operation K (Forwarding sid) = as_number (ninep_forward K sid)"
| "operation K (Starting sid cmd) = as_number (start K cmd sid)"
| "operation K (Feeding sid items) = as_number (stdin K sid items)"
| "operation K (ReadingOut sid) = as_number (and_then (stdout_spawn sid) (push_handle sid))"
| "operation K (ReadingErr sid) = as_number (and_then (stderr_spawn sid) (push_handle sid))"
| "operation K (Waiting sid) = wait K sid"
| "operation K c = succeed 0"

fun run_alone :: "'w os \<Rightarrow> nat \<Rightarrow> 'i scall \<Rightarrow> ('i, 'w) Server \<Rightarrow> 'i scall \<times> ('i, 'w) Server" where
  "run_alone K 0 c s = (c, s)"
| "run_alone K (Suc n) c s = (let (c', s') = call_phase K c s in run_alone K n c' s')"

lemma run_alone_Returned: "run_alone K n (Returned r) s = (Returned r, s)"
  by (induction n) simp_all

lemma run_alone_numeral:
  "run_alone K (numeral n) c s =
     (let (c', s') = call_phase K c s in run_alone K (pred_numeral n) c' s')"
  by (simp add: numeral_eq_Suc)

lemma as_number_apply: "as_number m s = (map_sum id (\<lambda>_. 0) (fst (m s)), snd (m s))"
  by (auto simp: as_number_def and_then_def split: prod.split sum.split)



lemma wait_apply:
  "wait K sid s =
     (case srv_sessions s sid of
        None \<Rightarrow> (Inl SessionNotExist, s)
      | Some info \<Rightarrow>
          (let (status, w) = os_wait K (ses_child info) (srv_world s)
           in (case status of
                 Inr (Some code) \<Rightarrow> Inr code
               | Inr None \<Rightarrow> Inl NoReturnCode
               | Inl e \<Rightarrow> Inl (CommandError e),
               s\<lparr>srv_world := w, srv_sessions := (srv_sessions s)(sid := None)\<rparr>)))"
  by (auto simp: wait_def and_then_def get_session_def child_result_def remove_session_def
      split: option.split prod.split sum.split)

text \<open>
  Waiting for a session that is not running is refused and changes nothing. Otherwise the
  result is the exit code of the session's child, an error when it was ended by a signal or
  cannot be waited for, and in every case the session is removed.
\<close>

theorem wait_result:
  "wait K sid s =
     (case srv_sessions s sid of
        None \<Rightarrow> (Inl SessionNotExist, s)
      | Some info \<Rightarrow>
          (let (status, w) = os_wait K (ses_child info) (srv_world s)
           in (case status of
                 Inr (Some code) \<Rightarrow> Inr code
               | Inr None \<Rightarrow> Inl NoReturnCode
               | Inl e \<Rightarrow> Inl (CommandError e),
               s\<lparr>srv_world := w, srv_sessions := (srv_sessions s)(sid := None)\<rparr>)))"
  by (rule wait_apply)

section \<open>Copying\<close>

text \<open>The writes to the kernel of a run of the 9P loop: items and what was accepted of them.\<close>

fun forward_writes :: "forward_event list \<Rightarrow> (u8 list \<times> nat) list" where
  "forward_writes (FromKernel (Inr buf) sends # es) =
     (if buf = [] \<or> \<not> sends then [] else forward_writes es)"
| "forward_writes (FromClient (Some item) (Inr n) # es) =
     (if n = 0 then [] else (item, n) # forward_writes es)"
| "forward_writes es = []"

lemma forward_loop_bytes: "fst (snd (forward_loop es)) = concat (map (\<lambda>(item, n). take n item) (forward_writes es))"
  by (induction es rule: forward_loop.induct) (auto simp: Let_def split: prod.split)

lemma concat_take_all:
  assumes "\<forall>(xs, n) \<in> set ws. n \<le> length xs"
  shows "concat (map (\<lambda>(xs, n). take n xs) ws) = concat (map fst ws) \<longleftrightarrow> (\<forall>(xs, n) \<in> set ws. n = length xs)"
  using assms
proof (induction ws)
  case (Cons w ws)
  obtain xs n where w: "w = (xs, n)" by fastforce
  let ?taken = "concat (map (\<lambda>(xs, n). take n xs) ws)"
  have le: "length ?taken \<le> length (concat (map fst ws))"
    by (induction ws) auto
  have "n = length xs" if eq: "take n xs @ ?taken = xs @ concat (map fst ws)"
  proof -
    have "length (take n xs @ ?taken) = length (xs @ concat (map fst ws))" by (simp only: eq)
    with le Cons.prems w show ?thesis by simp
  qed
  then have "take n xs @ ?taken = xs @ concat (map fst ws) \<longleftrightarrow> n = length xs \<and> ?taken = concat (map fst ws)"
    by (metis append_take_drop_id append_eq_append_conv take_all_iff order_refl)
  with Cons w show ?case by simp
qed simp

text \<open>
  What the 9P loop writes to the mount in the kernel are, of each item of the client, the
  bytes a single write accepted: the kernel gets the client's bytes exactly when no write of
  the run is short, and otherwise bytes are lost in the middle of the stream.
\<close>

theorem forward_loop_short_write:
  assumes "forward_loop es = (out, bs, r)"
    and "\<forall>(item, n) \<in> set (forward_writes es). n \<le> length item"
  shows "bs = concat (map fst (forward_writes es)) \<longleftrightarrow>
    (\<forall>(item, n) \<in> set (forward_writes es). n = length item)"
  using forward_loop_bytes [of es] assms(1) concat_take_all [OF assms(2)] by simp

theorem forward_loop_short_write_witness:
  "forward_loop [FromClient (Some [1, 2, 3]) (Inr 2), FromClient (Some [4]) (Inr 1), FromClient None (Inr 0)] =
     ([], [1, 2, 4], Some (Inr ())) \<and>
   [1, 2, 4] \<noteq> concat (map fst [([1, 2, 3 :: u8], 2 :: nat), ([4], 1)])"
proof -
  let ?es = "[FromClient (Some [1, 2, 3]) (Inr 2), FromClient (Some [4]) (Inr 1), FromClient None (Inr 0)]"
  have loop: "forward_loop ?es = ([], [1, 2, 4], Some (Inr ()))" by simp
  from forward_loop_short_write [OF loop] loop show ?thesis by simp
qed

end
