(* ===== verification/Client_Properties.thy ===== *)
theory Client_Properties
  imports Client Server_Properties
begin

text \<open>
  What the client promises over any transport, and what a whole session is over gRPC: the
  calls of a start in order, the order of a wait and the restored terminal, and the command
  that runs on the server between the two.
\<close>

section \<open>Calls of the client\<close>

lemma on_inner_Inr:
  "on_inner ev m c = (Inr x, c') \<longleftrightarrow>
     (\<exists>s. m (cl_inner c) = (Inr x, s) \<and> c' = c\<lparr>cl_inner := s, cl_log := cl_log c @ [ev]\<rparr>)"
  by (cases "m (cl_inner c)"; cases "fst (m (cl_inner c))") (auto simp: on_inner_def Let_def)

lemma spawn_client_task_Inr:
  "spawn_client_task c = (Inr n, c') \<longleftrightarrow> n = cl_tasks c \<and> c' = c\<lparr>cl_tasks := cl_tasks c + 1\<rparr>"
  by (auto simp: spawn_client_task_def)

lemma note_event_Inr:
  "note_event ev c = (Inr u, c') \<longleftrightarrow> c' = c\<lparr>cl_log := cl_log c @ [ev]\<rparr>"
  by (auto simp: note_event_def)

lemmas client_Inr = and_then_eq_Inr on_inner_Inr spawn_client_task_Inr note_event_Inr only_if_eq_Inr

lemma setup_stdio_Inr:
  assumes "setup_stdio R sid tty c = (Inr handles, c')"
  shows "cl_log c' = cl_log c @ [OpenStdout sid] @ (if tty then [] else [OpenStderr sid]) @ [OpenStdin sid] \<and>
    handles = [cl_tasks c ..< cl_tasks c + (if tty then 2 else 3)] \<and>
    cl_term c' = cl_term c \<and> cl_session c' = cl_session c"
  using assms unfolding setup_stdio_def
  by (auto simp: client_Inr upt_rec split: if_splits)

text \<open>The calls of a successful start, in order.\<close>

definition start_calls :: "'i \<Rightarrow> Cmd \<Rightarrow> ('i, 'a) client_event list" where
  "start_calls sid command =
     [Dialed] @ (if cmd_ninep command then [ForwardNinep sid, ServeUnpfs] else []) @
     [StartCommand sid command, OpenStdout sid] @
     (if cmd_tty command then [] else [OpenStderr sid]) @ [OpenStdin sid]"

lemma client_start_Inr:
  assumes "client_start R replies command c = (Inr u, c')"
  shows "\<exists>sid handles. cl_session c = None \<and> cl_log c' = cl_log c @ start_calls sid command \<and>
    cl_session c' = Some \<lparr>si_sid = sid, si_handles = handles, si_tty = cmd_tty command\<rparr> \<and>
    distinct handles \<and> length handles = (if cmd_tty command then 2 else 3) \<and> cl_term c' = cl_term c"
  using assms unfolding client_start_def start_calls_def
  by (cases "cl_session c"; cases "cmd_ninep command"; cases "cmd_tty command")
    (auto simp: client_Inr dest!: setup_stdio_Inr)

text \<open>An action that leaves the session of the client alone.\<close>

definition same_session :: "('i, 's, 'a, 't, 'e, 'x) client_act \<Rightarrow> bool" where
  "same_session m \<longleftrightarrow> (\<forall>c. cl_session (snd (m c)) = cl_session c)"

lemma same_session_and_then:
  "same_session m \<Longrightarrow> (\<And>x. same_session (k x)) \<Longrightarrow> same_session (and_then m k)"
  unfolding same_session_def and_then_def by (auto split: prod.split sum.split) (metis snd_conv)+

lemma same_session_basic:
  "same_session (on_inner ev m)" "same_session (note_event ev)" "same_session spawn_client_task"
  "same_session (succeed x)"
  by (auto simp: same_session_def on_inner_def note_event_def spawn_client_task_def
      split: prod.split)

lemmas same_session_intro = same_session_and_then same_session_basic

lemma same_session_Inl:
  assumes "and_then m (\<lambda>x c. (Inr (g x), f x c)) c = (Inl e, c')" "same_session m"
  shows "cl_session c' = cl_session c"
proof (cases "m c")
  case (Pair r c1)
  with assms(2) have "cl_session c1 = cl_session c" unfolding same_session_def by (metis snd_conv)
  with Pair assms(1) show ?thesis by (cases r) (auto simp: and_then_def)
qed

lemma same_session_setup_stdio: "same_session (setup_stdio R sid tty)"
  unfolding setup_stdio_def by (cases tty) (auto intro!: same_session_intro)

lemma same_session_ninep:
  "same_session (only_if b (and_then (on_inner ev m) (\<lambda>_. and_then spawn_client_task (\<lambda>_. note_event ev'))))"
  unfolding only_if_def by (auto intro!: same_session_intro)

text \<open>
  C34. Starting a command when one was started is refused, without a call. Otherwise, when it
  succeeds, the calls were, in order: dial, for a command with 9P forwarding, and then the
  server of the local files, start, and the outputs and the input (no error output with a
  terminal); the client has the session with one task for each stream. When it fails the
  client still has no session.
\<close>

theorem client_start_result:
  "case client_start R replies command c of
     (Inr u, c') \<Rightarrow> cl_session c = None \<and> (\<exists>sid handles. cl_log c' = cl_log c @ start_calls sid command \<and>
       cl_session c' = Some \<lparr>si_sid = sid, si_handles = handles, si_tty = cmd_tty command\<rparr> \<and>
       distinct handles \<and> length handles = (if cmd_tty command then 2 else 3))
   | (Inl e, c') \<Rightarrow> cl_session c' = cl_session c \<and> (cl_session c \<noteq> None \<longrightarrow> e = AlreadyStarted \<and> c' = c)"
proof -
  obtain r c' where r: "client_start R replies command c = (r, c')" by fastforce
  show ?thesis
  proof (cases r)
    case (Inr u)
    with r client_start_Inr [of R replies command c u c'] show ?thesis by auto
  next
    case (Inl e)
    let ?body = "and_then (on_inner Dialed (in_dial R)) (\<lambda>sid.
        and_then (only_if (cmd_ninep command)
          (and_then (on_inner (ForwardNinep sid) (in_ninep_forward R sid replies)) (\<lambda>_.
           and_then spawn_client_task (\<lambda>_. note_event ServeUnpfs)))) (\<lambda>_.
        and_then (on_inner (StartCommand sid command) (in_start R sid command)) (\<lambda>_.
        and_then (setup_stdio R sid (cmd_tty command)) (\<lambda>handles. succeed (sid, handles)))))"
    have same: "same_session ?body"
      by (intro same_session_intro same_session_ninep same_session_setup_stdio)
    let ?session = "\<lambda>x. \<lparr>si_sid = fst x, si_handles = snd x, si_tty = cmd_tty command\<rparr>"
    have "cl_session c' = cl_session c" if "cl_session c = None"
      using that r Inl
      by (intro same_session_Inl [of ?body "\<lambda>_. ()" "\<lambda>x c. c\<lparr>cl_session := Some (?session x)\<rparr>", OF _ same])
        (simp add: client_start_def and_then_assoc and_then_succeed)
    with r Inl show ?thesis
      by (cases "cl_session c") (auto simp: client_start_def)
  qed
qed

section \<open>Waiting\<close>

text \<open>What a wait does once the terminal is set up, and what the child's end becomes.\<close>

definition waiting_calls :: "'i SessionInfo \<Rightarrow> ('i, 'a) client_event list" where
  "waiting_calls info = [WaitCommand (si_sid info), StopStdin] @ map Joined (si_handles info)"

definition exit_result :: "'e + int \<Rightarrow> 'e ClientError + unit" where
  "exit_result r = (case r of
     Inl e \<Rightarrow> Inl (Inner e) | Inr code \<Rightarrow> if code = 0 then Inr () else Inl (NonZeroExitCode code))"

lemma for_each_note_event:
  "for_each (\<lambda>x. note_event (f x)) xs c = (Inr (), c\<lparr>cl_log := cl_log c @ map f xs\<rparr>)"
proof (induction xs arbitrary: c)
  case (Cons x xs)
  show ?case by (simp add: and_then_def Cons.IH) (simp add: note_event_def Cons.IH)
qed simp

lemma wait_inner_apply:
  "wait_inner R sid c =
     (let (r, s) = in_wait R sid (cl_inner c)
      in (exit_result r, c\<lparr>cl_inner := s, cl_log := cl_log c @ [WaitCommand sid]\<rparr>))"
  by (auto simp: wait_inner_def and_then_def on_inner_def exit_result_def
      split: prod.split sum.split)

lemma client_wait_apply:
  fixes R :: "('s, 'e, 'i) ClientInner"
  assumes "cl_session c = Some info"
  shows "client_wait T R c =
    (let run = \<lambda>c termios_attr.
       (let (r, s) = in_wait R (si_sid info) (cl_inner c);
            c = c\<lparr>cl_inner := s, cl_log := cl_log c @ waiting_calls info\<rparr>
        in (exit_result r, snd (restore_terminal T termios_attr c :: ('e ClientError + unit) \<times> _)));
       c = c\<lparr>cl_session := None\<rparr>
     in if si_tty info then
          (case tm_getattr T (cl_term c) of
             (Inl e, t) \<Rightarrow> (Inl (Sys e), c\<lparr>cl_term := t\<rparr>)
           | (Inr a, t) \<Rightarrow>
               (case tm_setattr T (tm_makeraw T a) t of
                  (Inl e, t) \<Rightarrow> (Inl (Sys e), c\<lparr>cl_term := t, cl_log := cl_log c @ [SetTerminal (tm_makeraw T a)]\<rparr>)
                | (Inr u, t) \<Rightarrow> run (c\<lparr>cl_term := t, cl_log := cl_log c @ [SetTerminal (tm_makeraw T a)]\<rparr>) (Some a)))
        else run c None)"
  using assms
  by (auto simp: client_wait_def and_then_def take_session_def raw_mode_def get_terminal_def
      set_terminal_def keep_result_def wait_inner_apply note_event_def for_each_note_event
      restore_terminal_def discard_def waiting_calls_def Let_def
      split: prod.split sum.split)

text \<open>
  C18. Waiting takes the session, whatever happens then. It does, in order: set the terminal
  to raw mode, when the command has one, wait for the command, stop reading the standard
  input, join every task, and set the terminal back to the attributes it had; only a terminal
  that cannot be read or set ends it early, with that error. Otherwise the result is that of
  the wait: success exactly when the command exits with 0, even when a task or the last
  setting of the terminal fails.
\<close>

theorem client_wait_order:
  assumes "cl_session c = Some info" "client_wait T R c = (r, c')"
  shows "cl_session c' = None \<and>
    (if si_tty info then
       (case tm_getattr T (cl_term c) of
          (Inl e, t) \<Rightarrow> r = Inl (Sys e) \<and> cl_log c' = cl_log c
        | (Inr a, t) \<Rightarrow>
            (case tm_setattr T (tm_makeraw T a) t of
               (Inl e, t') \<Rightarrow> r = Inl (Sys e) \<and> cl_log c' = cl_log c @ [SetTerminal (tm_makeraw T a)]
             | (Inr u, t') \<Rightarrow> r = exit_result (fst (in_wait R (si_sid info) (cl_inner c))) \<and>
                 cl_log c' = cl_log c @ [SetTerminal (tm_makeraw T a)] @ waiting_calls info @ [SetTerminal a] \<and>
                 cl_term c' = snd (tm_setattr T a t')))
     else r = exit_result (fst (in_wait R (si_sid info) (cl_inner c))) \<and>
       cl_log c' = cl_log c @ waiting_calls info \<and> cl_term c' = cl_term c)"
  using assms
  by (auto simp: client_wait_apply restore_terminal_def discard_def set_terminal_def Let_def
      split: prod.splits sum.splits if_splits)

text \<open>A terminal whose attribute is a number, and a transport on which every call succeeds.\<close>

definition sample_terminal :: "(nat, nat) terminal" where
  "sample_terminal =
     \<lparr>tm_getattr = \<lambda>t. (Inr t, t), tm_makeraw = \<lambda>a. a + 100, tm_setattr = \<lambda>a t. (Inr (), a)\<rparr>"

definition sample_inner :: "(nat, string, nat) ClientInner" where
  "sample_inner =
     \<lparr>in_dial = \<lambda>s. (Inr s, s + 1), in_start = \<lambda>sid command s. (Inr (), s), in_stdout = \<lambda>sid s. (Inr 0, s),
      in_stderr = \<lambda>sid s. (Inr 1, s), in_stdin = \<lambda>sid c s. (Inr (), s),
      in_ninep_forward = \<lambda>sid c s. (Inr (), s), in_wait = \<lambda>sid s. (Inr 3, s)\<rparr>"

definition sample_client :: "(nat, nat, nat, nat) P9cpuClient" where
  "sample_client =
     (P9cpuClient_new 5 8)\<lparr>cl_session := Some \<lparr>si_sid = 4, si_handles = [0, 1], si_tty = True\<rparr>\<rparr>"

theorem client_wait_order_witness:
  "fst (client_wait sample_terminal sample_inner sample_client) = Inl (NonZeroExitCode 3) \<and>
   cl_term (snd (client_wait sample_terminal sample_inner sample_client)) = 8"
proof -
  obtain r c' where r: "client_wait sample_terminal sample_inner sample_client = (r, c')" by fastforce
  from client_wait_order [OF _ r, of "\<lparr>si_sid = 4, si_handles = [0, 1], si_tty = True\<rparr>"] r show ?thesis
    by (simp add: sample_client_def sample_terminal_def sample_inner_def P9cpuClient_new_def exit_result_def)
qed

section \<open>Sessions over a transport\<close>

text \<open>
  What the client relies on: a started session runs, asking for its outputs changes nothing
  of that, and after a wait it does not run.
\<close>

locale session_transport =
  fixes R :: "('s, 'e, 'i) ClientInner"
    and running :: "'s \<Rightarrow> 'i \<Rightarrow> bool"
  assumes start_running: "in_start R sid command s = (Inr u, s') \<Longrightarrow> running s' sid"
    and stdout_running: "in_stdout R x s = (Inr n, s') \<Longrightarrow> running s' sid = running s sid"
    and stderr_running: "in_stderr R x s = (Inr n, s') \<Longrightarrow> running s' sid = running s sid"
    and wait_running: "in_wait R sid s = (r, s') \<Longrightarrow> \<not> running s' sid"
begin

lemma setup_stdio_running:
  assumes "setup_stdio R x tty c = (Inr handles, c')"
  shows "running (cl_inner c') sid = running (cl_inner c) sid"
  using assms unfolding setup_stdio_def
  by (auto simp: client_Inr stdout_running stderr_running split: if_splits)

lemma client_start_running:
  assumes "client_start R replies command c = (Inr u, c')"
  shows "\<exists>info. cl_session c' = Some info \<and> running (cl_inner c') (si_sid info)"
  using assms unfolding client_start_def
  by (cases "cl_session c"; cases "cmd_ninep command")
    (auto simp: client_Inr setup_stdio_running start_running)

lemma client_wait_running:
  assumes "cl_session c = Some info" "client_wait T R c = (r, c')"
    and "WaitCommand (si_sid info) \<in> set (drop (length (cl_log c)) (cl_log c'))"
  shows "\<not> running (cl_inner c') (si_sid info)"
  using assms wait_running
  by (auto simp: client_wait_apply restore_terminal_def discard_def set_terminal_def Let_def
      split: prod.splits sum.splits if_splits)

end

section \<open>Sessions over gRPC\<close>

text \<open>The session a client's identifier names on the server.\<close>

definition remote_session :: "('i, 'w) service \<Rightarrow> ('i, 'w) Server \<Rightarrow> 'i \<Rightarrow> Session option" where
  "remote_session V s sid =
     (case u_from_slice (sv_uuids V) (u_bytes (sv_uuids V) sid) of
        Inl e \<Rightarrow> None
      | Inr x \<Rightarrow> srv_sessions s x)"

lemma with_uuid_eq:
  "and_then (lift_result (vec_to_uuid U v)) k s =
     (case u_from_slice U v of Inl e \<Rightarrow> (Inl (Invalid_argument e), s) | Inr x \<Rightarrow> k x s)"
  by (simp add: vec_to_uuid_def and_then_def split: sum.split)

lemma on_server_Inr: "on_server V m s = (Inr x, s') \<longleftrightarrow> m s = (Inr x, s')"
  by (simp add: on_server_def map_err_eq_Inr)

lemma start_Inr_running:
  "start K cmd sid s = (Inr u, s') \<Longrightarrow> srv_sessions s' sid \<noteq> None"
  by (auto simp: start_cases split: option.splits dest!: start_locked_tables(3))

lemma output_running:
  assumes "and_then (stdout_spawn x) (\<lambda>handle. and_then (push_handle x handle) (\<lambda>_. succeed handle)) s = (r, s') \<or>
    and_then (stderr_spawn x) (\<lambda>handle. and_then (push_handle x handle) (\<lambda>_. succeed handle)) s = (r, s')"
  shows "\<forall>sid. (\<exists>info. srv_sessions s' sid = Some info) \<longleftrightarrow> (\<exists>info. srv_sessions s sid = Some info)"
  using assms
  by (auto simp: stdout_spawn_def stderr_spawn_def push_handle_def and_then_def get_session_def
      spawn_task_def split: option.splits if_splits)

lemma wait_stops:
  "wait K sid s = (r, s') \<Longrightarrow> srv_sessions s' sid = None"
  by (auto simp: wait_def and_then_def get_session_def child_result_def remove_session_def
      split: option.splits prod.splits sum.splits)

interpretation rpc: session_transport "rpc_inner V" "\<lambda>s sid. remote_session V s sid \<noteq> None" for V
proof
  fix sid x :: 'a and command u s s' n
  show "in_start (rpc_inner V) sid command s = (Inr u, s') \<Longrightarrow> remote_session V s' sid \<noteq> None"
    by (auto simp: rpc_inner_simps map_err_eq_Inr
        service_start_def with_uuid_eq on_server_Inr remote_session_def
        dest: start_Inr_running split: sum.splits)
  show "in_stdout (rpc_inner V) x s = (Inr n, s') \<Longrightarrow>
      (remote_session V s' sid \<noteq> None) = (remote_session V s sid \<noteq> None)"
    by (auto simp: rpc_inner_simps map_err_eq_Inr
        service_stdout_def with_uuid_eq on_server_Inr remote_session_def
        dest: output_running [OF disjI1] output_running [OF disjI2] split: sum.splits)
  show "in_stderr (rpc_inner V) x s = (Inr n, s') \<Longrightarrow>
      (remote_session V s' sid \<noteq> None) = (remote_session V s sid \<noteq> None)"
    by (auto simp: rpc_inner_simps map_err_eq_Inr
        service_stderr_def with_uuid_eq on_server_Inr remote_session_def
        dest: output_running [OF disjI1] output_running [OF disjI2] split: sum.splits)
next
  fix sid :: 'a and s r s'
  assume "in_wait (rpc_inner V) sid s = (r, s')"
  then show "\<not> remote_session V s' sid \<noteq> None"
    by (auto simp: rpc_inner_simps map_err_def
        service_wait_def with_uuid_eq on_server_def remote_session_def wait_stops
        split: sum.splits prod.splits)
qed

text \<open>The result of a wait over gRPC, for a session that runs.\<close>

lemma rpc_wait_running:
  assumes "remote_session V s sid = Some info"
  shows "fst (in_wait (rpc_inner V) sid s) =
    (case fst (os_wait (sv_os V) (ses_child info) (srv_world s)) of
       Inr (Some code) \<Rightarrow> Inr code
     | Inr None \<Rightarrow> Inl (Rpc (Status_from (sv_show V) NoReturnCode))
     | Inl e \<Rightarrow> Inl (Rpc (Status_from (sv_show V) (CommandError e))))"
proof -
  from assms obtain x where
    x: "u_from_slice (sv_uuids V) (u_bytes (sv_uuids V) sid) = Inr x" "srv_sessions s x = Some info"
    by (auto simp: remote_session_def split: sum.splits)
  then have "service_wait V (u_bytes (sv_uuids V) sid) s = on_server V (wait (sv_os V) x) s"
    by (simp add: service_wait_def with_uuid_eq)
  with x(2) show ?thesis
    by (auto simp: rpc_inner_simps map_err_def on_server_def
        wait_apply split: sum.split prod.split option.split)
qed

text \<open>
  A command run by the client over gRPC: after a successful start the session runs on the
  server; waiting then, when the terminal can be set, ends with the result of the command's
  child, an exit code of 0 being success, and the session is gone on both sides.
\<close>

theorem client_run:
  assumes "client_start (rpc_inner V) replies command c = (Inr u, c1)"
    and "client_wait T (rpc_inner V) c1 = (r, c2)"
    and "cmd_tty command \<longrightarrow> (\<exists>a t t'. tm_getattr T (cl_term c) = (Inr a, t) \<and> tm_setattr T (tm_makeraw T a) t = (Inr (), t'))"
  shows "\<exists>info ses. cl_session c1 = Some info \<and> remote_session V (cl_inner c1) (si_sid info) = Some ses \<and>
    r = (case fst (os_wait (sv_os V) (ses_child ses) (srv_world (cl_inner c1))) of
           Inr (Some code) \<Rightarrow> if code = 0 then Inr () else Inl (NonZeroExitCode code)
         | Inr None \<Rightarrow> Inl (Inner (Rpc (Status_from (sv_show V) NoReturnCode)))
         | Inl e \<Rightarrow> Inl (Inner (Rpc (Status_from (sv_show V) (CommandError e))))) \<and>
    cl_session c2 = None \<and> remote_session V (cl_inner c2) (si_sid info) = None"
proof -
  from client_start_Inr [OF assms(1)] obtain info where
    info: "cl_session c1 = Some info" "si_tty info = cmd_tty command" "cl_term c1 = cl_term c"
    by auto
  from rpc.client_start_running [OF assms(1)] info(1) obtain ses where
    ses: "remote_session V (cl_inner c1) (si_sid info) = Some ses"
    by auto
  note wait = client_wait_apply [OF info(1), of T "rpc_inner V"]
  have "r = exit_result (fst (in_wait (rpc_inner V) (si_sid info) (cl_inner c1)))"
    and log: "WaitCommand (si_sid info) \<in> set (drop (length (cl_log c1)) (cl_log c2))"
    and c2: "cl_session c2 = None"
    using assms(2,3) info(2,3) unfolding wait
    by (auto simp: restore_terminal_def discard_def set_terminal_def waiting_calls_def Let_def
        split: prod.splits if_splits)
  moreover from rpc.client_wait_running [OF info(1) assms(2) log]
  have "remote_session V (cl_inner c2) (si_sid info) = None" by simp
  ultimately show ?thesis
    using info(1) ses c2
    by (auto simp: rpc_wait_running [OF ses] exit_result_def split: sum.split option.split)
qed

text \<open>A service with numbers of 16 bytes for identifiers, and a command run on it.\<close>

definition sample_service :: "(nat, nat) service" where
  "sample_service =
     \<lparr>sv_os = sample_os,
      sv_uuids = \<lparr>u_new = \<lambda>w. (w, w + 1),
        u_from_slice = \<lambda>v. if length v = 16 then Inr (le_nat v) else Inl ''invalid length'',
        u_bytes = \<lambda>sid. le_bytes 16 sid\<rparr>,
      sv_show = \<lambda>e. ''error''\<rparr>"

definition remote_client :: "(nat, (nat, nat) Server, nat, nat) P9cpuClient" where
  "remote_client = P9cpuClient_new (Server_new 10) 8"

definition ls_cmd :: Cmd where "ls_cmd = Command_tty True (Command_new ''ls'')"


lemma sample_uuid: "sid < 2 ^ 128 \<Longrightarrow> u_from_slice (sv_uuids sample_service) (le_bytes 16 sid) = Inr sid"
  by (simp add: sample_service_def le_nat_le_bytes del: le_bytes.simps)

lemma sample_vec_to_uuid:
  "sid < 2 ^ 128 \<Longrightarrow> vec_to_uuid (sv_uuids sample_service) (le_bytes 16 sid) = Inr sid"
  by (simp add: vec_to_uuid_def sample_uuid del: le_bytes.simps)

lemma sample_u_bytes: "u_bytes (sv_uuids sample_service) sid = le_bytes 16 sid"
  by (simp add: sample_service_def)

lemma sample_sv_os: "sv_os sample_service = sample_os"
  by (simp add: sample_service_def)

definition ls_session :: Session where
  "ls_session = \<lparr>ses_stdin = 12, ses_stdout = 16, ses_stderr = None, ses_child = 17, ses_handles = []\<rparr>"

lemma start_ls:
  "start sample_os ls_cmd 10 \<lparr>srv_sessions = Map.empty, srv_pending = [10 \<mapsto> None], srv_task = 0, srv_sent = [], srv_world = 11\<rparr> =
    (Inr (), \<lparr>srv_sessions = [10 \<mapsto> ls_session], srv_pending = Map.empty, srv_task = 0,
      srv_sent = [(18, le_bytes 8 1), (18, [1])], srv_world = 19\<rparr>)"
  by (simp add: start_cases start_locked_def and_then_def on_os_def fd_write_all_def setup_tty_def
      fill_cmd_def ls_cmd_def Command_tty_def Command_new_def Cmd_default_def sample_os_def
      Let_def ls_session_def del: le_bytes.simps)


definition ls_server :: "nat list \<Rightarrow> (nat, nat) Server" where
  "ls_server handles = \<lparr>srv_sessions = [10 \<mapsto> ls_session\<lparr>ses_handles := handles\<rparr>], srv_pending = Map.empty,
     srv_task = length handles, srv_sent = [(18, le_bytes 8 1), (18, [1])], srv_world = 19\<rparr>"

lemma rpc_dial_sample:
  "in_dial (rpc_inner sample_service) (Server_new 10) = (Inr 10,
     \<lparr>srv_sessions = Map.empty, srv_pending = [10 \<mapsto> None], srv_task = 0, srv_sent = [], srv_world = 11\<rparr>)"
proof -
  have "u_new (sv_uuids sample_service) 10 = (10, 11)" by (simp add: sample_service_def)
  then show ?thesis
    by (simp add: rpc_inner_simps service_dial_def map_err_def and_then_def on_server_def dial_def
        Server_new_def sample_u_bytes sample_uuid del: le_bytes.simps)
qed

lemma rpc_start_sample:
  "in_start (rpc_inner sample_service) 10 ls_cmd
     \<lparr>srv_sessions = Map.empty, srv_pending = [10 \<mapsto> None], srv_task = 0, srv_sent = [], srv_world = 11\<rparr> =
   (Inr (), ls_server [])"
  by (simp add: rpc_inner_simps service_start_def with_uuid_eq sample_u_bytes sample_uuid sample_sv_os
      on_server_def start_ls map_err_Inr map_err_def ls_server_def ls_session_def del: le_bytes.simps One_nat_def)

lemma rpc_stdout_sample:
  "in_stdout (rpc_inner sample_service) 10 (ls_server []) = (Inr 0, ls_server [0])"
  by (simp add: rpc_inner_simps service_stdout_def with_uuid_eq sample_u_bytes sample_uuid sample_sv_os
      on_server_def map_err_def and_then_def sample_vec_to_uuid stdout_spawn_def push_handle_def get_session_def
      spawn_task_def ls_server_def ls_session_def del: le_bytes.simps One_nat_def)

definition ls_calls :: "(nat, nat) client_event list" where
  "ls_calls = [Dialed, StartCommand 10 ls_cmd, OpenStdout 10, OpenStdin 10]"

lemma client_start_sample:
  "client_start (rpc_inner sample_service) [] ls_cmd remote_client =
     (Inr (), \<lparr>cl_session = Some \<lparr>si_sid = 10, si_handles = [0, 1], si_tty = True\<rparr>, cl_inner = ls_server [0],
       cl_tasks = 2, cl_log = ls_calls, cl_term = 8\<rparr>)"
proof -
  have "cmd_ninep ls_cmd = False" "cmd_tty ls_cmd = True"
    by (simp_all add: ls_cmd_def Command_tty_def Command_new_def Cmd_default_def)
  then show ?thesis
    by (simp add: client_start_def and_then_def on_inner_def remote_client_def P9cpuClient_new_def
        rpc_dial_sample rpc_start_sample rpc_stdout_sample only_if_def setup_stdio_def
        spawn_client_task_def note_event_def ls_calls_def del: One_nat_def)
qed

theorem client_start_result_witness:
  "\<exists>handles. Some \<lparr>si_sid = (10::nat), si_handles = [0, 1], si_tty = True\<rparr> =
     Some \<lparr>si_sid = 10, si_handles = handles, si_tty = True\<rparr> \<and> distinct handles \<and> length handles = 2"
  using client_start_result [where R = "rpc_inner sample_service" and replies = "[]" and command = ls_cmd
      and c = remote_client]
  by (auto simp: client_start_sample ls_calls_def start_calls_def)

theorem client_run_witness:
  "fst (client_wait sample_terminal (rpc_inner sample_service)
     (snd (client_start (rpc_inner sample_service) [] ls_cmd remote_client))) = Inl (NonZeroExitCode 17)"
proof -
  obtain r c2 where wait: "client_wait sample_terminal (rpc_inner sample_service)
      (snd (client_start (rpc_inner sample_service) [] ls_cmd remote_client)) = (r, c2)"
    by fastforce
  have "remote_session sample_service (ls_server [0]) 10 = Some (ls_session\<lparr>ses_handles := [0]\<rparr>)"
    by (simp add: remote_session_def sample_u_bytes sample_uuid ls_server_def del: le_bytes.simps)
  moreover have "tm_getattr sample_terminal 8 = (Inr 8, 8)" "tm_setattr sample_terminal a t = (Inr (), a)" for a t
    by (simp_all add: sample_terminal_def)
  moreover have "cl_term remote_client = 8" by (simp add: remote_client_def P9cpuClient_new_def)
  moreover have "os_wait sample_os 17 w = (Inr (Some 17), w)" for w by (simp add: sample_os_def)
  moreover note client_run [OF client_start_sample, of sample_terminal r c2] wait
  ultimately have "r = Inl (NonZeroExitCode 17)"
    by (simp add: client_start_sample sample_sv_os ls_session_def del: One_nat_def)
  with wait show ?thesis by simp
qed


end
