(* ===== verification/Async_Fd.thy ===== *)
theory Async_Fd
  imports Streams
begin

text \<open>
  Non-blocking file descriptors, \<^verbatim>\<open>crates/libp9cpu/src/async_fd.rs\<close>: reads and writes that are
  tried when the descriptor is ready and tried again when they would have blocked. The
  descriptor and the readiness \<open>tokio\<close> keeps for it are a record of functions; a pipe is its
  instance for reading.
\<close>

section \<open>Descriptors\<close>

text \<open>
  \<open>fcntl\<close> returns a number, negative on an error, which is then \<open>fd_last_error\<close>.
\<close>

record 's fd_device =
  fd_getfl :: "'s \<Rightarrow> int \<times> 's"
  fd_setfl :: "int \<Rightarrow> 's \<Rightarrow> int \<times> 's"
  fd_last_error :: "'s \<Rightarrow> io_error"
  fd_register :: "'s \<Rightarrow> (io_error + unit) \<times> 's"
  fd_poll_read_ready :: "'s \<Rightarrow> (io_error + unit) poll \<times> 's"
  fd_poll_write_ready :: "'s \<Rightarrow> (io_error + unit) poll \<times> 's"
  fd_clear_ready :: "'s \<Rightarrow> 's"
  fd_read :: "nat \<Rightarrow> 's \<Rightarrow> (io_error + u8 list) \<times> 's"
  fd_write :: "u8 list \<Rightarrow> 's \<Rightarrow> (io_error + nat) \<times> 's"

definition AsyncFd_try_from :: "(int \<Rightarrow> int) \<Rightarrow> 's fd_device \<Rightarrow> 's \<Rightarrow> (io_error + unit) \<times> 's" where
  "AsyncFd_try_from with_nonblock D s =
     (let (flags, s) = fd_getfl D s
      in if flags < 0 then (Inl (fd_last_error D s), s)
         else let (ret, s) = fd_setfl D (with_nonblock flags) s
              in if ret < 0 then (Inl (fd_last_error D s), s) else fd_register D s)"

text \<open>
  The loops of \<open>poll_read\<close> and \<open>poll_write\<close>. They may go on for ever, on a descriptor that is
  always ready and never has anything: the result is then \<open>None\<close>.
\<close>

partial_function (option) AsyncFd_poll_read ::
  "'s fd_device \<Rightarrow> nat \<Rightarrow> 's \<Rightarrow> ((io_error + u8 list) poll \<times> 's) option" where
  "AsyncFd_poll_read D cap s =
     (case fd_poll_read_ready D s of
        (Pending, s') \<Rightarrow> Some (Pending, s')
      | (Ready (Inl e), s') \<Rightarrow> Some (Ready (Inl e), s')
      | (Ready (Inr _), s') \<Rightarrow>
          (case fd_read D cap s' of
             (Inr bs, s'') \<Rightarrow> Some (Ready (Inr bs), s'')
           | (Inl e, s'') \<Rightarrow>
               if io_kind e = WouldBlock then AsyncFd_poll_read D cap (fd_clear_ready D s'')
               else Some (Ready (Inl e), s'')))"

partial_function (option) AsyncFd_poll_write ::
  "'s fd_device \<Rightarrow> u8 list \<Rightarrow> 's \<Rightarrow> ((io_error + nat) poll \<times> 's) option" where
  "AsyncFd_poll_write D buf s =
     (case fd_poll_write_ready D s of
        (Pending, s') \<Rightarrow> Some (Pending, s')
      | (Ready (Inl e), s') \<Rightarrow> Some (Ready (Inl e), s')
      | (Ready (Inr _), s') \<Rightarrow>
          (case fd_write D buf s' of
             (Inr n, s'') \<Rightarrow> Some (Ready (Inr n), s'')
           | (Inl e, s'') \<Rightarrow>
               if io_kind e = WouldBlock then AsyncFd_poll_write D buf (fd_clear_ready D s'')
               else Some (Ready (Inl e), s'')))"

text \<open>Flushing and shutting down do nothing.\<close>

definition AsyncFd_poll_flush :: "(io_error + unit) poll" where
  "AsyncFd_poll_flush = Ready (Inr ())"

definition AsyncFd_poll_shutdown :: "(io_error + unit) poll" where
  "AsyncFd_poll_shutdown = Ready (Inr ())"

section \<open>Pipes\<close>

text \<open>
  The read end of a pipe, as \<open>read\<close> is documented: what will happen to it, in order. It is
  not ready, or said to be ready though a read would block, or bytes are written to it; after
  all of it every writer has closed its end and a read gives no bytes.
\<close>

datatype pipe_event = Quiet | Spurious | Written "u8 list"

type_synonym pipe = "pipe_event list"

fun pipe_ready :: "pipe \<Rightarrow> (io_error + unit) poll \<times> pipe" where
  "pipe_ready (Quiet # es) = (Pending, es)"
| "pipe_ready es = (Ready (Inr ()), es)"

definition would_block :: io_error where
  "would_block = Simple WouldBlock []"

fun pipe_read :: "nat \<Rightarrow> pipe \<Rightarrow> (io_error + u8 list) \<times> pipe" where
  "pipe_read cap [] = (Inr [], [])"
| "pipe_read cap (Written bs # es) =
     (if bs = [] then (Inl would_block, es)
      else (Inr (take cap bs), if length bs \<le> cap then es else Written (drop cap bs) # es))"
| "pipe_read cap (e # es) = (Inl would_block, es)"

definition pipe_device :: "pipe fd_device" where
  "pipe_device =
     \<lparr>fd_getfl = (\<lambda>s. (0, s)), fd_setfl = (\<lambda>flags s. (0, s)), fd_last_error = (\<lambda>s. would_block),
      fd_register = (\<lambda>s. (Inr (), s)), fd_poll_read_ready = pipe_ready,
      fd_poll_write_ready = (\<lambda>s. (Pending, s)), fd_clear_ready = (\<lambda>s. s), fd_read = pipe_read,
      fd_write = (\<lambda>bs s. (Inl would_block, s))\<rparr>"

text \<open>The bytes written to the pipe.\<close>

fun pipe_bytes :: "pipe \<Rightarrow> u8 list" where
  "pipe_bytes [] = []"
| "pipe_bytes (Written bs # es) = bs @ pipe_bytes es"
| "pipe_bytes (_ # es) = pipe_bytes es"

text \<open>Polling a pipe returns: each round of the loop uses up an event.\<close>

definition poll_read_spec :: "nat \<Rightarrow> pipe \<Rightarrow> (io_error + u8 list) poll \<Rightarrow> pipe \<Rightarrow> bool" where
  "poll_read_spec cap s r s' \<longleftrightarrow>
     (case r of
        Pending \<Rightarrow> pipe_bytes s' = pipe_bytes s
      | Ready (Inl e) \<Rightarrow> False
      | Ready (Inr bs) \<Rightarrow> length bs \<le> cap \<and> pipe_bytes s = bs @ pipe_bytes s' \<and> (bs = [] \<longrightarrow> s' = [] \<and> pipe_bytes s = [])) \<and>
     length s' + length (pipe_bytes s') \<le> length s + length (pipe_bytes s) \<and>
     (r \<noteq> Ready (Inr []) \<longrightarrow> length s' + length (pipe_bytes s') < length s + length (pipe_bytes s))"

lemma pipe_poll_read:
  assumes "0 < cap"
  shows "\<exists>r s'. AsyncFd_poll_read pipe_device cap s = Some (r, s') \<and> poll_read_spec cap s r s'"
proof (induction s)
  case Nil
  show ?case
    by (subst AsyncFd_poll_read.simps) (simp add: pipe_device_def poll_read_spec_def)
next
  case (Cons ev s)
  then obtain r s' where IH: "AsyncFd_poll_read pipe_device cap s = Some (r, s')" "poll_read_spec cap s r s'"
    by blast
  have again: "AsyncFd_poll_read pipe_device cap (ev # s) = Some (r, s')"
    if "ev = Spurious \<or> ev = Written []"
    using that IH(1)
    by (subst AsyncFd_poll_read.simps) (auto simp: pipe_device_def would_block_def)
  show ?case
  proof (cases ev)
    case Quiet
    then show ?thesis
      by (subst AsyncFd_poll_read.simps) (simp add: pipe_device_def poll_read_spec_def)
  next
    case Spurious
    with again IH(2) show ?thesis by (auto simp: poll_read_spec_def split: poll.splits sum.splits)
  next
    case (Written bs)
    show ?thesis
    proof (cases "bs = []")
      case True
      with Written again IH(2) show ?thesis
        by (auto simp: poll_read_spec_def split: poll.splits sum.splits)
    next
      case False
      with Written assms show ?thesis
        by (subst AsyncFd_poll_read.simps) (auto simp: pipe_device_def poll_read_spec_def)
    qed
  qed
qed

text \<open>A poll of the pipe, without the results that do not occur.\<close>

definition pipe_poll_read :: "nat \<Rightarrow> pipe \<Rightarrow> u8 list poll \<times> pipe" where
  "pipe_poll_read cap s =
     (case AsyncFd_poll_read pipe_device cap s of
        Some (Ready (Inr bs), s') \<Rightarrow> (Ready bs, s')
      | Some (_, s') \<Rightarrow> (Pending, s')
      | None \<Rightarrow> (Pending, s))"

lemma pipe_poll_read_cases:
  assumes "0 < cap" "pipe_poll_read cap s = (r, s')"
  shows "poll_read_spec cap s (case r of Pending \<Rightarrow> Pending | Ready bs \<Rightarrow> Ready (Inr bs)) s'"
proof -
  from pipe_poll_read [OF assms(1), of s] obtain r1 s1 where
    p: "AsyncFd_poll_read pipe_device cap s = Some (r1, s1)" "poll_read_spec cap s r1 s1"
    by blast
  with assms(2) show ?thesis
    by (auto simp: pipe_poll_read_def poll_read_spec_def split: poll.splits sum.splits)
qed

interpretation pipe: byte_reader pipe_poll_read pipe_bytes "\<lambda>s. True"
proof
  fix s s' :: pipe and cap :: nat and bs :: "u8 list"
  assume cap: "0 < cap"
  show "pipe_poll_read cap s = (Ready bs, s') \<Longrightarrow> bs \<noteq> [] \<Longrightarrow>
      pipe_bytes s = bs @ pipe_bytes s' \<and> length bs \<le> cap"
    using pipe_poll_read_cases [OF cap, of s "Ready bs" s'] by (auto simp: poll_read_spec_def)
  show "pipe_poll_read cap s = (Ready [], s') \<Longrightarrow> pipe_bytes s = []"
    using pipe_poll_read_cases [OF cap, of s "Ready []" s'] by (auto simp: poll_read_spec_def)
  show "pipe_poll_read cap s = (Pending, s') \<Longrightarrow> pipe_bytes s' = pipe_bytes s"
    using pipe_poll_read_cases [OF cap, of s Pending s'] by (auto simp: poll_read_spec_def)
qed simp

section \<open>Reading in blocks\<close>

text \<open>
  Reading on with a buffer of a fixed size, as \<open>copy_to\<close> does: the blocks, and whether the end
  was seen.
\<close>

fun read_blocks :: "(nat \<Rightarrow> 'r \<Rightarrow> u8 list poll \<times> 'r) \<Rightarrow> nat \<Rightarrow> nat \<Rightarrow> 'r \<Rightarrow> u8 list list \<times> bool" where
  "read_blocks poll_read cap 0 r = ([], False)"
| "read_blocks poll_read cap (Suc n) r =
     (case poll_read cap r of
        (Pending, r') \<Rightarrow> read_blocks poll_read cap n r'
      | (Ready bs, r') \<Rightarrow>
          if bs = [] then ([], True)
          else let (blocks, ended) = read_blocks poll_read cap n r' in (bs # blocks, ended))"

lemma read_blocks_concat:
  "(concat (fst (read_blocks poll_read cap n r)), snd (read_blocks poll_read cap n r)) =
     read_to_end poll_read (replicate n cap) r"
proof (induction n arbitrary: r)
  case (Suc n)
  obtain p r' where p: "poll_read cap r = (p, r')" by fastforce
  with Suc.IH [of r'] show ?case
    by (cases p) (auto simp: case_prod_beta Let_def prod_eq_iff split: list.split)
qed simp

lemma read_blocks_nonempty: "[] \<notin> set (fst (read_blocks poll_read cap n r))"
  by (induction n arbitrary: r) (auto simp: case_prod_beta Let_def split: poll.split prod.split)

lemma read_blocks_pipe_ended:
  assumes "0 < cap" "length s + length (pipe_bytes s) < n"
  shows "snd (read_blocks pipe_poll_read cap n s)"
  using assms(2)
proof (induction n arbitrary: s)
  case (Suc n)
  obtain r s' where p: "pipe_poll_read cap s = (r, s')" by fastforce
  note spec = pipe_poll_read_cases [OF assms(1) p]
  show ?case
  proof (cases "r = Ready []")
    case True
    with p show ?thesis by simp
  next
    case False
    with spec have "length s' + length (pipe_bytes s') < length s + length (pipe_bytes s)"
      by (auto simp: poll_read_spec_def split: poll.splits)
    with Suc.prems have "snd (read_blocks pipe_poll_read cap n s')" by (intro Suc.IH) simp
    with p False show ?thesis by (cases r) (auto simp: case_prod_beta Let_def)
  qed
qed simp

lemma read_blocks_pipe:
  assumes "0 < cap" "length s + length (pipe_bytes s) < n" "read_blocks pipe_poll_read cap n s = (blocks, ended)"
  shows "ended \<and> concat blocks = pipe_bytes s \<and> [] \<notin> set blocks"
proof -
  from assms(3) read_blocks_concat [of pipe_poll_read cap n s]
  have "read_to_end pipe_poll_read (replicate n cap) s = (concat blocks, ended)" by simp
  with pipe.read_to_end_unread [of "replicate n cap" s] assms(1)
    read_blocks_pipe_ended [OF assms(1,2)] read_blocks_nonempty [of pipe_poll_read cap n s] assms(3)
  show ?thesis by auto
qed



end
