(* ===== verification/Session_Properties.thy ===== *)
theory Session_Properties
  imports Client_Properties Async_Fd
begin

text \<open>
  The client, the transport, the server and the launcher together: the command that the
  client starts is the one the launcher reads, and the streams of a session carry the bytes
  from one end to the other.
\<close>

section \<open>From the client's command to the launcher\<close>

lemma service_dial_sent: "service_dial V s = (Inr v, s') \<Longrightarrow> srv_sent s' = srv_sent s"
  by (auto simp: service_dial_def dial_def on_server_def map_err_def and_then_def Let_def
      split: prod.splits if_splits)

text \<open>A port that the system gave to a listener made for the 9P of a session.\<close>

definition bound_port :: "'w os \<Rightarrow> nat \<Rightarrow> bool" where
  "bound_port K port \<longleftrightarrow>
     (\<exists>w l w' w''. os_bind K w = (Inr l, w') \<and> os_port K l w' = (Inr port, w''))"

lemma on_os_world: "on_os err call s = (Inr x, s') \<Longrightarrow> call (srv_world s) = (Inr x, srv_world s')"
  by (auto simp: on_os_def split: prod.splits sum.splits)

lemma ninep_forward_sent: "ninep_forward K sid s = (Inr u, s') \<Longrightarrow>
    srv_sent s' = srv_sent s \<and>
    (\<exists>port handle. srv_pending s' sid = Some (Some (port, handle)) \<and> bound_port K port)"
  unfolding bound_port_def
  by (auto simp: ninep_forward_def and_then_eq_Inr spawn_task_def dest: on_os_sent split: if_splits)
    (metis on_os_sent, metis on_os_world)

lemma output_sent:
  "and_then (stdout_spawn x) (\<lambda>handle. and_then (push_handle x handle) (\<lambda>_. succeed handle)) s = (Inr n, s') \<Longrightarrow>
    srv_sent s' = srv_sent s"
  "and_then (stderr_spawn x) (\<lambda>handle. and_then (push_handle x handle) (\<lambda>_. succeed handle)) s = (Inr n, s') \<Longrightarrow>
    srv_sent s' = srv_sent s"
  by (auto simp: stdout_spawn_def stderr_spawn_def push_handle_def and_then_eq_Inr get_session_def
      spawn_task_def split: option.splits)

lemma rpc_dial_sent:
  "in_dial (rpc_inner V) s = (Inr sid, s') \<Longrightarrow> srv_sent s' = srv_sent s"
  by (auto simp: rpc_inner_simps and_then_eq_Inr map_err_eq_Inr service_dial_sent)

lemma service_ninep_forward_eq:
  "service_ninep_forward V (map (map_option Inr) (ninep_requests U sid c)) s =
     (case u_from_slice (sv_uuids V) (u_bytes U sid) of
        Inl e \<Rightarrow> (Inl (Invalid_argument e), s)
      | Inr x \<Rightarrow> on_server V (ninep_forward (sv_os V) x) s)"
  by (simp add: service_ninep_forward_def ninep_requests_def requests_of_def ninep_stream_def
      vec_to_uuid_def and_then_def split: sum.split)

lemma rpc_ninep_sent:
  "in_ninep_forward (rpc_inner V) sid replies s = (Inr u, s') \<Longrightarrow>
    \<exists>x port handle. u_from_slice (sv_uuids V) (u_bytes (sv_uuids V) sid) = Inr x \<and>
      srv_sent s' = srv_sent s \<and> srv_pending s' x = Some (Some (port, handle)) \<and> bound_port (sv_os V) port"
  by (auto simp: rpc_inner_simps map_err_eq_Inr service_ninep_forward_eq on_server_Inr
      dest!: ninep_forward_sent split: sum.splits)

lemma rpc_output_sent:
  "in_stdout (rpc_inner V) sid s = (Inr n, s') \<Longrightarrow> srv_sent s' = srv_sent s"
  "in_stderr (rpc_inner V) sid s = (Inr n, s') \<Longrightarrow> srv_sent s' = srv_sent s"
  by (auto simp: rpc_inner_simps map_err_eq_Inr service_stdout_def service_stderr_def with_uuid_eq
      on_server_Inr dest: output_sent split: sum.splits)

lemma rpc_start_sent:
  assumes "in_start (rpc_inner V) sid cmd s = (Inr u, s')"
  shows "\<exists>x ninep cmd' conn. u_from_slice (sv_uuids V) (u_bytes (sv_uuids V) sid) = Inr x \<and>
    srv_pending s x = Some ninep \<and> fill_cmd cmd ninep = Inr cmd' \<and>
    srv_sent s' = srv_sent s @
      [(conn, le_bytes 8 (length (os_encode (sv_os V) cmd'))), (conn, os_encode (sv_os V) cmd')]"
proof -
  from assms obtain x where x: "u_from_slice (sv_uuids V) (u_bytes (sv_uuids V) sid) = Inr x"
    and start: "start (sv_os V) cmd x s = (Inr u, s')"
    by (auto simp: rpc_inner_simps map_err_eq_Inr service_start_def with_uuid_eq on_server_Inr
        split: sum.splits)
  from x start_Inr [OF start] show ?thesis by blast
qed

lemma setup_stdio_sent:
  "setup_stdio (rpc_inner V) sid tty c = (Inr handles, c') \<Longrightarrow>
    srv_sent (cl_inner c') = srv_sent (cl_inner c)"
  unfolding setup_stdio_def
  by (auto simp: client_Inr rpc_output_sent split: if_splits)

lemma client_start_sent:
  assumes "client_start (rpc_inner V) replies command c = (Inr u, c')"
  shows "\<exists>ninep cmd' conn. fill_cmd command ninep = Inr cmd' \<and>
    (cmd_ninep command \<longrightarrow> (\<exists>port handle. ninep = Some (port, handle) \<and> bound_port (sv_os V) port)) \<and>
    srv_sent (cl_inner c') = srv_sent (cl_inner c) @
      [(conn, le_bytes 8 (length (os_encode (sv_os V) cmd'))), (conn, os_encode (sv_os V) cmd')]"
proof -
  from assms obtain sid s1 s2 s3 where
    dial: "in_dial (rpc_inner V) (cl_inner c) = (Inr sid, s1)"
    and ninep: "if cmd_ninep command then in_ninep_forward (rpc_inner V) sid replies s1 = (Inr (), s2) else s2 = s1"
    and start: "in_start (rpc_inner V) sid command s2 = (Inr (), s3)"
    and sent: "srv_sent (cl_inner c') = srv_sent s3"
    unfolding client_start_def
    by (cases "cl_session c"; cases "cmd_ninep command") (auto simp: client_Inr setup_stdio_sent)
  have s2: "srv_sent s2 = srv_sent (cl_inner c)"
    using ninep rpc_dial_sent [OF dial] by (auto dest: rpc_ninep_sent split: if_splits)
  from rpc_start_sent [OF start] obtain x ninep cmd' conn where
    x: "u_from_slice (sv_uuids V) (u_bytes (sv_uuids V) sid) = Inr x" "srv_pending s2 x = Some ninep"
    and c: "fill_cmd command ninep = Inr cmd'" "srv_sent s3 = srv_sent s2 @
      [(conn, le_bytes 8 (length (os_encode (sv_os V) cmd'))), (conn, os_encode (sv_os V) cmd')]"
    by blast
  have "cmd_ninep command \<longrightarrow> (\<exists>port handle. ninep = Some (port, handle) \<and> bound_port (sv_os V) port)"
    using ninep x by (auto dest!: rpc_ninep_sent)
  with c sent s2 show ?thesis by (auto simp del: le_bytes.simps)
qed

text \<open>The command a launcher reads, after the port was written into its mount table.\<close>

definition filled :: "nat \<Rightarrow> Cmd \<Rightarrow> Cmd" where
  "filled port command = (if cmd_ninep command
     then command\<lparr>cmd_fstab := fill_ninep_tab (cmd_tmp_mnt command) port (cmd_fstab command)\<rparr>
     else command)"

lemma launcher_reads:
  assumes "client_start (rpc_inner V) replies command c = (Inr u, c')"
    and "\<And>port. cmd_ninep command \<longrightarrow> bound_port (sv_os V) port \<Longrightarrow>
      decode (os_encode (sv_os V) (filled port command)) = Inr (filled port command) \<and>
      length (os_encode (sv_os V) (filled port command)) < 2 ^ 64"
    and "p_stream p = concat (map snd (drop (length (srv_sent (cl_inner c))) (srv_sent (cl_inner c'))))"
    and "p_stream_error p = None"
  shows "\<exists>port. (cmd_ninep command \<longrightarrow> bound_port (sv_os V) port) \<and>
    fst (read_cmd decode p) = Inr (filled port command)"
proof -
  from client_start_sent [OF assms(1)] obtain ninep cmd' conn where
    c: "fill_cmd command ninep = Inr cmd'"
    "cmd_ninep command \<longrightarrow> (\<exists>port handle. ninep = Some (port, handle) \<and> bound_port (sv_os V) port)"
    "srv_sent (cl_inner c') = srv_sent (cl_inner c) @
      [(conn, le_bytes 8 (length (os_encode (sv_os V) cmd'))), (conn, os_encode (sv_os V) cmd')]"
    by blast
  from c(1,2) obtain port where port: "cmd_ninep command \<longrightarrow> bound_port (sv_os V) port" "cmd' = filled port command"
    by (auto simp: fill_cmd_def filled_def split: if_splits option.splits)
  from read_cmd_sent [where p = p and decode = decode and buf = "os_encode (sv_os V) cmd'" and conn = conn]
    assms(2) [OF port(1)] assms(3,4) c(3) port(2)
  have "fst (read_cmd decode p) = Inr (filled port command)" by simp
  with port(1) show ?thesis by blast
qed

text \<open>
  C16. When the client has started a command over gRPC, then, for every encoding that decodes
  the command sent, the launcher that connects to the server reads this command from the
  connection: the one given to the client, and with 9P forwarding the same except for the line
  of its mount table that now says where the 9P server of the client is reached, a port that
  the system gave to a listener of the server.
\<close>

theorem client_command_reaches_launcher:
  assumes "client_start (rpc_inner V) replies command c = (Inr u, c')"
    and "\<And>port. cmd_ninep command \<longrightarrow> bound_port (sv_os V) port \<Longrightarrow>
      decode (os_encode (sv_os V) (filled port command)) = Inr (filled port command) \<and>
      length (os_encode (sv_os V) (filled port command)) < 2 ^ 64"
    and "p_stream p = concat (map snd (drop (length (srv_sent (cl_inner c))) (srv_sent (cl_inner c'))))"
    and "p_stream_error p = None"
  shows "if cmd_ninep command
    then \<exists>port. bound_port (sv_os V) port \<and> fst (read_cmd decode p) =
      Inr (command\<lparr>cmd_fstab := fill_ninep_tab (cmd_tmp_mnt command) port (cmd_fstab command)\<rparr>)
    else fst (read_cmd decode p) = Inr command"
  using launcher_reads [OF assms] by (auto simp: filled_def)

theorem client_command_reaches_launcher_witness:
  "fst (read_cmd (\<lambda>_. Inr ls_cmd)
    \<lparr>p_calls = [], p_stream = le_bytes 8 1 @ [1], p_stream_error = None, p_world = ()\<rparr>) = Inr ls_cmd"
proof -
  have ls: "cmd_ninep ls_cmd = False" "cmd_tty ls_cmd = True"
    by (simp_all add: ls_cmd_def Command_tty_def Command_new_def Cmd_default_def)
  have encode: "os_encode (sv_os sample_service) ls_cmd = [1]"
    by (simp add: sample_service_def sample_os_def ls)
  have sent: "srv_sent (cl_inner remote_client) = []"
    by (simp add: remote_client_def P9cpuClient_new_def Server_new_def)
  show ?thesis
    using client_command_reaches_launcher [OF client_start_sample, of "\<lambda>_. Inr ls_cmd"
        "\<lparr>p_calls = [], p_stream = le_bytes 8 1 @ [1], p_stream_error = None, p_world = ()\<rparr>"]
    by (simp add: ls encode sent filled_def ls_server_def del: le_bytes.simps)
qed

section \<open>Standard input\<close>

text \<open>The handler of \<open>stdin\<close> on the requests that arrive, in the order of their arrival.\<close>

lemma service_stdin_apply:
  "service_stdin V c s =
     (case channel_rest c of
        Inr req # more_reqs \<Rightarrow>
          (case sr_id req of
             None \<Rightarrow> (Inl no_session_id, s)
           | Some v \<Rightarrow>
               (case u_from_slice (sv_uuids V) v of
                  Inl e \<Rightarrow> (Inl (Invalid_argument e), s)
                | Inr sid \<Rightarrow> on_server V (stdin (sv_os V) sid
                    (sr_data req # map sr_data (until_error more_reqs))) s))
      | _ \<Rightarrow> (Inl no_session_id, s))"
proof (cases "channel_next c")
  case None
  with channel_next_rest [of c] show ?thesis
    by (simp add: service_stdin_def stdin_stream_def and_then_def)
next
  case (Some next_req)
  obtain r c' where r: "next_req = (r, c')" by fastforce
  with Some channel_next_rest [of c] have "channel_rest c = r # channel_rest c'" by simp
  with Some r show ?thesis
    by (cases r)
      (auto simp: service_stdin_def stdin_stream_def and_then_def vec_to_uuid_def stdin_items_rest
        prepended_rest_def scan_rest_def scan_new_def split: option.split sum.split)
qed

lemma channel_rest_map: "channel_rest (map (map_option f) c) = map f (channel_rest c)"
  by (induction c) (auto simp: channel_rest_def map_filter_simps split: option.split)

lemma until_error_map_Inr:
  "until_error (map (\<lambda>x. Inr (f x)) xs @ rs) = map f xs @ until_error rs"
  "until_error (map (\<lambda>x. Inr (f x)) xs) = map f xs"
  by (induction xs) auto

lemma until_error_Inr:
  "until_error (map Inr ys @ rs) = ys @ until_error rs" "until_error (map Inr ys) = ys"
  by (induction ys) auto

lemma stdin_writes:
  assumes "stdin K sid items s = (Inr u, s')"
  shows "\<exists>info. srv_sessions s sid = Some info \<and> srv_sent s' = srv_sent s @ map (Pair (ses_stdin info)) items"
proof -
  have "for_each (fd_write_all K fd) items t = (Inr u, t') \<Longrightarrow> srv_sent t' = srv_sent t @ map (Pair fd) items" for fd t t'
  proof (induction items arbitrary: t)
    case (Cons x xs)
    then show ?case by (auto simp: and_then_eq_Inr dest!: fd_write_all_sent)
  qed simp
  with assms show ?thesis
    by (auto simp: stdin_def and_then_eq_Inr get_session_def split: option.splits)
qed

text \<open>
  C17. The requests that arrive at the server are the first of those the client makes of its
  standard input, then perhaps an error. When the server has handled them without an error, it has
  written to the standard input of the session's child exactly the data of those that arrived,
  in order: with no error in the transport, every byte the client read, and nothing else.
\<close>

theorem stdin_transport:
  assumes "stdin_requests (sv_uuids V) sid c = Some reqs" "u_from_slice (sv_uuids V) (u_bytes (sv_uuids V) sid) = Inr x"
    and "channel_rest d = map Inr (take k (channel_rest reqs)) @ (if k < length (channel_rest reqs) then [Inl e] else [])"
    and "service_stdin V d s = (Inr u, s')"
  shows "\<exists>info. srv_sessions s x = Some info \<and>
    srv_sent s' = srv_sent s @ map (Pair (ses_stdin info)) (take k (channel_rest c)) \<and>
    (length (channel_rest c) \<le> k \<longrightarrow> srv_sent s' = srv_sent s @ map (Pair (ses_stdin info)) (channel_rest c))"
proof -
  from assms(1) obtain first c' where c: "channel_next c = Some (first, c')"
    "channel_rest reqs = \<lparr>sr_id = Some (u_bytes (sv_uuids V) sid), sr_data = first\<rparr> #
       map (\<lambda>data. \<lparr>sr_id = None, sr_data = data\<rparr>) (channel_rest c')"
    by (auto simp: stdin_requests_def requests_of_rest split: option.splits)
  then have rest: "channel_rest c = first # channel_rest c'"
    using channel_next_rest [of c] by simp
  have "k \<noteq> 0"
  proof
    assume "k = 0"
    with assms(3,4) c(2) show False by (simp add: service_stdin_apply)
  qed
  then obtain n where k: "k = Suc n" by (cases k) auto
  have "stdin (sv_os V) x (take k (channel_rest c)) s = (Inr u, s')"
    using assms(2,3,4) c rest k
    by (auto simp: service_stdin_apply until_error_map_Inr on_server_Inr take_map o_def split: if_splits)
  from stdin_writes [OF this] show ?thesis by auto
qed

theorem stdin_transport_witness:
  "srv_sent (snd (service_stdin sample_service
      [None, Some (Inr \<lparr>sr_id = Some (le_bytes 16 10), sr_data = [1]\<rparr>), Some (Inr \<lparr>sr_id = None, sr_data = [2, 3]\<rparr>)]
      (ls_server []))) = srv_sent (ls_server []) @ map (Pair 12) [[1], [2, 3]]"
proof -
  let ?c = "[Some [1], None, Some [2, 3]] :: u8 list channel"
  let ?d = "[None, Some (Inr \<lparr>sr_id = Some (le_bytes 16 10), sr_data = [1]\<rparr>), Some (Inr \<lparr>sr_id = None, sr_data = [2, 3]\<rparr>)]
    :: (Status + StdinRequest) channel"
  let ?reqs = "[Some \<lparr>sr_id = Some (le_bytes 16 10), sr_data = [1]\<rparr>, None, Some \<lparr>sr_id = None, sr_data = [2, 3]\<rparr>]"
  have reqs: "stdin_requests (sv_uuids sample_service) 10 ?c = Some ?reqs"
    by (simp add: stdin_requests_def requests_of_def sample_u_bytes del: le_bytes.simps)
  have id: "u_from_slice (sv_uuids sample_service) (u_bytes (sv_uuids sample_service) 10) = Inr 10"
    by (simp add: sample_u_bytes sample_uuid del: le_bytes.simps)
  have ok: "fst (service_stdin sample_service ?d (ls_server [])) = Inr ()"
    by (simp add: service_stdin_apply channel_rest_def map_filter_simps sample_uuid on_server_def
        map_err_def stdin_def and_then_def get_session_def ls_server_def fd_write_all_def on_os_def
        sample_sv_os sample_os_def del: le_bytes.simps)
  obtain r s' where run: "service_stdin sample_service ?d (ls_server []) = (r, s')" by fastforce
  with ok have "service_stdin sample_service ?d (ls_server []) = (Inr (), s')" by simp
  from stdin_transport [OF reqs id _ this, of 2] run show ?thesis
    by (auto simp: channel_rest_def map_filter_simps ls_server_def ls_session_def simp del: le_bytes.simps)
qed

section \<open>Output\<close>

lemma copy_to_blocks:
  assumes "[] \<notin> set bs"
  shows "copy_to (map (\<lambda>b. (Inr b, True)) bs @ reads) =
    (bs @ fst (copy_to reads), snd (copy_to reads))"
  using assms by (induction bs) (auto simp: Let_def split: prod.split)

lemma copy_to_end: "copy_to ((Inr [], sends) # reads) = ([], Some (Inr ()))"
  by simp

text \<open>A writer that keeps what it gets.\<close>

definition put_all :: "u8 list \<Rightarrow> (u8 list, io_error, unit) action" where
  "put_all bytes out = (Inr (), out @ bytes)"

lemma copy_stream_put_all:
  "copy_stream put_all (succeed ()) items out = (Inr (), out @ concat items)"
proof -
  have put: "(\<lambda>bytes. and_then (map_err ClientIoErr (put_all bytes)) (\<lambda>_. map_err ClientIoErr (succeed ()))) =
      (\<lambda>bytes out. (Inr (), out @ bytes))"
    by (intro ext) (simp add: and_then_def map_err_def put_all_def)
  show ?thesis
    unfolding copy_stream_def put
    by (induction items arbitrary: out) (simp_all add: and_then_def)
qed

text \<open>
  C31. The output of the command: the server reads the pipe of the child through its \<open>AsyncFd\<close>, 128 bytes
  at most at a time, until the child has closed it, and sends the blocks; the transport
  delivers the first of them, then perhaps an error. The client that polls them to the end
  prints exactly the blocks that arrived, in order: with no error in the transport, all the
  bytes the child wrote, and nothing else.
\<close>

theorem stdout_transport:
  assumes "read_blocks pipe_poll_read 128 (Suc (length s + length (pipe_bytes s))) s = (bs, eof)"
    and "copy_to (map (\<lambda>b. (Inr b, True)) bs @ [(Inr [], sends)]) = (chunks, r)"
    and "channel_rest d = take k (result_stream_items chunks) @ (if k < length chunks then [Inl e] else [])"
    and "length d < n" "poll_times (bytevec_poll channel_poll) n d = (items, ended)"
  shows "eof \<and> r = Some (Inr ()) \<and> ended \<and>
    copy_stream put_all (succeed ()) items out = (Inr (), out @ concat (take k chunks)) \<and>
    (length chunks \<le> k \<longrightarrow> copy_stream put_all (succeed ()) items out = (Inr (), out @ pipe_bytes s))"
proof -
  have bs: "eof" "concat bs = pipe_bytes s" "[] \<notin> set bs"
    using read_blocks_pipe [OF _ _ assms(1)] by simp_all
  from copy_to_blocks [OF bs(3), of "[(Inr [], sends)]"] assms(2)
  have c: "chunks = bs" "r = Some (Inr ())" by simp_all
  from grpc.bytevec.poll_times_all [OF assms(4)] assms(5)
  have "items = until_error (channel_rest d)" "ended" by simp_all
  moreover have "until_error (channel_rest d) = take k bs"
    using assms(3) c by (auto simp: result_stream_items_def take_map until_error_Inr)
  ultimately show ?thesis using c bs by (auto simp: copy_stream_put_all)
qed

theorem stdout_transport_witness:
  "copy_stream put_all (succeed ()) (fst (poll_times (bytevec_poll channel_poll) 4
      [Some (Inr [104, 105]), None, Some (Inl (Other_status 14 ''down''))])) [] = (Inr (), [104, 105])"
proof -
  let ?d = "[Some (Inr [104, 105]), None, Some (Inl (Other_status 14 ''down''))] :: (Status + u8 list) channel"
  let ?s = "[Written [104, 105], Quiet, Written [10]]"
  have "read_blocks pipe_poll_read 128 (Suc (length ?s + length (pipe_bytes ?s))) ?s = ([[104, 105], [10]], True)"
  proof -
    have "pipe_poll_read 128 ?s = (Ready [104, 105], [Quiet, Written [10]])"
      "pipe_poll_read 128 [Quiet, Written [10]] = (Pending, [Written [10]])"
      "pipe_poll_read 128 [Written [10]] = (Ready [10], [])"
      "pipe_poll_read 128 [] = (Ready [], [])"
      by (simp_all add: pipe_poll_read_def AsyncFd_poll_read.simps pipe_device_def)
    then show ?thesis by (simp add: eval_nat_numeral)
  qed
  moreover have "copy_to (map (\<lambda>b. (Inr b, True)) [[104, 105], [10]] @ [(Inr [], True)]) =
      ([[104, 105], [10]], Some (Inr ()))" by simp
  moreover have "poll_times (bytevec_poll channel_poll) 4 ?d = ([[104, 105]], True)"
    by (simp add: bytevec_poll_def eval_nat_numeral)
  ultimately show ?thesis
    using stdout_transport [of ?s "[[104, 105], [10]]" True True "[[104, 105], [10]]" "Some (Inr ())" ?d 1
        "Other_status 14 ''down''" 4 "[[104, 105]]" True "[]"]
    by (simp add: channel_rest_def map_filter_simps result_stream_items_def)
qed

section \<open>9P\<close>

lemma forward_loop_blocks: "[] \<notin> set (fst (forward_loop es))"
  by (induction es rule: forward_loop.induct) (auto simp: Let_def split: prod.split)

text \<open>
  9P requests, from the mount in the kernel to the 9P server of the client: the loop of the session server
  sends what it reads in blocks, gRPC delivers the first of them, then perhaps an error. Then
  whatever the sizes of the buffers the 9P server reads into, it reads the bytes of the blocks
  that arrived, in order, and sees the end only after all of them.
\<close>

theorem ninep_requests_transport:
  assumes "forward_loop es = (blocks, bs, r)" "0 \<notin> set caps"
    and "channel_rest d = take k (result_stream_items blocks) @ (if k < length blocks then [Inl e] else [])"
    and "read_to_end (reader_poll_read (bytevec_poll channel_poll)) caps (StreamReader_new d) = (got, ended)"
  shows "(\<exists>more_bytes. concat (take k blocks) = got @ more_bytes) \<and>
    (ended \<longrightarrow> got = concat (take k blocks)) \<and> (ended \<and> length blocks \<le> k \<longrightarrow> got = concat blocks)"
proof -
  let ?r = "StreamReader_new d"
  have rest: "until_error (channel_rest d) = take k blocks"
    using assms(3) by (auto simp: result_stream_items_def take_map until_error_Inr)
  moreover have "[] \<notin> set blocks" using forward_loop_blocks [of es] assms(1) by simp
  ultimately have inv: "reader_inv (\<lambda>c. until_error (channel_rest c)) ?r"
    by (auto simp: reader_inv_def StreamReader_new_def dest: in_set_takeD)
  have "reader_unread (\<lambda>c. until_error (channel_rest c)) ?r = concat (take k blocks)"
    by (simp add: reader_unread_def StreamReader_new_def rest)
  with grpc_bytes.reader.read_to_end_unread [OF inv assms(2)] assms(4) show ?thesis by auto
qed

theorem ninep_requests_transport_witness:
  "read_to_end (reader_poll_read (bytevec_poll channel_poll)) [2, 9, 9, 9, 9]
     (StreamReader_new [Some (Inr [1, 2, 3]), None, Some (Inr [4])]) = (concat [[1, 2, 3], [4]], True)"
proof -
  let ?d = "[Some (Inr [1, 2, 3]), None, Some (Inr [4])] :: (Status + u8 list) channel"
  have loop: "forward_loop [FromKernel (Inr [1, 2, 3]) True, FromKernel (Inr [4]) True, FromKernel (Inr []) True] =
      ([[1, 2, 3], [4]], [], Some (Inr ()))"
    by simp
  show ?thesis
    using ninep_requests_transport [OF loop, of "[2, 9, 9, 9, 9]" ?d 2 undefined]
    by (simp add: channel_rest_def map_filter_simps result_stream_items_def StreamReader_new_def
        reader_poll_read_def bytevec_poll_def reader_put_def Let_def)
qed

text \<open>
  9P replies, from the 9P server of the client to the session server: what is written into the \<open>SenderWriter\<close> goes
  as requests after one that names the session; the server finds the session and its loop gets
  an item for each write that arrived, in order: the bytes accepted, when the transport has no error.
\<close>

theorem ninep_replies_transport:
  assumes "sender_run writes SenderWriter_new = (bs, w)" "channel_rest c = sw_sent w"
    and "channel_rest d = map Inr (take (Suc k) (channel_rest (ninep_requests (sv_uuids V) sid c))) @
      (if k < length (sw_sent w) then [Inl e] else [])"
    and "u_from_slice (sv_uuids V) (u_bytes (sv_uuids V) sid) = Inr x"
  shows "\<exists>stream. ninep_stream (sv_uuids V) d = Inr (x, stream) \<and>
    (\<forall>n>length (scan_stream stream).
      poll_times (scan_poll nr_data channel_poll) n stream = (take k (sw_sent w), True)) \<and>
    (length (sw_sent w) \<le> k \<longrightarrow> concat (take k (sw_sent w)) = bs)"
proof -
  let ?first = "\<lparr>nr_id = Some (u_bytes (sv_uuids V) sid), nr_data = []\<rparr>"
  from assms(2,3) have rest: "channel_rest d = Inr ?first #
      map (\<lambda>data. Inr \<lparr>nr_id = None, nr_data = data\<rparr>) (take k (sw_sent w)) @
      (if k < length (sw_sent w) then [Inl e] else [])"
    by (simp add: ninep_requests_def requests_of_rest take_map o_def)
  then obtain d' where d': "channel_next d = Some (Inr ?first, d')"
    "channel_rest d' = map (\<lambda>data. Inr \<lparr>nr_id = None, nr_data = data\<rparr>) (take k (sw_sent w)) @
      (if k < length (sw_sent w) then [Inl e] else [])"
    using channel_next_rest [of d] by (auto split: option.splits)
  then have "ninep_stream (sv_uuids V) d = Inr (x, scan_new d')"
    using assms(4) by (simp add: ninep_stream_def vec_to_uuid_def)
  moreover have "scan_rest nr_data channel_rest (scan_new d') = take k (sw_sent w)"
    using d'(2) by (auto simp: scan_rest_def scan_new_def until_error_map_Inr o_def)
  moreover have "concat (sw_sent w) = bs"
    using sender_run_sent [OF assms(1)] by (simp add: SenderWriter_new_def)
  ultimately show ?thesis using grpc.scan.poll_times_all [of "scan_new d'" _ nr_data] by auto
qed

theorem ninep_replies_transport_witness:
  "\<exists>stream. ninep_stream (sv_uuids sample_service)
      [Some (Inr \<lparr>nr_id = Some (le_bytes 16 10), nr_data = []\<rparr>), Some (Inr \<lparr>nr_id = None, nr_data = [7, 8]\<rparr>)] =
      Inr (10, stream) \<and>
    poll_times (scan_poll nr_data channel_poll) (Suc (length (scan_stream stream))) stream = ([[7, 8]], True)"
proof -
  let ?d = "[Some (Inr \<lparr>nr_id = Some (le_bytes 16 10), nr_data = []\<rparr>), Some (Inr \<lparr>nr_id = None, nr_data = [7, 8]\<rparr>)]
    :: (Status + NinepForwardRequest) channel"
  have run: "sender_run [(Ready (Inr ()), True, [7, 8])] SenderWriter_new =
      ([7, 8], \<lparr>sw_open = True, sw_sent = [[7, 8]]\<rparr>)"
    by (simp add: sender_poll_write_def SenderWriter_new_def)
  have id: "u_from_slice (sv_uuids sample_service) (u_bytes (sv_uuids sample_service) 10) = Inr 10"
    by (simp add: sample_u_bytes sample_uuid del: le_bytes.simps)
  show ?thesis
    using ninep_replies_transport [OF run _ _ id, of "[None, Some [7, 8]]" ?d 1]
    by (auto simp: channel_rest_def map_filter_simps ninep_requests_def requests_of_def
        sample_u_bytes simp del: le_bytes.simps)
qed

end
