(* ===== verification/Launch_Plan.thy ===== *)
theory Launch_Plan
  imports Launch_Properties "HOL-Library.Sublist"
begin

text \<open>
  The specification of a launch, \<^verbatim>\<open>crates/libp9cpu/src/launcher.rs\<close>: the list of the calls that turn the
  launcher into a command. The code makes the calls of this list in its order, and stops early
  only with an error.
\<close>

section \<open>The plan\<close>

definition base_plan :: "Cmd \<Rightarrow> call list" where
  "base_plan cmd =
     (let dir = cmd_tmp_mnt cmd; local_root = path_push dir LOCAL_ROOT_MOUNT
      in [Mount None ''/'' None {MS_REC, MS_PRIVATE} None,
          CreateDirAll dir, Mount (Some ''p9cpu'') dir (Some ''tmpfs'') {} None,
          CreateDirAll local_root, Mount (Some ''/'') local_root None {MS_BIND} None])"

definition tab_plan :: "FsTab \<Rightarrow> call list" where
  "tab_plan tab = [CreateDirAll (tab_file tab), tab_mount tab]"

definition exec_plan :: "Cmd \<Rightarrow> call list" where
  "exec_plan cmd =
     (if cmd_tty cmd then [Setsid, Tiocsctty] else []) @
     [Setgid (cmd_gid cmd), Setuid (cmd_uid cmd), Execvp (cmd_program cmd) (cmd_program cmd # cmd_args cmd)]"

definition command_plan :: "Cmd \<Rightarrow> call list" where
  "command_plan cmd =
     Shutdown # base_plan cmd @ concat (map tab_plan (cmd_fstab cmd)) @
     map (\<lambda>env. SetVar (env_key env) (env_val env)) (cmd_envs cmd) @ exec_plan cmd"

definition launch_plan :: "nat \<Rightarrow> Cmd \<Rightarrow> call list" where
  "launch_plan port cmd = Unshare # Connect port # command_plan cmd"

section \<open>Following a plan\<close>

text \<open>The calls made are the first of the plan, and all of them unless there is an error.\<close>

definition follows :: "call list \<Rightarrow> ('w, 'e, 'x) run \<Rightarrow> bool" where
  "follows plan m \<longleftrightarrow>
     (\<forall>s. \<exists>done. prefix done plan \<and> p_calls (snd (m s)) = p_calls s @ done \<and>
        (done = plan \<or> isl (fst (m s))))"

named_theorems plan_intro \<open>which plan an action follows\<close>

lemma follows_call [plan_intro]: "follows [c] (by_nix K c)" "follows [c] (by_io K c)"
  by (auto simp: follows_def by_nix_def by_io_def case_prod_beta)

lemma follows_none [plan_intro]: "follows [] (lift_result r)" "follows [] (succeed x)"
  by (auto simp: follows_def)

lemma isl_map_err [simp]: "isl (fst (map_err f m s)) = isl (fst (m s))"
  by (simp add: map_err_def split: prod.split sum.split)

lemma follows_map_err [plan_intro]: "follows p m \<Longrightarrow> follows p (map_err f m)"
  by (simp add: follows_def)

lemma follows_discard [plan_intro]: "follows [c] (discard (by_nix K c))"
  by (auto simp: follows_def discard_def by_nix_def case_prod_beta)

lemma follows_and_then:
  assumes "follows p m" "\<And>x. follows q (k x)"
  shows "follows (p @ q) (and_then m k)"
  unfolding follows_def
proof
  fix s
  obtain r s' where m: "m s = (r, s')" by fastforce
  with assms(1) obtain d where d: "prefix d p" "p_calls s' = p_calls s @ d" "d = p \<or> isl r"
    unfolding follows_def by (metis fst_conv snd_conv)
  show "\<exists>d. prefix d (p @ q) \<and> p_calls (snd (and_then m k s)) = p_calls s @ d \<and>
      (d = p @ q \<or> isl (fst (and_then m k s)))"
  proof (cases r)
    case (Inl e)
    with m d show ?thesis by (intro exI [of _ d]) (simp add: and_then_def prefix_append)
  next
    case (Inr x)
    from assms(2) [of x] obtain d' where
      "prefix d' q" "p_calls (snd (k x s')) = p_calls s' @ d'" "d' = q \<or> isl (fst (k x s'))"
      unfolding follows_def by blast
    with m d Inr show ?thesis by (intro exI [of _ "p @ d'"]) (auto simp: and_then_def)
  qed
qed

lemma follows_only_if: "follows p m \<Longrightarrow> follows (if b then p else []) (only_if b m)"
  by (simp add: only_if_def follows_none)

lemma follows_for_each:
  "(\<And>x. follows (p x) (f x)) \<Longrightarrow> follows (concat (map p xs)) (for_each f xs)"
  by (induction xs) (auto intro: follows_none follows_and_then)

lemma follows_mount_base: "follows (base_plan cmd) (mount_base K cmd)"
  unfolding mount_base_def base_plan_def Let_def
  by (intro follows_and_then [where p = "[c]" for c, simplified] plan_intro)

lemma follows_mount_tab: "follows (tab_plan tab) (mount_tab K tab)"
  unfolding mount_tab_def tab_plan_def
  by (intro follows_and_then [where p = "[c]" for c, simplified] plan_intro)

lemma follows_set_env: "follows [SetVar (env_key env) (env_val env)] (set_env env)"
  by (auto simp: follows_def set_env_def)

lemma follows_lift: "(\<And>x. r = Inr x \<Longrightarrow> follows q (k x)) \<Longrightarrow> follows q (and_then (lift_result r) k)"
  by (cases r) (auto simp: follows_def and_then_def)

lemma follows_exec_cmd: "follows (exec_plan cmd) (exec_cmd K cmd)"
proof -
  have tty: "follows [Setsid, Tiocsctty] (and_then (map_err SetSid (by_nix K Setsid))
      (\<lambda>_. map_err SetControllingTerminal (by_nix K Tiocsctty)))"
    by (intro follows_and_then [where p = "[c]" for c, simplified] plan_intro)
  have calls: "follows [Setgid (cmd_gid cmd), Setuid (cmd_uid cmd), Execvp a (a # as)]
      (and_then (map_err SetGid (by_nix K (Setgid (cmd_gid cmd)))) (\<lambda>_.
       and_then (map_err SetUid (by_nix K (Setuid (cmd_uid cmd)))) (\<lambda>_.
       map_err Exec (by_nix K (Execvp a (a # as))))))" for a as
    by (intro follows_and_then [where p = "[c]" for c, simplified] plan_intro)
  show ?thesis
    unfolding exec_cmd_def exec_plan_def
  proof (intro follows_lift)
    fix a as
    assume "CString_new (cmd_program cmd) = Inr a" "CString_all (cmd_args cmd) = Inr as"
    then have "a = cmd_program cmd" "as = cmd_args cmd" by (simp_all add: CString_new_Inr CString_all_Inr)
    then show "follows ((if cmd_tty cmd then [Setsid, Tiocsctty] else []) @
        [Setgid (cmd_gid cmd), Setuid (cmd_uid cmd), Execvp (cmd_program cmd) (cmd_program cmd # cmd_args cmd)])
      (and_then (only_if (cmd_tty cmd) (and_then (map_err SetSid (by_nix K Setsid))
          (\<lambda>_. map_err SetControllingTerminal (by_nix K Tiocsctty)))) (\<lambda>_.
       and_then (map_err SetGid (by_nix K (Setgid (cmd_gid cmd)))) (\<lambda>_.
       and_then (map_err SetUid (by_nix K (Setuid (cmd_uid cmd)))) (\<lambda>_.
       map_err Exec (by_nix K (Execvp a (a # as)))))))"
      using follows_and_then [OF follows_only_if [OF tty] calls] by simp
  qed
qed

text \<open>What follows the reading of the command.\<close>

definition launch :: "'w kernel \<Rightarrow> Cmd \<Rightarrow> ('w, LaunchError, unit) run" where
  "launch K cmd =
     and_then (map_err ShutdownSocket (by_io K Shutdown)) (\<lambda>_.
     and_then (mount_base K cmd) (\<lambda>_.
     and_then (for_each (mount_tab K) (cmd_fstab cmd)) (\<lambda>_.
     and_then (for_each set_env (cmd_envs cmd)) (\<lambda>_.
     exec_cmd K cmd))))"

lemma follows_launch: "follows (command_plan cmd) (launch K cmd)"
proof -
  have "follows (concat (map (\<lambda>env. [SetVar (env_key env) (env_val env)]) (cmd_envs cmd)))
      (for_each set_env (cmd_envs cmd) :: ('w, LaunchError, unit) run)"
    by (intro follows_for_each follows_set_env)
  then have envs: "follows (map (\<lambda>env. SetVar (env_key env) (env_val env)) (cmd_envs cmd))
      (for_each set_env (cmd_envs cmd) :: ('w, LaunchError, unit) run)" by simp
  show ?thesis
    unfolding launch_def command_plan_def
    by (intro follows_and_then [where p = "[c]" for c, simplified] follows_and_then [OF follows_mount_base]
        follows_and_then [OF follows_for_each] follows_and_then [OF envs] follows_mount_tab
        follows_exec_cmd plan_intro)
qed

lemma connect_launch:
  "connect K decode port =
     and_then (map_err (UnshareFails ''CLONE_NEWNS'') (by_nix K Unshare)) (\<lambda>_.
     and_then (map_err ConnectToPort (by_io K (Connect port))) (\<lambda>_.
     and_then (read_cmd decode) (launch K)))"
  by (simp add: connect_def launch_def [abs_def])

lemma by_io_calls: "by_io K c s = (r, s') \<Longrightarrow> p_calls s' = p_calls s @ [c]"
  by (auto simp: by_io_def split: prod.splits)

lemma read_cmd_stream:
  assumes "p_stream s' = p_stream s" "p_stream_error s' = p_stream_error s"
  shows "fst (read_cmd decode s') = fst (read_cmd decode s)"
  using assms
  by (simp add: read_cmd_def and_then_def map_err_def stream_read_exact_def expect_end_def
      stream_read1_def split: list.split option.split sum.split prod.split)

lemma read_cmd_calls: "p_calls (snd (read_cmd decode s)) = p_calls s"
proof -
  have "only_calls (\<lambda>_. False) (read_cmd decode)"
    unfolding read_cmd_def by (intro calls_intro)
  then obtain cs where "p_calls (snd (read_cmd decode s)) = p_calls s @ cs" "list_all (\<lambda>_. False) cs"
    unfolding only_calls_def by blast
  then show ?thesis by (cases cs) simp_all
qed

text \<open>The plan, for what the launcher will find on its connection.\<close>

definition connect_plan :: "nat \<Rightarrow> LaunchError + Cmd \<Rightarrow> call list" where
  "connect_plan port found =
     Unshare # Connect port # (case found of Inl e \<Rightarrow> [] | Inr cmd \<Rightarrow> command_plan cmd)"

lemma not_isl_unit: "\<not> isl (r :: 'e + unit) \<longleftrightarrow> r = Inr ()"
  by (cases r) simp_all

lemma connect_calls:
  obtains made where "prefix made (connect_plan port (fst (read_cmd decode s)))"
    "p_calls (snd (connect K decode port s)) = p_calls s @ made"
    "made = connect_plan port (fst (read_cmd decode s)) \<and> \<not> isl (fst (read_cmd decode s)) \<or>
     isl (fst (connect K decode port s))"
proof -
  obtain r1 s1 where 1: "by_nix K Unshare s = (r1, s1)" by fastforce
  obtain r2 s2 where 2: "by_io K (Connect port) s1 = (r2, s2)" by fastforce
  obtain r3 s3 where 3: "read_cmd decode s2 = (r3, s3)" by fastforce
  note calls = by_nix_calls [OF 1] by_io_calls [OF 2]
  have found: "r3 = fst (read_cmd decode s)"
    using read_cmd_stream [of s2 s decode] 1 2 3 by (auto simp: by_nix_def by_io_def split: prod.splits)
  have quiet: "p_calls s3 = p_calls s2"
    using read_cmd_calls [of decode s2] 3 by simp
  consider (unshare) e where "r1 = Inl e" | (conn) e where "r1 = Inr ()" "r2 = Inl e"
    | (read) e where "r1 = Inr ()" "r2 = Inr ()" "r3 = Inl e"
    | (cmd) cmd where "r1 = Inr ()" "r2 = Inr ()" "r3 = Inr cmd"
    by (cases r1; cases r2; cases r3) auto
  then show ?thesis
  proof cases
    case unshare
    with 1 calls show ?thesis
      by (intro that [of "[Unshare]"])
        (simp_all add: connect_launch connect_plan_def and_then_def map_err_def)
  next
    case conn
    with 1 2 calls show ?thesis
      by (intro that [of "[Unshare, Connect port]"])
        (simp_all add: connect_launch connect_plan_def and_then_def map_err_def)
  next
    case read
    with found have "fst (read_cmd decode s) = Inl e" by simp
    with read 1 2 3 calls quiet show ?thesis
      by (intro that [of "[Unshare, Connect port]"])
        (simp_all add: connect_launch connect_plan_def and_then_def map_err_def)
  next
    case (cmd cmd)
    then have whole: "connect K decode port s = launch K cmd s3"
      using 1 2 3 by (simp add: connect_launch and_then_def map_err_def)
    from follows_launch [of cmd K] obtain made where "prefix made (command_plan cmd)"
      "p_calls (snd (launch K cmd s3)) = p_calls s3 @ made"
      "made = command_plan cmd \<or> isl (fst (launch K cmd s3))"
      unfolding follows_def by blast
    moreover from cmd(3) found have "fst (read_cmd decode s) = Inr cmd" by simp
    ultimately show ?thesis
      using whole calls quiet
      by (intro that [of "Unshare # Connect port # made"]) (auto simp: connect_plan_def)
  qed
qed

text \<open>
  With a kernel that grants every call, the launch can only fail on what the command contains.
\<close>

definition grants :: "'w kernel \<Rightarrow> bool" where
  "grants K \<longleftrightarrow> (\<forall>c w. fst (k_nix K c w) = Inr () \<and> fst (k_io K c w) = Inr ())"

definition cmd_ok :: "Cmd \<Rightarrow> bool" where
  "cmd_ok cmd \<longleftrightarrow> (\<forall>a\<in>set (cmd_program cmd # cmd_args cmd). CHR 0x00 \<notin> set a) \<and>
     (\<forall>env\<in>set (cmd_envs cmd). env_key env \<noteq> [] \<and> 61 \<notin> set (env_key env) \<and>
        0 \<notin> set (env_key env @ env_val env))"

definition never_fails :: "('w, 'e, 'x) run \<Rightarrow> bool" where
  "never_fails m \<longleftrightarrow> (\<forall>s. \<not> isl (fst (m s)))"

lemma never_fails_call: "grants K \<Longrightarrow> never_fails (by_nix K c)" "grants K \<Longrightarrow> never_fails (by_io K c)"
  by (simp_all add: grants_def never_fails_def by_nix_def by_io_def case_prod_beta)

lemma never_fails_basic: "never_fails (succeed x)" "never_fails (discard m)" "never_fails (lift_result (Inr x))"
  by (simp_all add: never_fails_def discard_def)

lemma never_fails_map_err: "never_fails m \<Longrightarrow> never_fails (map_err f m)"
  by (simp add: never_fails_def)

lemma never_fails_and_then:
  "never_fails m \<Longrightarrow> (\<And>x. never_fails (k x)) \<Longrightarrow> never_fails (and_then m k)"
  by (auto simp: never_fails_def and_then_def split: prod.split sum.split dest: spec) (metis fst_conv sum.disc(1))

lemma never_fails_only_if: "never_fails m \<Longrightarrow> never_fails (only_if b m)"
  by (simp add: only_if_def never_fails_basic)

lemma never_fails_for_each: "(\<And>x. x \<in> set xs \<Longrightarrow> never_fails (f x)) \<Longrightarrow> never_fails (for_each f xs)"
  by (induction xs) (auto intro: never_fails_basic never_fails_and_then)

lemmas never_fails_intro = never_fails_call never_fails_basic never_fails_map_err never_fails_and_then
  never_fails_only_if never_fails_for_each

lemma CString_all_ok: "\<forall>a\<in>set as. CHR 0x00 \<notin> set a \<Longrightarrow> CString_all as = Inr as"
  by (induction as) (simp_all add: CString_new_def)

lemma never_fails_launch:
  assumes "grants K" "cmd_ok cmd"
  shows "never_fails (launch K cmd)"
proof -
  have "never_fails (set_env env :: ('w, LaunchError, unit) run)" if "env \<in> set (cmd_envs cmd)" for env
    using assms(2) that by (auto simp: cmd_ok_def never_fails_def set_env_def)
  moreover have "never_fails (exec_cmd K cmd)"
    using assms by (auto simp: exec_cmd_def cmd_ok_def CString_new_def CString_all_ok intro!: never_fails_intro)
  moreover have "never_fails (mount_base K cmd)" "never_fails (mount_tab K tab)" for tab
    using assms(1) by (auto simp: mount_base_def mount_tab_def Let_def intro!: never_fails_intro)
  ultimately show ?thesis
    using assms(1) unfolding launch_def by (intro never_fails_intro) auto
qed

lemma connect_granted:
  assumes "grants K" "fst (read_cmd decode s) = Inr cmd" "cmd_ok cmd"
  shows "\<not> isl (fst (connect K decode port s))"
proof -
  obtain s1 where 1: "by_nix K Unshare s = (Inr (), s1)"
    using assms(1) by (simp add: grants_def by_nix_def case_prod_beta)
  obtain s2 where 2: "by_io K (Connect port) s1 = (Inr (), s2)"
    using assms(1) by (simp add: grants_def by_io_def case_prod_beta)
  obtain s3 where 3: "read_cmd decode s2 = (Inr cmd, s3)"
    using read_cmd_stream [of s2 s decode] 1 2 assms(2)
    by (cases "read_cmd decode s2") (auto simp: by_nix_def by_io_def split: prod.splits)
  have "connect K decode port s = launch K cmd s3"
    using 1 2 3 by (simp add: connect_launch and_then_def map_err_def)
  with never_fails_launch [OF assms(1,3)] show ?thesis by (simp add: never_fails_def)
qed

section \<open>From the command line\<close>

text \<open>
  The plan for the arguments of \<open>p9cpu\<close>, the lines of its \<open>--fs-tab\<close> file and its environment;
  \<open>port\<close> is where the files of the client are reached.
\<close>

definition cli_bindings :: "Args \<Rightarrow> (string \<times> string) list" where
  "cli_bindings args = (if args_namespace args = [] then [] else bindings (args_namespace args))"

definition cli_mounts :: "nat \<Rightarrow> Args \<Rightarrow> call list" where
  "cli_mounts port args =
     (let remote = args_tmp_mnt args @ ''/mnt9p''
      in (if cli_bindings args = [] then []
          else [CreateDirAll remote, Mount (Some ''127.0.0.1'') remote (Some ''9p'') {}
            (Some (''version=9p2000.L,trans=tcp,port='' @ show_nat port))]) @
         concat (map (\<lambda>(target, source). [CreateDirAll target,
           Mount (Some (remote @ source)) target (Some ''none'') {MS_BIND} None]) (cli_bindings args)))"

definition cli_plan :: "nat \<Rightarrow> nat \<Rightarrow> Args \<Rightarrow> FsTab list \<Rightarrow> (u8 list \<times> u8 list) list \<Rightarrow> call list" where
  "cli_plan launch_port port args user_tabs vars =
     (let tmp = args_tmp_mnt args; local_root = path_push tmp ''local''
      in [Unshare, Connect launch_port, Shutdown, Mount None ''/'' None {MS_REC, MS_PRIVATE} None,
          CreateDirAll tmp, Mount (Some ''p9cpu'') tmp (Some ''tmpfs'') {} None,
          CreateDirAll local_root, Mount (Some ''/'') local_root None {MS_BIND} None] @
         cli_mounts port args @ concat (map tab_plan user_tabs) @ map (\<lambda>(k, v). SetVar k v) vars @
         (if args_tty args then [Setsid, Tiocsctty] else []) @
         [Setgid (args_gid args), Setuid (args_uid args), Execvp (hd (args_args args)) (args_args args)])"

lemma tab_plan_bind:
  "tab_plan (bind_tab tmp target source) = [CreateDirAll target,
     Mount (Some (tmp @ ''/mnt9p'' @ source)) target (Some ''none'') {MS_BIND} None]"
  by (simp add: tab_plan_def tab_mount_bind) (simp add: bind_tab_def)

lemma tab_plan_ninep:
  "tab_plan ((ninep_tab tmp)\<lparr>tab_spec := ''127.0.0.1'', tab_mntops := ninep_opts port\<rparr>) =
     [CreateDirAll (tmp @ ''/mnt9p''), Mount (Some ''127.0.0.1'') (tmp @ ''/mnt9p'') (Some ''9p'') {}
       (Some (''version=9p2000.L,trans=tcp,port='' @ show_nat port))]"
  unfolding tab_plan_def tab_mount_ninep by (simp add: ninep_tab_def NINEP_MOUNT_def ninep_opts_def)

lemma cli_mounts_filled:
  "concat (map tab_plan (if parse_namespace (args_namespace args) (args_tmp_mnt args) \<noteq> []
     then fill_ninep_tab (args_tmp_mnt args) port
       (parse_namespace (args_namespace args) (args_tmp_mnt args) @ user_tabs)
     else user_tabs)) = cli_mounts port args @ concat (map tab_plan user_tabs)"
  by (simp add: parse_namespace_bindings cli_mounts_def cli_bindings_def Let_def fill_ninep_first
      tab_plan_ninep tab_plan_bind comp_def case_prod_unfold del: fill_ninep_tab.simps)

lemma cli_plan_filled:
  assumes "app_command args fs_tab vars = AppRuns cmd"
  shows "\<exists>user_tabs. read_fs_tab (case fs_tab of None \<Rightarrow> [] | Some lines \<Rightarrow> lines) = Inr user_tabs \<and>
    launch_plan launch_port (if cmd_ninep cmd
      then cmd\<lparr>cmd_fstab := fill_ninep_tab (cmd_tmp_mnt cmd) port (cmd_fstab cmd)\<rparr> else cmd) =
      cli_plan launch_port port args user_tabs vars"
proof -
  from assms obtain program rest user_tabs where
    args: "args_args args = program # rest"
    and tabs: "read_fs_tab (case fs_tab of None \<Rightarrow> [] | Some lines \<Rightarrow> lines) = Inr user_tabs"
    and cmd: "cmd = \<lparr>cmd_program = program, cmd_args = rest,
         cmd_envs = map (\<lambda>(k, v). \<lparr>env_key = k, env_val = v\<rparr>) vars,
         cmd_fstab = parse_namespace (args_namespace args) (args_tmp_mnt args) @ user_tabs,
         cmd_ninep = (parse_namespace (args_namespace args) (args_tmp_mnt args) \<noteq> []),
         cmd_tty = args_tty args, cmd_tmp_mnt = args_tmp_mnt args, cmd_uid = args_uid args,
         cmd_gid = args_gid args\<rparr>"
    by (auto simp: app_command_runs)
  have "map (\<lambda>env. SetVar (env_key env) (env_val env)) (cmd_envs cmd) = map (\<lambda>(k, v). SetVar k v) vars"
    by (simp add: cmd case_prod_unfold)
  with cli_mounts_filled [of args port user_tabs] show ?thesis
    by (intro exI [of _ user_tabs])
      (auto simp: tabs args launch_plan_def command_plan_def base_plan_def exec_plan_def cli_plan_def
        cmd LOCAL_ROOT_MOUNT_def Let_def)
qed

text \<open>A launch with a terminal, one bind mount and one line of the user.\<close>

definition cli_args :: Args where
  "cli_args =
     \<lparr>args_namespace = ''/home'', args_tty = True, args_tmp_mnt = ''/tmp'', args_uid = 1000,
      args_gid = 100, args_args = [''ls'', ''-l'']\<rparr>"

section \<open>Properties\<close>

text \<open>
  C5. The launcher does what the plan says and nothing else. Whatever the kernel answers, its
  calls are the first ones of the plan for what it read from its connection, all of them unless
  it ends with an error; and with a kernel that grants every call and a command without NUL
  bytes and illegal variables it reaches the end.
\<close>

theorem connect_follows_plan:
  "(\<exists>made. prefix made (connect_plan port (fst (read_cmd decode s))) \<and>
      p_calls (snd (connect K decode port s)) = p_calls s @ made \<and>
      (isl (fst (connect K decode port s)) \<or>
       (\<exists>cmd. fst (read_cmd decode s) = Inr cmd \<and> made = launch_plan port cmd))) \<and>
   (\<forall>cmd. grants K \<and> fst (read_cmd decode s) = Inr cmd \<and> cmd_ok cmd \<longrightarrow>
      p_calls (snd (connect K decode port s)) = p_calls s @ launch_plan port cmd \<and>
      fst (connect K decode port s) = Inr ())"
proof -
  obtain made where made: "prefix made (connect_plan port (fst (read_cmd decode s)))"
    "p_calls (snd (connect K decode port s)) = p_calls s @ made"
    "made = connect_plan port (fst (read_cmd decode s)) \<and> \<not> isl (fst (read_cmd decode s)) \<or>
     isl (fst (connect K decode port s))"
    by (rule connect_calls)
  have found: "connect_plan port (fst (read_cmd decode s)) = launch_plan port cmd"
    if "fst (read_cmd decode s) = Inr cmd" for cmd
    by (simp add: that connect_plan_def launch_plan_def)
  show ?thesis
  proof (intro conjI allI impI)
    show "\<exists>made. prefix made (connect_plan port (fst (read_cmd decode s))) \<and>
      p_calls (snd (connect K decode port s)) = p_calls s @ made \<and>
      (isl (fst (connect K decode port s)) \<or>
       (\<exists>cmd. fst (read_cmd decode s) = Inr cmd \<and> made = launch_plan port cmd))"
      using made found by (cases "fst (read_cmd decode s)") auto
  next
    fix cmd
    assume cmd: "grants K \<and> fst (read_cmd decode s) = Inr cmd \<and> cmd_ok cmd"
    then have "\<not> isl (fst (connect K decode port s))" by (intro connect_granted) auto
    with made found cmd show "p_calls (snd (connect K decode port s)) = p_calls s @ launch_plan port cmd"
      "fst (connect K decode port s) = Inr ()"
      by (auto simp: not_isl_unit)
  qed
qed

theorem connect_follows_plan_witness:
  "p_calls (snd (connect sample_kernel (\<lambda>_. Inr sample_cmd) 5 sample_process)) = launch_plan 5 sample_cmd"
proof -
  have "fst (read_cmd (\<lambda>_. Inr sample_cmd) (sample_process :: unit process)) = Inr sample_cmd"
    by (simp add: read_cmd_def and_then_def map_err_def stream_read_exact_def expect_end_def
        stream_read1_def sample_process_def cmd_frame_def le_nat_le_bytes del: le_bytes.simps)
  moreover have "grants sample_kernel" "cmd_ok sample_cmd"
    by (simp_all add: grants_def sample_kernel_def cmd_ok_def sample_cmd_def Cmd_default_def)
  ultimately show ?thesis
    using connect_follows_plan [of 5 "\<lambda>_. Inr sample_cmd" sample_process sample_kernel]
    by (simp add: sample_process_def)
qed

end
