(* ===== verification/Command_Properties.thy ===== *)
theory Command_Properties
  imports Session_Properties Launch_Plan
begin

text \<open>
  The run of a command from the command line of \<^verbatim>\<open>p9cpu.rs\<close> to the calls of the launcher: what the
  arguments ask for is what happens on the other machine.
\<close>

section \<open>A command with mounts\<close>

text \<open>What the service of the examples does for a command that uses the files of the client.\<close>

definition cli_cmd :: Cmd where
  "cli_cmd =
     \<lparr>cmd_program = ''ls'', cmd_args = [''-l''], cmd_envs = [\<lparr>env_key = [65], env_val = [66]\<rparr>],
      cmd_fstab = [ninep_tab ''/tmp'', bind_tab ''/tmp'' ''/home'' ''/home'',
        \<lparr>tab_spec = ''proc'', tab_file = ''/proc'', tab_vfstype = ''proc'', tab_mntops = ''defaults'',
         tab_freq = 0, tab_passno = 0\<rparr>],
      cmd_ninep = True, cmd_tty = True, cmd_tmp_mnt = ''/tmp'', cmd_uid = 1000, cmd_gid = 100\<rparr>"

lemma cli_command:
  "app_command cli_args (Some [''# mounts'', ''proc /proc proc defaults 0 0'']) [([65], [66])] = AppRuns cli_cmd"
  by code_simp

definition cli_os :: "nat os" where
  "cli_os = sample_os\<lparr>os_port := \<lambda>l w. (Inr 564, w)\<rparr>"

definition cli_service :: "(nat, nat) service" where
  "cli_service = sample_service\<lparr>sv_os := cli_os\<rparr>"

definition cli_pending :: "(nat \<rightharpoonup> ninep) \<Rightarrow> nat \<Rightarrow> nat \<Rightarrow> (nat, nat) Server" where
  "cli_pending pending task w =
     \<lparr>srv_sessions = Map.empty, srv_pending = pending, srv_task = task, srv_sent = [], srv_world = w\<rparr>"

lemma cli_uuids: "sv_uuids cli_service = sv_uuids sample_service" "sv_os cli_service = cli_os"
  by (simp_all add: cli_service_def)

lemma cli_dial: "in_dial (rpc_inner cli_service) (Server_new 10) = (Inr 10, cli_pending [10 \<mapsto> None] 0 11)"
proof -
  have "u_new (sv_uuids sample_service) 10 = (10, 11)" by (simp add: sample_service_def)
  then show ?thesis
    by (simp add: rpc_inner_simps service_dial_def map_err_def and_then_def on_server_def dial_def
        cli_pending_def Server_new_def cli_uuids sample_u_bytes sample_uuid del: le_bytes.simps)
qed

lemma cli_forward:
  "in_ninep_forward (rpc_inner cli_service) 10 replies (cli_pending [10 \<mapsto> None] 0 11) =
     (Inr (), cli_pending [10 \<mapsto> Some (564, 0)] 1 12)"
  by (simp add: rpc_inner_simps map_err_def service_ninep_forward_eq cli_uuids sample_u_bytes sample_uuid
      on_server_def ninep_forward_def and_then_def on_os_def spawn_task_def cli_os_def sample_os_def
      cli_pending_def del: le_bytes.simps)

definition cli_session :: Session where
  "cli_session = \<lparr>ses_stdin = 13, ses_stdout = 17, ses_stderr = None, ses_child = 18, ses_handles = []\<rparr>"

definition cli_running :: "nat list \<Rightarrow> nat \<Rightarrow> (nat, nat) Server" where
  "cli_running handles task =
     \<lparr>srv_sessions = [10 \<mapsto> cli_session\<lparr>ses_handles := handles\<rparr>], srv_pending = Map.empty, srv_task = task,
      srv_sent = [(19, le_bytes 8 1), (19, [1])], srv_world = 20\<rparr>"

lemma cli_started:
  "start cli_os cli_cmd 10 (cli_pending [10 \<mapsto> Some (564, 0)] 1 12) = (Inr (), cli_running [0] 1)"
  by (simp add: start_cases start_locked_def and_then_def on_os_def fd_write_all_def setup_tty_def
      fill_cmd_def cli_cmd_def cli_os_def sample_os_def cli_pending_def Let_def cli_session_def
      cli_running_def del: le_bytes.simps fill_ninep_tab.simps)

lemma cli_start:
  "in_start (rpc_inner cli_service) 10 cli_cmd (cli_pending [10 \<mapsto> Some (564, 0)] 1 12) =
     (Inr (), cli_running [0] 1)"
  by (simp add: rpc_inner_simps service_start_def with_uuid_eq cli_uuids sample_u_bytes sample_uuid
      sample_vec_to_uuid and_then_def on_server_def map_err_def cli_started del: le_bytes.simps One_nat_def)

lemma cli_stdout: "in_stdout (rpc_inner cli_service) 10 (cli_running [0] 1) = (Inr 1, cli_running [0, 1] 2)"
  by (simp add: rpc_inner_simps service_stdout_def with_uuid_eq cli_uuids sample_u_bytes sample_uuid
      on_server_def map_err_def and_then_def sample_vec_to_uuid stdout_spawn_def push_handle_def get_session_def
      spawn_task_def cli_running_def cli_session_def del: le_bytes.simps One_nat_def)

lemma cli_client_start:
  "\<exists>c'. client_start (rpc_inner cli_service) [] cli_cmd remote_client = (Inr (), c') \<and>
     cl_inner c' = cli_running [0, 1] 2"
proof -
  have "cmd_ninep cli_cmd" "cmd_tty cli_cmd" by (simp_all add: cli_cmd_def)
  then show ?thesis
    by (simp add: client_start_def and_then_def on_inner_def remote_client_def P9cpuClient_new_def
        cli_dial cli_forward cli_start cli_stdout only_if_def setup_stdio_def
        spawn_client_task_def note_event_def del: One_nat_def)
qed

section \<open>Properties\<close>

text \<open>
  C1. From the command line to the other machine. When \<open>p9cpu\<close> has started the command of its
  arguments over gRPC, the launcher that connects to the server makes, whatever its kernel
  answers, the first calls of a plan written in terms of the arguments: the private name space
  with the local root, the 9P mount of the client at a port the server listens on and the bind
  mounts of \<open>--namespace\<close>, then the lines of \<open>--fs-tab\<close>, the environment, the terminal, the group and the user, and the exec
  of the program with its arguments. With a kernel that grants the calls it makes all of them.
\<close>

theorem p9cpu_reaches_exec:
  assumes "app_command args fs_tab vars = AppRuns cmd"
    and "client_start (rpc_inner V) replies cmd c = (Inr u, c')"
    and "\<And>port. cmd_ninep cmd \<longrightarrow> bound_port (sv_os V) port \<Longrightarrow>
      decode (os_encode (sv_os V) (filled port cmd)) = Inr (filled port cmd) \<and>
      length (os_encode (sv_os V) (filled port cmd)) < 2 ^ 64"
    and "p_stream p = concat (map snd (drop (length (srv_sent (cl_inner c))) (srv_sent (cl_inner c'))))"
    and "p_stream_error p = None" "p_calls p = []"
  shows "\<exists>port user_tabs. (cmd_ninep cmd \<longrightarrow> bound_port (sv_os V) port) \<and>
    read_fs_tab (case fs_tab of None \<Rightarrow> [] | Some lines \<Rightarrow> lines) = Inr user_tabs \<and>
    prefix (p_calls (snd (connect K decode launch_port p))) (cli_plan launch_port port args user_tabs vars) \<and>
    (grants K \<and> cmd_ok cmd \<longrightarrow>
      p_calls (snd (connect K decode launch_port p)) = cli_plan launch_port port args user_tabs vars)"
proof -
  from launcher_reads [OF assms(2-5)] obtain port where
    port: "cmd_ninep cmd \<longrightarrow> bound_port (sv_os V) port" "fst (read_cmd decode p) = Inr (filled port cmd)"
    by blast
  from cli_plan_filled [OF assms(1), of launch_port port] obtain user_tabs where
    tabs: "read_fs_tab (case fs_tab of None \<Rightarrow> [] | Some lines \<Rightarrow> lines) = Inr user_tabs"
    "launch_plan launch_port (filled port cmd) = cli_plan launch_port port args user_tabs vars"
    unfolding filled_def by blast
  have plan: "connect_plan launch_port (fst (read_cmd decode p)) = cli_plan launch_port port args user_tabs vars"
    using port(2) tabs(2) by (simp add: connect_plan_def launch_plan_def)
  obtain made where made: "prefix made (cli_plan launch_port port args user_tabs vars)"
    "p_calls (snd (connect K decode launch_port p)) = p_calls p @ made"
    "made = cli_plan launch_port port args user_tabs vars \<or> isl (fst (connect K decode launch_port p))"
    using connect_calls [of launch_port decode p K] unfolding plan by blast
  have "\<not> isl (fst (connect K decode launch_port p))" if "grants K" "cmd_ok cmd"
    using that by (intro connect_granted [OF _ port(2)]) (simp_all add: cmd_ok_def filled_def)
  with port(1) tabs(1) made assms(6) show ?thesis by (intro exI conjI) auto
qed

theorem p9cpu_reaches_exec_witness:
  "p_calls (snd (connect sample_kernel (\<lambda>_. Inr (filled 564 cli_cmd)) 5
     \<lparr>p_calls = [], p_stream = le_bytes 8 1 @ [1], p_stream_error = None, p_world = ()\<rparr>)) =
   [Unshare, Connect 5, Shutdown, Mount None ''/'' None {MS_REC, MS_PRIVATE} None,
    CreateDirAll ''/tmp'', Mount (Some ''p9cpu'') ''/tmp'' (Some ''tmpfs'') {} None,
    CreateDirAll ''/tmp/local'', Mount (Some ''/'') ''/tmp/local'' None {MS_BIND} None,
    CreateDirAll ''/tmp/mnt9p'', Mount (Some ''127.0.0.1'') ''/tmp/mnt9p'' (Some ''9p'') {}
      (Some ''version=9p2000.L,trans=tcp,port=564''),
    CreateDirAll ''/home'', Mount (Some ''/tmp/mnt9p/home'') ''/home'' (Some ''none'') {MS_BIND} None,
    CreateDirAll ''/proc'', Mount (Some ''proc'') ''/proc'' (Some ''proc'') {} None,
    SetVar [65] [66], Setsid, Tiocsctty, Setgid 100, Setuid 1000, Execvp ''ls'' [''ls'', ''-l'']]"
proof -
  have port: "bound_port cli_os port \<longleftrightarrow> port = 564" for port
    by (auto simp: bound_port_def cli_os_def sample_os_def)
  have tabs: "read_fs_tab [''# mounts'', ''proc /proc proc defaults 0 0''] =
    Inr [\<lparr>tab_spec = ''proc'', tab_file = ''/proc'', tab_vfstype = ''proc'', tab_mntops = ''defaults'',
      tab_freq = 0, tab_passno = 0\<rparr>]" by code_simp
  have plan: "cli_plan 5 564 cli_args [\<lparr>tab_spec = ''proc'', tab_file = ''/proc'', tab_vfstype = ''proc'',
      tab_mntops = ''defaults'', tab_freq = 0, tab_passno = 0\<rparr>] [([65], [66])] = 
   [Unshare, Connect 5, Shutdown, Mount None ''/'' None {MS_REC, MS_PRIVATE} None,
    CreateDirAll ''/tmp'', Mount (Some ''p9cpu'') ''/tmp'' (Some ''tmpfs'') {} None,
    CreateDirAll ''/tmp/local'', Mount (Some ''/'') ''/tmp/local'' None {MS_BIND} None,
    CreateDirAll ''/tmp/mnt9p'', Mount (Some ''127.0.0.1'') ''/tmp/mnt9p'' (Some ''9p'') {}
      (Some ''version=9p2000.L,trans=tcp,port=564''),
    CreateDirAll ''/home'', Mount (Some ''/tmp/mnt9p/home'') ''/home'' (Some ''none'') {MS_BIND} None,
    CreateDirAll ''/proc'', Mount (Some ''proc'') ''/proc'' (Some ''proc'') {} None,
    SetVar [65] [66], Setsid, Tiocsctty, Setgid 100, Setuid 1000, Execvp ''ls'' [''ls'', ''-l'']]"
    by code_simp
  have encode: "os_encode cli_os (filled 564 cli_cmd) = [1]"
    by (simp add: cli_os_def sample_os_def filled_def cli_cmd_def)
  have "srv_sent (cl_inner remote_client) = []" "cmd_ninep cli_cmd" "grants sample_kernel" "cmd_ok cli_cmd"
    by (simp_all add: remote_client_def P9cpuClient_new_def Server_new_def cli_cmd_def grants_def
        sample_kernel_def cmd_ok_def)
  moreover obtain c' where "client_start (rpc_inner cli_service) [] cli_cmd remote_client = (Inr (), c')"
    "cl_inner c' = cli_running [0, 1] 2"
    using cli_client_start by blast
  ultimately show ?thesis
    using p9cpu_reaches_exec [OF cli_command, of cli_service "[]" remote_client "()" c'
        "\<lambda>_. Inr (filled 564 cli_cmd)" "\<lparr>p_calls = [], p_stream = le_bytes 8 1 @ [1], p_stream_error = None, p_world = ()\<rparr>" sample_kernel 5]
    by (auto simp: cli_uuids port encode tabs plan cli_running_def simp del: le_bytes.simps read_fs_tab.simps)
qed

end
