(* ===== verification/Wire.thy ===== *)
theory Wire
  imports Prelude
begin

text \<open>
  The machinery of \<^verbatim>\<open>crates/9p/src/serialize.rs\<close> that is common to all message types:
  writers, the \<open>Encoder\<close> with its operator \<open><<\<close> on \<open>SResult\<close>, the \<open>Decoder\<close> with
  \<open>>>\<close>, exact reads, and the traits \<open>Encodable\<close> and \<open>Decodable\<close> as locales.

  An encoder takes the writer and returns an error or the count it reports together with
  the writer after the call. A decoder takes the bytes that are left and returns an error
  or a value and the bytes left after it; its sequencing (\<open>bnd\<close>) is the \<open>?\<close> of the
  source, which stops at the first error.
\<close>

section \<open>Writers\<close>

text \<open>
  The writers of the standard library the sources use: a \<open>Vec\<close> or \<open>BytesMut\<close>
  (no bound, \<open>w_room = None\<close>) and a fixed buffer with so many bytes left, on which
  \<open>write_all\<close> fails when the bytes do not fit.
\<close>

record writer =
  w_room :: "nat option"
  w_buf :: "u8 list"

definition vec_writer :: writer where
  "vec_writer = \<lparr>w_room = None, w_buf = []\<rparr>"

definition bounded_writer :: "nat \<Rightarrow> writer" where
  "bounded_writer n = \<lparr>w_room = Some n, w_buf = []\<rparr>"

definition write_all :: "u8 list \<Rightarrow> writer \<Rightarrow> io_error + writer" where
  "write_all bs w =
     (case w_room w of
        None \<Rightarrow> Inr (w\<lparr>w_buf := w_buf w @ bs\<rparr>)
      | Some r \<Rightarrow>
          if length bs \<le> r
          then Inr (w\<lparr>w_room := Some (r - length bs), w_buf := w_buf w @ bs\<rparr>)
          else Inl write_zero_error)"

type_synonym encode_act = "writer \<Rightarrow> io_error + nat \<times> writer"

section \<open>The encoder and its operators\<close>

record Encoder =
  enc_writer :: writer
  enc_bytes :: nat

definition Encoder_new :: "writer \<Rightarrow> Encoder" where
  "Encoder_new w = \<lparr>enc_writer = w, enc_bytes = 0\<rparr>"

definition bytes_written :: "Encoder \<Rightarrow> nat" where
  "bytes_written self = enc_bytes self"

definition Encoder_encode :: "encode_act \<Rightarrow> Encoder \<Rightarrow> io_error + nat \<times> Encoder" where
  "Encoder_encode data self =
     (case data (enc_writer self) of
        Inl e \<Rightarrow> Inl e
      | Inr (bytes, w) \<Rightarrow>
          Inr (bytes, self\<lparr>enc_writer := w, enc_bytes := enc_bytes self + bytes\<rparr>))"

definition shl_Encoder :: "Encoder \<Rightarrow> encode_act \<Rightarrow> io_error + Encoder" where
  "shl_Encoder self rhs =
     (case Encoder_encode rhs self of
        Inr (_, self') \<Rightarrow> Inr self'
      | Inl e \<Rightarrow> Inl e)"

definition shl_SResult :: "io_error + Encoder \<Rightarrow> encode_act \<Rightarrow> io_error + Encoder" where
  "shl_SResult self rhs =
     (case self of
        Inr encoder \<Rightarrow>
          (case Encoder_encode rhs encoder of
             Inr (_, encoder') \<Rightarrow> Inr encoder'
           | Inl e \<Rightarrow> Inl e)
      | Inl e \<Rightarrow> Inl e)"

text \<open>
  \<open>Encoder::new(w) << a << b << ...\<close> applies \<open>shl_Encoder\<close> once and
  \<open>shl_SResult\<close> from then on; the two agree (\<open>shl_SResult_Inr\<close>), so the chain is a left fold.
  \<open>encode_seq\<close> is such a chain followed by the \<open>match\<close> that ends every
  implementation: the number of bytes written, or the error.
\<close>

definition shl_chain :: "writer \<Rightarrow> encode_act list \<Rightarrow> io_error + Encoder" where
  "shl_chain w acts = foldl shl_SResult (Inr (Encoder_new w)) acts"

definition encode_seq :: "encode_act list \<Rightarrow> encode_act" where
  "encode_seq acts w =
     (case shl_chain w acts of
        Inr enc \<Rightarrow> Inr (bytes_written enc, enc_writer enc)
      | Inl e \<Rightarrow> Inl e)"

lemma shl_SResult_Inr: "shl_SResult (Inr e) a = shl_Encoder e a"
  by (simp add: shl_SResult_def shl_Encoder_def)

section \<open>What an encoder puts on the wire\<close>

text \<open>
  \<open>emit bs\<close> writes exactly \<open>bs\<close> and reports their number; \<open>emits a bs\<close> says that
  the encoder \<open>a\<close> does that on every writer. The wire image of an encoder is what it
  leaves in an empty vector.
\<close>

definition emit :: "u8 list \<Rightarrow> encode_act" where
  "emit bs w = (case write_all bs w of Inl e \<Rightarrow> Inl e | Inr w' \<Rightarrow> Inr (length bs, w'))"

definition emits :: "encode_act \<Rightarrow> u8 list \<Rightarrow> bool" where
  "emits a bs \<longleftrightarrow> (\<forall>w. a w = emit bs w)"

definition wire :: "encode_act \<Rightarrow> u8 list" where
  "wire a = (case a vec_writer of Inr (n, w) \<Rightarrow> w_buf w | Inl e \<Rightarrow> [])"

lemma emitsD: "emits a bs \<Longrightarrow> a w = emit bs w"
  by (simp add: emits_def)

lemma wire_emits: "emits a bs \<Longrightarrow> wire a = bs"
  by (simp add: emits_def wire_def emit_def write_all_def vec_writer_def)

lemma emits_emit: "emits (emit bs) bs"
  by (simp add: emits_def)

lemma emit_append:
  "(case emit bs w of Inl e \<Rightarrow> Inl e
    | Inr (n, w') \<Rightarrow> (case emit cs w' of Inl e \<Rightarrow> Inl e | Inr (m, w'') \<Rightarrow> Inr (n + m, w'')))
   = emit (bs @ cs) w"
  by (cases w) (auto simp: emit_def write_all_def split: option.splits)

lemma shl_chain_Nil: "shl_chain w [] = Inr (Encoder_new w)"
  by (simp add: shl_chain_def)

lemma shl_chain_snoc: "shl_chain w (as @ [a]) = shl_SResult (shl_chain w as) a"
  by (simp add: shl_chain_def)

text \<open>A chain writes the images of its parts one after the other.\<close>

lemma shl_chain_emits:
  assumes "list_all2 emits as bss"
  shows "shl_chain w as =
    (case emit (concat bss) w of
       Inl e \<Rightarrow> Inl e
     | Inr (n, w') \<Rightarrow> Inr \<lparr>enc_writer = w', enc_bytes = n\<rparr>)"
  using assms
proof (induction as arbitrary: bss rule: rev_induct)
  case Nil
  then show ?case
    by (cases w) (auto simp: shl_chain_Nil emit_def write_all_def Encoder_new_def split: option.splits)
next
  case (snoc a as)
  from snoc.prems obtain bss' b where bss: "bss = bss' @ [b]"
    and as: "list_all2 emits as bss'" and a: "emits a b"
    by (auto simp: list_all2_append1 list_all2_Cons1)
  show ?case
    using emit_append [where bs = "concat bss'" and cs = b and w = w]
    by (auto simp: bss shl_chain_snoc snoc.IH [OF as] shl_SResult_def Encoder_encode_def
          emitsD [OF a] split: sum.splits prod.splits)
qed

lemma emits_encode_seq:
  assumes "list_all2 emits as bss"
  shows "emits (encode_seq as) (concat bss)"
  by (auto simp: emits_def encode_seq_def shl_chain_emits [OF assms] bytes_written_def
        split: sum.splits prod.splits)

text \<open>
  An encoder with a wire image is well behaved; a chain of well-behaved encoders is well
  behaved, and its image is the concatenation.
\<close>

definition behaved :: "encode_act \<Rightarrow> bool" where
  "behaved a \<longleftrightarrow> emits a (wire a)"

lemma behavedI: "emits a bs \<Longrightarrow> behaved a"
  by (simp add: behaved_def wire_emits)

lemma list_all2_behaved: "list_all behaved as \<Longrightarrow> list_all2 emits as (map wire as)"
  by (induction as) (auto simp: behaved_def)

lemma behaved_encode_seq: "list_all behaved as \<Longrightarrow> behaved (encode_seq as)"
  by (blast intro: behavedI emits_encode_seq list_all2_behaved)

lemma wire_encode_seq: "list_all behaved as \<Longrightarrow> wire (encode_seq as) = concat (map wire as)"
  by (blast intro: wire_emits emits_encode_seq list_all2_behaved)

text \<open>On a vector the image is appended; on a bounded buffer the call succeeds iff it fits.\<close>

lemma behaved_vec:
  "behaved a \<Longrightarrow> a \<lparr>w_room = None, w_buf = bs\<rparr> = Inr (length (wire a), \<lparr>w_room = None, w_buf = bs @ wire a\<rparr>)"
  by (simp add: behaved_def emits_def emit_def write_all_def)

lemma behaved_bounded:
  "behaved a \<Longrightarrow> a (bounded_writer n) =
     (if length (wire a) \<le> n
      then Inr (length (wire a), \<lparr>w_room = Some (n - length (wire a)), w_buf = wire a\<rparr>)
      else Inl write_zero_error)"
  by (simp add: behaved_def emits_def emit_def write_all_def bounded_writer_def)

section \<open>Decoders\<close>

type_synonym 'a decode_act = "u8 list \<Rightarrow> io_error + 'a \<times> u8 list"

definition ret :: "'a \<Rightarrow> 'a decode_act" where
  "ret x bs = Inr (x, bs)"

definition fail :: "io_error \<Rightarrow> 'a decode_act" where
  "fail e bs = Inl e"

definition bnd :: "'a decode_act \<Rightarrow> ('a \<Rightarrow> 'b decode_act) \<Rightarrow> 'b decode_act" where
  "bnd d f bs = (case d bs of Inl e \<Rightarrow> Inl e | Inr (x, rest) \<Rightarrow> f x rest)"

text \<open>\<open>read_exact\<close>: the next \<open>n\<close> bytes, or \<open>UnexpectedEof\<close> when fewer are left.\<close>

definition read_exact :: "nat \<Rightarrow> u8 list decode_act" where
  "read_exact n r =
     (if n \<le> length r then Inr (take n r, drop n r) else Inl eof_error)"

record Decoder =
  dec_reader :: "u8 list"

definition Decoder_decode :: "'a decode_act \<Rightarrow> Decoder \<Rightarrow> io_error + 'a \<times> Decoder" where
  "Decoder_decode d self =
     (case d (dec_reader self) of
        Inl e \<Rightarrow> Inl e
      | Inr (x, rest) \<Rightarrow> Inr (x, self\<lparr>dec_reader := rest\<rparr>))"

text \<open>\<open>decoder >> &mut rhs\<close>: the new value of \<open>rhs\<close> and the decoder, or the error.\<close>

definition shr_Decoder :: "Decoder \<Rightarrow> 'a decode_act \<Rightarrow> io_error + 'a \<times> Decoder" where
  "shr_Decoder self d =
     (case Decoder_decode d self of
        Inr (r, self') \<Rightarrow> Inr (r, self')
      | Inl e \<Rightarrow> Inl e)"

definition shr_SResult :: "io_error + Decoder \<Rightarrow> 'a decode_act \<Rightarrow> io_error + 'a \<times> Decoder" where
  "shr_SResult self d =
     (case self of
        Inr decoder \<Rightarrow>
          (case Decoder_decode d decoder of
             Inr (r, decoder') \<Rightarrow> Inr (r, decoder')
           | Inl e \<Rightarrow> Inl e)
      | Inl e \<Rightarrow> Inl e)"

section \<open>Parsing facts\<close>

text \<open>
  \<open>parses d bs v\<close>: on any input that starts with \<open>bs\<close> the decoder consumes exactly
  \<open>bs\<close> and returns \<open>v\<close>, and on every proper prefix of \<open>bs\<close> it reports the end
  of input. \<open>sound d V\<close>: whatever the decoder returns satisfies \<open>V\<close>, and it depends on
  the bytes consumed only.
\<close>

definition parses :: "'a decode_act \<Rightarrow> u8 list \<Rightarrow> 'a \<Rightarrow> bool" where
  "parses d bs v \<longleftrightarrow>
     (\<forall>rest. d (bs @ rest) = Inr (v, rest)) \<and> (\<forall>p. strict_prefix p bs \<longrightarrow> d p = Inl eof_error)"

definition sound :: "'a decode_act \<Rightarrow> ('a \<Rightarrow> bool) \<Rightarrow> bool" where
  "sound d V \<longleftrightarrow>
     (\<forall>bs v rest. d bs = Inr (v, rest) \<longrightarrow>
        V v \<and> (\<exists>used. bs = used @ rest \<and> (\<forall>r. d (used @ r) = Inr (v, r))))"

lemma parses_decode: "parses d bs v \<Longrightarrow> d (bs @ rest) = Inr (v, rest)"
  by (simp add: parses_def)

lemma parses_prefix: "parses d bs v \<Longrightarrow> strict_prefix p bs \<Longrightarrow> d p = Inl eof_error"
  by (simp add: parses_def)

lemma parses_ret [codec_intro]: "x = v \<Longrightarrow> parses (ret x) [] v"
  by (simp add: parses_def ret_def)

lemma parses_bnd [codec_intro]:
  assumes d: "parses d bs x" and f: "parses (f x) cs v"
  shows "parses (bnd d f) (bs @ cs) v"
proof -
  have "bnd d f p = Inl eof_error" if "strict_prefix p (bs @ cs)" for p
    using that
  proof (cases rule: strict_prefix_append_cases)
    case left
    with d show ?thesis by (simp add: bnd_def parses_prefix)
  next
    case (right q)
    with d f show ?thesis by (simp add: bnd_def parses_decode parses_prefix)
  qed
  moreover have "bnd d f ((bs @ cs) @ rest) = Inr (v, rest)" for rest
    using d f by (simp add: bnd_def parses_decode)
  ultimately show ?thesis by (simp add: parses_def)
qed

lemma parses_last: "parses d bs x \<Longrightarrow> parses (f x) [] v \<Longrightarrow> parses (bnd d f) bs v"
  using parses_bnd [of d bs x f "[]" v] by simp

lemma parses_read_exact: "length bs = n \<Longrightarrow> parses (read_exact n) bs bs"
  by (auto simp: parses_def read_exact_def dest: strict_prefix_length)

lemma parses_unique:
  assumes "parses d bs v" "parses d cs v'" "bs @ r = cs @ r'"
  shows "v = v' \<and> r = r'"
  using assms parses_decode [of d bs v r] parses_decode [of d cs v' r'] by simp

lemma soundI:
  assumes "\<And>bs v rest. d bs = Inr (v, rest) \<Longrightarrow> V v"
    and "\<And>bs v rest. d bs = Inr (v, rest) \<Longrightarrow> \<exists>used. bs = used @ rest \<and> (\<forall>r. d (used @ r) = Inr (v, r))"
  shows "sound d V"
  using assms by (auto simp: sound_def)

lemma sound_valid: "sound d V \<Longrightarrow> d bs = Inr (v, rest) \<Longrightarrow> V v"
  by (auto simp: sound_def)

lemma sound_consumes:
  assumes "sound d V" "d bs = Inr (v, rest)"
  obtains used where "bs = used @ rest" "\<And>r. d (used @ r) = Inr (v, r)"
proof -
  from assms obtain used where "bs = used @ rest" "\<forall>r. d (used @ r) = Inr (v, r)"
    unfolding sound_def by blast
  then show thesis by (intro that [of used]) auto
qed

lemma sound_ret [sound_intro]: "V x \<Longrightarrow> sound (ret x) V"
  by (rule soundI) (auto simp: ret_def)

lemma sound_fail [sound_intro]: "sound (fail e) V"
  by (simp add: sound_def fail_def)

lemma sound_bnd [sound_intro]:
  assumes d: "sound d V" and f: "\<And>x. V x \<Longrightarrow> sound (f x) W"
  shows "sound (bnd d f) W"
proof (rule soundI)
  fix bs v rest
  assume "bnd d f bs = Inr (v, rest)"
  then obtain x mid where x: "d bs = Inr (x, mid)" and v: "f x mid = Inr (v, rest)"
    by (auto simp: bnd_def split: sum.splits)
  from d x have Vx: "V x" by (rule sound_valid)
  from f [OF Vx] v show "W v" by (rule sound_valid)
  from d x obtain us where us: "bs = us @ mid" "\<And>r. d (us @ r) = Inr (x, r)"
    by (rule sound_consumes) blast
  from f [OF Vx] v obtain vs where vs: "mid = vs @ rest" "\<And>r. f x (vs @ r) = Inr (v, r)"
    by (rule sound_consumes) blast
  have "bnd d f ((us @ vs) @ r) = Inr (v, r)" for r
    using us(2) [of "vs @ r"] vs(2) by (simp add: bnd_def)
  with us(1) vs(1) show "\<exists>used. bs = used @ rest \<and> (\<forall>r. bnd d f (used @ r) = Inr (v, r))"
    by (intro exI [of _ "us @ vs"]) auto
qed

lemma sound_read_exact: "sound (read_exact n) (\<lambda>bs. length bs = n)"
proof (rule soundI)
  fix bs v rest
  assume *: "read_exact n bs = Inr (v, rest)"
  then show "length v = n" by (auto simp: read_exact_def split: if_splits)
  from * show "\<exists>used. bs = used @ rest \<and> (\<forall>r. read_exact n (used @ r) = Inr (v, r))"
    by (intro exI [of _ "take n bs"]) (auto simp: read_exact_def split: if_splits)
qed

lemma sound_mono: "sound d V \<Longrightarrow> (\<And>x. V x \<Longrightarrow> W x) \<Longrightarrow> sound d W"
  by (auto simp: sound_def)

lemma sound_and:
  "sound d V \<Longrightarrow> (\<And>bs v rest. d bs = Inr (v, rest) \<Longrightarrow> W v) \<Longrightarrow> sound d (\<lambda>x. V x \<and> W x)"
  by (auto simp: sound_def)

section \<open>The traits as interfaces\<close>

text \<open>
  \<open>Encodable\<close>: a value has a byte image, and encoding writes that image and reports its
  length on every writer. \<open>Decodable\<close>: decoded values are well formed and depend on the
  bytes consumed only. A \<open>codec\<close> is an encoder with a decoder that reads back what it wrote.
\<close>

locale encodable =
  fixes encode :: "'a \<Rightarrow> encode_act"
  assumes behaved: "behaved (encode x)"
begin

lemma encode_vec:
  "encode x \<lparr>w_room = None, w_buf = bs\<rparr> =
     Inr (length (wire (encode x)), \<lparr>w_room = None, w_buf = bs @ wire (encode x)\<rparr>)"
  by (rule behaved_vec [OF behaved])

lemma encode_bounded_ok_iff:
  "(\<exists>n w. encode x (bounded_writer r) = Inr (n, w)) \<longleftrightarrow> length (wire (encode x)) \<le> r"
  by (simp add: behaved_bounded [OF behaved])

lemma encode_bounded_error:
  "r < length (wire (encode x)) \<Longrightarrow> encode x (bounded_writer r) = Inl write_zero_error"
  by (simp add: behaved_bounded [OF behaved])

end

locale decodable =
  fixes decode :: "'a decode_act" and valid :: "'a \<Rightarrow> bool"
  assumes decode_sound: "sound decode valid"
begin

lemma decode_valid: "decode bs = Inr (x, rest) \<Longrightarrow> valid x"
  by (rule sound_valid [OF decode_sound])

lemma decode_frame:
  assumes "decode bs = Inr (x, rest)"
  shows "decode (bs @ cs) = Inr (x, rest @ cs)"
proof -
  from decode_sound assms obtain used where "bs = used @ rest" "\<And>r. decode (used @ r) = Inr (x, r)"
    by (rule sound_consumes) blast
  then show ?thesis by simp
qed

lemma decode_suffix:
  assumes "decode bs = Inr (x, rest)"
  shows "suffix rest bs"
proof -
  from decode_sound assms obtain used where "bs = used @ rest" by (rule sound_consumes)
  then show ?thesis by (simp add: suffix_def)
qed

end

locale codec = encodable encode for encode :: "'a \<Rightarrow> encode_act" +
  fixes decode :: "'a decode_act" and ok :: "'a \<Rightarrow> bool"
  assumes parses: "ok x \<Longrightarrow> parses decode (wire (encode x)) x"
begin

lemma roundtrip: "ok x \<Longrightarrow> decode (wire (encode x) @ rest) = Inr (x, rest)"
  by (rule parses_decode [OF parses])

lemma truncated: "ok x \<Longrightarrow> strict_prefix p (wire (encode x)) \<Longrightarrow> decode p = Inl eof_error"
  by (rule parses_prefix [OF parses])

lemma unique:
  "ok x \<Longrightarrow> ok y \<Longrightarrow> wire (encode x) @ r = wire (encode y) @ r' \<Longrightarrow> x = y \<and> r = r'"
  using parses_unique [OF parses parses] by blast

end

text \<open>
  A closed codec reads back everything it can decode: encoding a decoded value again and
  decoding it gives the same value.
\<close>

locale closed_codec = codec encode decode valid + decodable decode valid
  for encode :: "'a \<Rightarrow> encode_act" and decode :: "'a decode_act" and valid :: "'a \<Rightarrow> bool"
begin

lemma reencode: "decode bs = Inr (x, rest) \<Longrightarrow> decode (wire (encode x) @ r) = Inr (x, r)"
  by (rule roundtrip [OF decode_valid])

end

end
