(* ===== verification/Fcall_Types.thy ===== *)
theory Fcall_Types
  imports Prelude
begin

text \<open>
  The 9P2000.L data types and constants of \<^verbatim>\<open>crates/9p/src/fcall.rs\<close>: the bit-flag types,
  the structures carried by messages, the message types, the message bodies and the
  envelope, with the functions the file defines on them. A structure is a record whose
  fields carry the structure's name as a prefix, since several structures share field
  names. Arithmetic on \<open>u32\<close> is that of a release build: it wraps.
\<close>

unbundle bit_operations_syntax

section \<open>Constants\<close>

definition P92000 :: string where "P92000 = ''9P2000''"

definition P92000L :: string where "P92000L = ''9P2000.L''"

definition VERSION_UNKNOWN :: string where "VERSION_UNKNOWN = ''unknown''"

definition NOTAG :: u16 where "NOTAG = NOT 0"

definition NOFID :: u32 where "NOFID = NOT 0"

definition NONUNAME :: u32 where "NONUNAME = NOT 0"

definition IOHDRSZ :: u32 where "IOHDRSZ = 24"

definition READDIRHDRSZ :: u32 where "READDIRHDRSZ = 24"

section \<open>Bit flags\<close>

text \<open>
  A \<open>bitflags!\<close> structure is its bits. The value of a flags type has only bits of the
  declared flags (\<open>flags_ok\<close>); \<open>from_bits_truncate\<close> drops the others.
\<close>

definition from_bits_truncate :: "'a::len word \<Rightarrow> 'a word \<Rightarrow> 'a word" where
  "from_bits_truncate all bits = bits AND all"

definition flags_ok :: "'a::len word \<Rightarrow> 'a word \<Rightarrow> bool" where
  "flags_ok all x \<longleftrightarrow> x AND all = x"

definition flags_contains :: "'a::len word \<Rightarrow> 'a word \<Rightarrow> bool" where
  "flags_contains self other \<longleftrightarrow> self AND other = other"

definition flags_intersects :: "'a::len word \<Rightarrow> 'a word \<Rightarrow> bool" where
  "flags_intersects self other \<longleftrightarrow> self AND other \<noteq> 0"

definition flags_insert :: "'a::len word \<Rightarrow> 'a word \<Rightarrow> 'a word" where
  "flags_insert self other = self OR other"

lemma flags_ok_truncate [simp]: "flags_ok all (from_bits_truncate all b)"
  by (simp add: flags_ok_def from_bits_truncate_def and.assoc)

lemma truncate_flags_ok: "flags_ok all b \<Longrightarrow> from_bits_truncate all b = b"
  by (simp add: flags_ok_def from_bits_truncate_def)

type_synonym LockType = u8
type_synonym LockFlag = u32
type_synonym LockStatus = u8
type_synonym QidType = u8
type_synonym GetattrMask = u64
type_synonym SetattrMask = u32

definition LockType_RDLOCK :: LockType where "LockType_RDLOCK = 0"

definition LockType_WRLOCK :: LockType where "LockType_WRLOCK = 1"

definition LockType_UNLOCK :: LockType where "LockType_UNLOCK = 2"

definition LockType_all :: LockType where
  "LockType_all = LockType_RDLOCK OR LockType_WRLOCK OR LockType_UNLOCK"

definition LockFlag_BLOCK :: LockFlag where "LockFlag_BLOCK = 1"

definition LockFlag_RECLAIM :: LockFlag where "LockFlag_RECLAIM = 2"

definition LockFlag_all :: LockFlag where
  "LockFlag_all = LockFlag_BLOCK OR LockFlag_RECLAIM"

definition LockStatus_SUCCESS :: LockStatus where "LockStatus_SUCCESS = 0"

definition LockStatus_BLOCKED :: LockStatus where "LockStatus_BLOCKED = 1"

definition LockStatus_ERROR :: LockStatus where "LockStatus_ERROR = 2"

definition LockStatus_GRACE :: LockStatus where "LockStatus_GRACE = 3"

definition LockStatus_all :: LockStatus where
  "LockStatus_all = LockStatus_SUCCESS OR LockStatus_BLOCKED OR LockStatus_ERROR OR LockStatus_GRACE"

definition QidType_DIR :: QidType where "QidType_DIR = 0x80"

definition QidType_APPEND :: QidType where "QidType_APPEND = 0x40"

definition QidType_EXCL :: QidType where "QidType_EXCL = 0x20"

definition QidType_MOUNT :: QidType where "QidType_MOUNT = 0x10"

definition QidType_AUTH :: QidType where "QidType_AUTH = 8"

definition QidType_TMP :: QidType where "QidType_TMP = 4"

definition QidType_SYMLINK :: QidType where "QidType_SYMLINK = 2"

definition QidType_LINK :: QidType where "QidType_LINK = 1"

definition QidType_FILE :: QidType where "QidType_FILE = 0"

definition QidType_all :: QidType where
  "QidType_all = QidType_DIR OR QidType_APPEND OR QidType_EXCL OR QidType_MOUNT OR QidType_AUTH OR QidType_TMP OR QidType_SYMLINK OR QidType_LINK OR QidType_FILE"

definition GetattrMask_MODE :: GetattrMask where "GetattrMask_MODE = 1"

definition GetattrMask_NLINK :: GetattrMask where "GetattrMask_NLINK = 2"

definition GetattrMask_UID :: GetattrMask where "GetattrMask_UID = 4"

definition GetattrMask_GID :: GetattrMask where "GetattrMask_GID = 8"

definition GetattrMask_RDEV :: GetattrMask where "GetattrMask_RDEV = 0x10"

definition GetattrMask_ATIME :: GetattrMask where "GetattrMask_ATIME = 0x20"

definition GetattrMask_MTIME :: GetattrMask where "GetattrMask_MTIME = 0x40"

definition GetattrMask_CTIME :: GetattrMask where "GetattrMask_CTIME = 0x80"

definition GetattrMask_INO :: GetattrMask where "GetattrMask_INO = 0x100"

definition GetattrMask_SIZE :: GetattrMask where "GetattrMask_SIZE = 0x200"

definition GetattrMask_BLOCKS :: GetattrMask where "GetattrMask_BLOCKS = 0x400"

definition GetattrMask_BTIME :: GetattrMask where "GetattrMask_BTIME = 0x800"

definition GetattrMask_GEN :: GetattrMask where "GetattrMask_GEN = 0x1000"

definition GetattrMask_DATA_VERSION :: GetattrMask where "GetattrMask_DATA_VERSION = 0x2000"

definition GetattrMask_BASIC :: GetattrMask where "GetattrMask_BASIC = 0x7ff"

definition GetattrMask_ALL :: GetattrMask where "GetattrMask_ALL = 0x3fff"

definition GetattrMask_all :: GetattrMask where
  "GetattrMask_all = GetattrMask_MODE OR GetattrMask_NLINK OR GetattrMask_UID OR GetattrMask_GID OR GetattrMask_RDEV OR GetattrMask_ATIME OR GetattrMask_MTIME OR GetattrMask_CTIME OR GetattrMask_INO OR GetattrMask_SIZE OR GetattrMask_BLOCKS OR GetattrMask_BTIME OR GetattrMask_GEN OR GetattrMask_DATA_VERSION OR GetattrMask_BASIC OR GetattrMask_ALL"

definition SetattrMask_MODE :: SetattrMask where "SetattrMask_MODE = 1"

definition SetattrMask_UID :: SetattrMask where "SetattrMask_UID = 2"

definition SetattrMask_GID :: SetattrMask where "SetattrMask_GID = 4"

definition SetattrMask_SIZE :: SetattrMask where "SetattrMask_SIZE = 8"

definition SetattrMask_ATIME :: SetattrMask where "SetattrMask_ATIME = 0x10"

definition SetattrMask_MTIME :: SetattrMask where "SetattrMask_MTIME = 0x20"

definition SetattrMask_CTIME :: SetattrMask where "SetattrMask_CTIME = 0x40"

definition SetattrMask_ATIME_SET :: SetattrMask where "SetattrMask_ATIME_SET = 0x80"

definition SetattrMask_MTIME_SET :: SetattrMask where "SetattrMask_MTIME_SET = 0x100"

definition SetattrMask_all :: SetattrMask where
  "SetattrMask_all = SetattrMask_MODE OR SetattrMask_UID OR SetattrMask_GID OR SetattrMask_SIZE OR SetattrMask_ATIME OR SetattrMask_MTIME OR SetattrMask_CTIME OR SetattrMask_ATIME_SET OR SetattrMask_MTIME_SET"

lemma LockType_all_bits: "LockType_all = 3"
  by (simp add: LockType_all_def LockType_RDLOCK_def LockType_WRLOCK_def LockType_UNLOCK_def)

lemma LockFlag_all_bits: "LockFlag_all = 3"
  by (simp add: LockFlag_all_def LockFlag_BLOCK_def LockFlag_RECLAIM_def)

lemma LockStatus_all_bits: "LockStatus_all = 3"
  by (simp add: LockStatus_all_def LockStatus_SUCCESS_def LockStatus_BLOCKED_def LockStatus_ERROR_def LockStatus_GRACE_def)

lemma QidType_all_bits: "QidType_all = 0xff"
  by (simp add: QidType_all_def QidType_DIR_def QidType_APPEND_def QidType_EXCL_def QidType_MOUNT_def QidType_AUTH_def QidType_TMP_def QidType_SYMLINK_def QidType_LINK_def QidType_FILE_def)

lemma GetattrMask_all_bits: "GetattrMask_all = 0x3fff"
  by (simp add: GetattrMask_all_def GetattrMask_MODE_def GetattrMask_NLINK_def GetattrMask_UID_def GetattrMask_GID_def GetattrMask_RDEV_def GetattrMask_ATIME_def GetattrMask_MTIME_def GetattrMask_CTIME_def GetattrMask_INO_def GetattrMask_SIZE_def GetattrMask_BLOCKS_def GetattrMask_BTIME_def GetattrMask_GEN_def GetattrMask_DATA_VERSION_def GetattrMask_BASIC_def GetattrMask_ALL_def)

lemma SetattrMask_all_bits: "SetattrMask_all = 0x1ff"
  by (simp add: SetattrMask_all_def SetattrMask_MODE_def SetattrMask_UID_def SetattrMask_GID_def SetattrMask_SIZE_def SetattrMask_ATIME_def SetattrMask_MTIME_def SetattrMask_CTIME_def SetattrMask_ATIME_SET_def SetattrMask_MTIME_SET_def)

section \<open>Structures\<close>

text \<open>
  What the conversions read of \<open>std::fs::Metadata\<close> and \<open>nix\<close>'s \<open>Statvfs\<close>: one
  component per accessor. Signed times are kept as their 64 bits, which is what
  \<open>as u64\<close> keeps.
\<close>

record Metadata =
  md_is_dir :: bool
  md_is_symlink :: bool
  md_ino :: u64
  md_mode :: u32
  md_uid :: u32
  md_gid :: u32
  md_nlink :: u64
  md_rdev :: u64
  md_size :: u64
  md_blksize :: u64
  md_blocks :: u64
  md_atime :: u64
  md_atime_nsec :: u64
  md_mtime :: u64
  md_mtime_nsec :: u64
  md_ctime :: u64
  md_ctime_nsec :: u64

record Statvfs =
  vfs_block_size :: u64
  vfs_blocks :: u64
  vfs_blocks_free :: u64
  vfs_blocks_available :: u64
  vfs_files :: u64
  vfs_files_free :: u64
  vfs_filesystem_id :: u64
  vfs_name_max :: u64

definition QidType_from_FileType :: "Metadata \<Rightarrow> QidType" where
  "QidType_from_FileType typ =
     (let qid_type = QidType_FILE;
          qid_type = (if md_is_dir typ then flags_insert qid_type QidType_DIR else qid_type);
          qid_type = (if md_is_symlink typ then flags_insert qid_type QidType_SYMLINK else qid_type)
      in qid_type)"

record Qid =
  qid_typ :: QidType
  qid_version :: u32
  qid_path :: u64

definition Qid_size :: "Qid \<Rightarrow> u32" where
  "Qid_size q = of_nat (1 + 4 + 8)"

record Statfs =
  statfs_typ :: u32
  statfs_bsize :: u32
  statfs_blocks :: u64
  statfs_bfree :: u64
  statfs_bavail :: u64
  statfs_files :: u64
  statfs_ffree :: u64
  statfs_fsid :: u64
  statfs_namelen :: u32

definition Statfs_from_Statvfs :: "Statvfs \<Rightarrow> Statfs" where
  "Statfs_from_Statvfs buf =
     \<lparr>statfs_typ = 0,
      statfs_bsize = ucast (vfs_block_size buf),
      statfs_blocks = vfs_blocks buf,
      statfs_bfree = vfs_blocks_free buf,
      statfs_bavail = vfs_blocks_available buf,
      statfs_files = vfs_files buf,
      statfs_ffree = vfs_files_free buf,
      statfs_fsid = vfs_filesystem_id buf,
      statfs_namelen = ucast (vfs_name_max buf)\<rparr>"

record Time =
  time_sec :: u64
  time_nsec :: u64

record Stat =
  stat_mode :: u32
  stat_uid :: u32
  stat_gid :: u32
  stat_nlink :: u64
  stat_rdev :: u64
  stat_size :: u64
  stat_blksize :: u64
  stat_blocks :: u64
  stat_atime :: Time
  stat_mtime :: Time
  stat_ctime :: Time

definition Stat_from_Metadata :: "Metadata \<Rightarrow> Stat" where
  "Stat_from_Metadata attr =
     \<lparr>stat_mode = md_mode attr,
      stat_uid = md_uid attr,
      stat_gid = md_gid attr,
      stat_nlink = md_nlink attr,
      stat_rdev = md_rdev attr,
      stat_size = md_size attr,
      stat_blksize = md_blksize attr,
      stat_blocks = md_blocks attr,
      stat_atime = \<lparr>time_sec = md_atime attr, time_nsec = md_atime_nsec attr\<rparr>,
      stat_mtime = \<lparr>time_sec = md_mtime attr, time_nsec = md_mtime_nsec attr\<rparr>,
      stat_ctime = \<lparr>time_sec = md_ctime attr, time_nsec = md_ctime_nsec attr\<rparr>\<rparr>"

record SetAttr =
  setattr_mode :: u32
  setattr_uid :: u32
  setattr_gid :: u32
  setattr_size :: u64
  setattr_atime :: Time
  setattr_mtime :: Time

record DirEntry =
  dirent_qid :: Qid
  dirent_offset :: u64
  dirent_typ :: u8
  dirent_name :: string

definition DirEntry_size :: "DirEntry \<Rightarrow> u32" where
  "DirEntry_size d = of_nat (unat (Qid_size (dirent_qid d)) + 8 + 1 + 2 + length (dirent_name d))"

record DirEntryData =
  dirents_data :: "DirEntry list"

definition DirEntryData_with :: "DirEntry list \<Rightarrow> DirEntryData" where
  "DirEntryData_with v = \<lparr>dirents_data = v\<rparr>"

definition DirEntryData_new :: DirEntryData where
  "DirEntryData_new = DirEntryData_with []"

definition DirEntryData_size :: "DirEntryData \<Rightarrow> u32" where
  "DirEntryData_size d = foldl (\<lambda>a e. a + DirEntry_size e) 0 (dirents_data d)"

definition DirEntryData_push :: "DirEntryData \<Rightarrow> DirEntry \<Rightarrow> DirEntryData" where
  "DirEntryData_push d entry = d\<lparr>dirents_data := dirents_data d @ [entry]\<rparr>"

datatype Data = Data "u8 list"

record Flock =
  flock_typ :: LockType
  flock_flags :: LockFlag
  flock_start :: u64
  flock_length :: u64
  flock_proc_id :: u32
  flock_client_id :: string

record Getlock =
  getlock_typ :: LockType
  getlock_start :: u64
  getlock_length :: u64
  getlock_proc_id :: u32
  getlock_client_id :: string

section \<open>Message types\<close>

text \<open>
  The enumeration with its discriminants: \<open>as_u8\<close> is the cast of a variant to
  \<open>u8\<close>, \<open>from_u8\<close> what \<open>enum_from_primitive!\<close> derives from the listing, the
  variant with that discriminant if there is one.
\<close>

datatype (plugins only: code size) MsgType =
    Tlerror
  | Rlerror
  | Tstatfs
  | Rstatfs
  | Tlopen
  | Rlopen
  | Tlcreate
  | Rlcreate
  | Tsymlink
  | Rsymlink
  | Tmknod
  | Rmknod
  | Trename
  | Rrename
  | Treadlink
  | Rreadlink
  | Tgetattr
  | Rgetattr
  | Tsetattr
  | Rsetattr
  | Txattrwalk
  | Rxattrwalk
  | Txattrcreate
  | Rxattrcreate
  | Treaddir
  | Rreaddir
  | Tfsync
  | Rfsync
  | Tlock
  | Rlock
  | Tgetlock
  | Rgetlock
  | Tlink
  | Rlink
  | Tmkdir
  | Rmkdir
  | Trenameat
  | Rrenameat
  | Tunlinkat
  | Runlinkat
  | Tversion
  | Rversion
  | Tauth
  | Rauth
  | Tattach
  | Rattach
  | Tflush
  | Rflush
  | Twalk
  | Rwalk
  | Tread
  | Rread
  | Twrite
  | Rwrite
  | Tclunk
  | Rclunk
  | Tremove
  | Rremove

primrec MsgType_as_u8 :: "MsgType \<Rightarrow> u8" where
  "MsgType_as_u8 MsgType.Tlerror = 6"
| "MsgType_as_u8 MsgType.Rlerror = 7"
| "MsgType_as_u8 MsgType.Tstatfs = 8"
| "MsgType_as_u8 MsgType.Rstatfs = 9"
| "MsgType_as_u8 MsgType.Tlopen = 12"
| "MsgType_as_u8 MsgType.Rlopen = 13"
| "MsgType_as_u8 MsgType.Tlcreate = 14"
| "MsgType_as_u8 MsgType.Rlcreate = 15"
| "MsgType_as_u8 MsgType.Tsymlink = 16"
| "MsgType_as_u8 MsgType.Rsymlink = 17"
| "MsgType_as_u8 MsgType.Tmknod = 18"
| "MsgType_as_u8 MsgType.Rmknod = 19"
| "MsgType_as_u8 MsgType.Trename = 20"
| "MsgType_as_u8 MsgType.Rrename = 21"
| "MsgType_as_u8 MsgType.Treadlink = 22"
| "MsgType_as_u8 MsgType.Rreadlink = 23"
| "MsgType_as_u8 MsgType.Tgetattr = 24"
| "MsgType_as_u8 MsgType.Rgetattr = 25"
| "MsgType_as_u8 MsgType.Tsetattr = 26"
| "MsgType_as_u8 MsgType.Rsetattr = 27"
| "MsgType_as_u8 MsgType.Txattrwalk = 30"
| "MsgType_as_u8 MsgType.Rxattrwalk = 31"
| "MsgType_as_u8 MsgType.Txattrcreate = 32"
| "MsgType_as_u8 MsgType.Rxattrcreate = 33"
| "MsgType_as_u8 MsgType.Treaddir = 40"
| "MsgType_as_u8 MsgType.Rreaddir = 41"
| "MsgType_as_u8 MsgType.Tfsync = 50"
| "MsgType_as_u8 MsgType.Rfsync = 51"
| "MsgType_as_u8 MsgType.Tlock = 52"
| "MsgType_as_u8 MsgType.Rlock = 53"
| "MsgType_as_u8 MsgType.Tgetlock = 54"
| "MsgType_as_u8 MsgType.Rgetlock = 55"
| "MsgType_as_u8 MsgType.Tlink = 70"
| "MsgType_as_u8 MsgType.Rlink = 71"
| "MsgType_as_u8 MsgType.Tmkdir = 72"
| "MsgType_as_u8 MsgType.Rmkdir = 73"
| "MsgType_as_u8 MsgType.Trenameat = 74"
| "MsgType_as_u8 MsgType.Rrenameat = 75"
| "MsgType_as_u8 MsgType.Tunlinkat = 76"
| "MsgType_as_u8 MsgType.Runlinkat = 77"
| "MsgType_as_u8 MsgType.Tversion = 100"
| "MsgType_as_u8 MsgType.Rversion = 101"
| "MsgType_as_u8 MsgType.Tauth = 102"
| "MsgType_as_u8 MsgType.Rauth = 103"
| "MsgType_as_u8 MsgType.Tattach = 104"
| "MsgType_as_u8 MsgType.Rattach = 105"
| "MsgType_as_u8 MsgType.Tflush = 108"
| "MsgType_as_u8 MsgType.Rflush = 109"
| "MsgType_as_u8 MsgType.Twalk = 110"
| "MsgType_as_u8 MsgType.Rwalk = 111"
| "MsgType_as_u8 MsgType.Tread = 116"
| "MsgType_as_u8 MsgType.Rread = 117"
| "MsgType_as_u8 MsgType.Twrite = 118"
| "MsgType_as_u8 MsgType.Rwrite = 119"
| "MsgType_as_u8 MsgType.Tclunk = 120"
| "MsgType_as_u8 MsgType.Rclunk = 121"
| "MsgType_as_u8 MsgType.Tremove = 122"
| "MsgType_as_u8 MsgType.Rremove = 123"

definition MsgType_variants :: "MsgType list" where
  "MsgType_variants =
     [MsgType.Tlerror, MsgType.Rlerror, MsgType.Tstatfs, MsgType.Rstatfs,
      MsgType.Tlopen, MsgType.Rlopen, MsgType.Tlcreate, MsgType.Rlcreate,
      MsgType.Tsymlink, MsgType.Rsymlink, MsgType.Tmknod, MsgType.Rmknod,
      MsgType.Trename, MsgType.Rrename, MsgType.Treadlink, MsgType.Rreadlink,
      MsgType.Tgetattr, MsgType.Rgetattr, MsgType.Tsetattr, MsgType.Rsetattr,
      MsgType.Txattrwalk, MsgType.Rxattrwalk, MsgType.Txattrcreate, MsgType.Rxattrcreate,
      MsgType.Treaddir, MsgType.Rreaddir, MsgType.Tfsync, MsgType.Rfsync,
      MsgType.Tlock, MsgType.Rlock, MsgType.Tgetlock, MsgType.Rgetlock,
      MsgType.Tlink, MsgType.Rlink, MsgType.Tmkdir, MsgType.Rmkdir,
      MsgType.Trenameat, MsgType.Rrenameat, MsgType.Tunlinkat, MsgType.Runlinkat,
      MsgType.Tversion, MsgType.Rversion, MsgType.Tauth, MsgType.Rauth,
      MsgType.Tattach, MsgType.Rattach, MsgType.Tflush, MsgType.Rflush,
      MsgType.Twalk, MsgType.Rwalk, MsgType.Tread, MsgType.Rread,
      MsgType.Twrite, MsgType.Rwrite, MsgType.Tclunk, MsgType.Rclunk,
      MsgType.Tremove, MsgType.Rremove]"

definition MsgType_from_u8 :: "u8 \<Rightarrow> MsgType option" where
  "MsgType_from_u8 n = map_of (map (\<lambda>t. (MsgType_as_u8 t, t)) MsgType_variants) n"

definition MsgType_is_r :: "MsgType \<Rightarrow> bool" where
  "MsgType_is_r t \<longleftrightarrow>
     (case t of
        MsgType.Rlerror \<Rightarrow> True
      | MsgType.Rstatfs \<Rightarrow> True
      | MsgType.Rlopen \<Rightarrow> True
      | MsgType.Rlcreate \<Rightarrow> True
      | MsgType.Rsymlink \<Rightarrow> True
      | MsgType.Rmknod \<Rightarrow> True
      | MsgType.Rrename \<Rightarrow> True
      | MsgType.Rreadlink \<Rightarrow> True
      | MsgType.Rgetattr \<Rightarrow> True
      | MsgType.Rsetattr \<Rightarrow> True
      | MsgType.Rxattrwalk \<Rightarrow> True
      | MsgType.Rxattrcreate \<Rightarrow> True
      | MsgType.Rreaddir \<Rightarrow> True
      | MsgType.Rfsync \<Rightarrow> True
      | MsgType.Rlock \<Rightarrow> True
      | MsgType.Rgetlock \<Rightarrow> True
      | MsgType.Rlink \<Rightarrow> True
      | MsgType.Rmkdir \<Rightarrow> True
      | MsgType.Rrenameat \<Rightarrow> True
      | MsgType.Runlinkat \<Rightarrow> True
      | MsgType.Rversion \<Rightarrow> True
      | MsgType.Rauth \<Rightarrow> True
      | MsgType.Rattach \<Rightarrow> True
      | MsgType.Rflush \<Rightarrow> True
      | MsgType.Rwalk \<Rightarrow> True
      | MsgType.Rread \<Rightarrow> True
      | MsgType.Rwrite \<Rightarrow> True
      | MsgType.Rclunk \<Rightarrow> True
      | MsgType.Rremove \<Rightarrow> True
      | _ \<Rightarrow> False)"

definition MsgType_is_t :: "MsgType \<Rightarrow> bool" where
  "MsgType_is_t t \<longleftrightarrow> \<not> MsgType_is_r t"

section \<open>Messages\<close>

text \<open>
  The message bodies; the constructors take the fields in the order the enumeration
  declares them.
\<close>

datatype (plugins only: code size) Fcall =
    Rlerror u32  \<comment> \<open>ecode\<close>
  | Tstatfs u32  \<comment> \<open>fid\<close>
  | Rstatfs Statfs  \<comment> \<open>statfs\<close>
  | Tlopen u32 u32  \<comment> \<open>fid, flags\<close>
  | Rlopen Qid u32  \<comment> \<open>qid, iounit\<close>
  | Tlcreate u32 string u32 u32 u32  \<comment> \<open>fid, name, flags, mode, gid\<close>
  | Rlcreate Qid u32  \<comment> \<open>qid, iounit\<close>
  | Tsymlink u32 string string u32  \<comment> \<open>fid, name, symtgt, gid\<close>
  | Rsymlink Qid  \<comment> \<open>qid\<close>
  | Tmknod u32 string u32 u32 u32 u32  \<comment> \<open>dfid, name, mode, major, minor, gid\<close>
  | Rmknod Qid  \<comment> \<open>qid\<close>
  | Trename u32 u32 string  \<comment> \<open>fid, dfid, name\<close>
  | Rrename
  | Treadlink u32  \<comment> \<open>fid\<close>
  | Rreadlink string  \<comment> \<open>target\<close>
  | Tgetattr u32 GetattrMask  \<comment> \<open>fid, req_mask\<close>
  | Rgetattr GetattrMask Qid Stat  \<comment> \<open>valid, qid, stat\<close>
  | Tsetattr u32 SetattrMask SetAttr  \<comment> \<open>fid, valid, stat\<close>
  | Rsetattr
  | Txattrwalk u32 u32 string  \<comment> \<open>fid, newfid, name\<close>
  | Rxattrwalk u64  \<comment> \<open>size\<close>
  | Txattrcreate u32 string u64 u32  \<comment> \<open>fid, name, attr_size, flags\<close>
  | Rxattrcreate
  | Treaddir u32 u64 u32  \<comment> \<open>fid, offset, count\<close>
  | Rreaddir DirEntryData  \<comment> \<open>data\<close>
  | Tfsync u32  \<comment> \<open>fid\<close>
  | Rfsync
  | Tlock u32 Flock  \<comment> \<open>fid, flock\<close>
  | Rlock LockStatus  \<comment> \<open>status\<close>
  | Tgetlock u32 Getlock  \<comment> \<open>fid, flock\<close>
  | Rgetlock Getlock  \<comment> \<open>flock\<close>
  | Tlink u32 u32 string  \<comment> \<open>dfid, fid, name\<close>
  | Rlink
  | Tmkdir u32 string u32 u32  \<comment> \<open>dfid, name, mode, gid\<close>
  | Rmkdir Qid  \<comment> \<open>qid\<close>
  | Trenameat u32 string u32 string  \<comment> \<open>olddirfid, oldname, newdirfid, newname\<close>
  | Rrenameat
  | Tunlinkat u32 string u32  \<comment> \<open>dirfd, name, flags\<close>
  | Runlinkat
  | Tauth u32 string string u32  \<comment> \<open>afid, uname, aname, n_uname\<close>
  | Rauth Qid  \<comment> \<open>aqid\<close>
  | Tattach u32 u32 string string u32  \<comment> \<open>fid, afid, uname, aname, n_uname\<close>
  | Rattach Qid  \<comment> \<open>qid\<close>
  | Tversion u32 string  \<comment> \<open>msize, version\<close>
  | Rversion u32 string  \<comment> \<open>msize, version\<close>
  | Tflush u16  \<comment> \<open>oldtag\<close>
  | Rflush
  | Twalk u32 u32 "string list"  \<comment> \<open>fid, newfid, wnames\<close>
  | Rwalk "Qid list"  \<comment> \<open>wqids\<close>
  | Tread u32 u64 u32  \<comment> \<open>fid, offset, count\<close>
  | Rread Data  \<comment> \<open>data\<close>
  | Twrite u32 u64 Data  \<comment> \<open>fid, offset, data\<close>
  | Rwrite u32  \<comment> \<open>count\<close>
  | Tclunk u32  \<comment> \<open>fid\<close>
  | Rclunk
  | Tremove u32  \<comment> \<open>fid\<close>
  | Rremove

primrec MsgType_from :: "Fcall \<Rightarrow> MsgType" where
  "MsgType_from (Fcall.Rlerror _) = MsgType.Rlerror"
| "MsgType_from (Fcall.Tstatfs _) = MsgType.Tstatfs"
| "MsgType_from (Fcall.Rstatfs _) = MsgType.Rstatfs"
| "MsgType_from (Fcall.Tlopen _ _) = MsgType.Tlopen"
| "MsgType_from (Fcall.Rlopen _ _) = MsgType.Rlopen"
| "MsgType_from (Fcall.Tlcreate _ _ _ _ _) = MsgType.Tlcreate"
| "MsgType_from (Fcall.Rlcreate _ _) = MsgType.Rlcreate"
| "MsgType_from (Fcall.Tsymlink _ _ _ _) = MsgType.Tsymlink"
| "MsgType_from (Fcall.Rsymlink _) = MsgType.Rsymlink"
| "MsgType_from (Fcall.Tmknod _ _ _ _ _ _) = MsgType.Tmknod"
| "MsgType_from (Fcall.Rmknod _) = MsgType.Rmknod"
| "MsgType_from (Fcall.Trename _ _ _) = MsgType.Trename"
| "MsgType_from Fcall.Rrename = MsgType.Rrename"
| "MsgType_from (Fcall.Treadlink _) = MsgType.Treadlink"
| "MsgType_from (Fcall.Rreadlink _) = MsgType.Rreadlink"
| "MsgType_from (Fcall.Tgetattr _ _) = MsgType.Tgetattr"
| "MsgType_from (Fcall.Rgetattr _ _ _) = MsgType.Rgetattr"
| "MsgType_from (Fcall.Tsetattr _ _ _) = MsgType.Tsetattr"
| "MsgType_from Fcall.Rsetattr = MsgType.Rsetattr"
| "MsgType_from (Fcall.Txattrwalk _ _ _) = MsgType.Txattrwalk"
| "MsgType_from (Fcall.Rxattrwalk _) = MsgType.Rxattrwalk"
| "MsgType_from (Fcall.Txattrcreate _ _ _ _) = MsgType.Txattrcreate"
| "MsgType_from Fcall.Rxattrcreate = MsgType.Rxattrcreate"
| "MsgType_from (Fcall.Treaddir _ _ _) = MsgType.Treaddir"
| "MsgType_from (Fcall.Rreaddir _) = MsgType.Rreaddir"
| "MsgType_from (Fcall.Tfsync _) = MsgType.Tfsync"
| "MsgType_from Fcall.Rfsync = MsgType.Rfsync"
| "MsgType_from (Fcall.Tlock _ _) = MsgType.Tlock"
| "MsgType_from (Fcall.Rlock _) = MsgType.Rlock"
| "MsgType_from (Fcall.Tgetlock _ _) = MsgType.Tgetlock"
| "MsgType_from (Fcall.Rgetlock _) = MsgType.Rgetlock"
| "MsgType_from (Fcall.Tlink _ _ _) = MsgType.Tlink"
| "MsgType_from Fcall.Rlink = MsgType.Rlink"
| "MsgType_from (Fcall.Tmkdir _ _ _ _) = MsgType.Tmkdir"
| "MsgType_from (Fcall.Rmkdir _) = MsgType.Rmkdir"
| "MsgType_from (Fcall.Trenameat _ _ _ _) = MsgType.Trenameat"
| "MsgType_from Fcall.Rrenameat = MsgType.Rrenameat"
| "MsgType_from (Fcall.Tunlinkat _ _ _) = MsgType.Tunlinkat"
| "MsgType_from Fcall.Runlinkat = MsgType.Runlinkat"
| "MsgType_from (Fcall.Tauth _ _ _ _) = MsgType.Tauth"
| "MsgType_from (Fcall.Rauth _) = MsgType.Rauth"
| "MsgType_from (Fcall.Tattach _ _ _ _ _) = MsgType.Tattach"
| "MsgType_from (Fcall.Rattach _) = MsgType.Rattach"
| "MsgType_from (Fcall.Tversion _ _) = MsgType.Tversion"
| "MsgType_from (Fcall.Rversion _ _) = MsgType.Rversion"
| "MsgType_from (Fcall.Tflush _) = MsgType.Tflush"
| "MsgType_from Fcall.Rflush = MsgType.Rflush"
| "MsgType_from (Fcall.Twalk _ _ _) = MsgType.Twalk"
| "MsgType_from (Fcall.Rwalk _) = MsgType.Rwalk"
| "MsgType_from (Fcall.Tread _ _ _) = MsgType.Tread"
| "MsgType_from (Fcall.Rread _) = MsgType.Rread"
| "MsgType_from (Fcall.Twrite _ _ _) = MsgType.Twrite"
| "MsgType_from (Fcall.Rwrite _) = MsgType.Rwrite"
| "MsgType_from (Fcall.Tclunk _) = MsgType.Tclunk"
| "MsgType_from Fcall.Rclunk = MsgType.Rclunk"
| "MsgType_from (Fcall.Tremove _) = MsgType.Tremove"
| "MsgType_from Fcall.Rremove = MsgType.Rremove"

definition fids :: "Fcall \<Rightarrow> u32 list" where
  "fids self =
     (case self of
        Fcall.Tstatfs fid \<Rightarrow> [fid]
      | Fcall.Tlopen fid _ \<Rightarrow> [fid]
      | Fcall.Tlcreate fid _ _ _ _ \<Rightarrow> [fid]
      | Fcall.Tsymlink fid _ _ _ \<Rightarrow> [fid]
      | Fcall.Tmknod dfid _ _ _ _ _ \<Rightarrow> [dfid]
      | Fcall.Trename fid dfid _ \<Rightarrow> [fid, dfid]
      | Fcall.Treadlink fid \<Rightarrow> [fid]
      | Fcall.Tgetattr fid _ \<Rightarrow> [fid]
      | Fcall.Tsetattr fid _ _ \<Rightarrow> [fid]
      | Fcall.Txattrwalk fid _ _ \<Rightarrow> [fid]
      | Fcall.Txattrcreate fid _ _ _ \<Rightarrow> [fid]
      | Fcall.Treaddir fid _ _ \<Rightarrow> [fid]
      | Fcall.Tfsync fid \<Rightarrow> [fid]
      | Fcall.Tlock fid _ \<Rightarrow> [fid]
      | Fcall.Tgetlock fid _ \<Rightarrow> [fid]
      | Fcall.Tlink dfid fid _ \<Rightarrow> [dfid, fid]
      | Fcall.Tmkdir dfid _ _ _ \<Rightarrow> [dfid]
      | Fcall.Trenameat olddirfid _ newdirfid _ \<Rightarrow> [olddirfid, newdirfid]
      | Fcall.Tunlinkat dirfd _ _ \<Rightarrow> [dirfd]
      | Fcall.Tattach _ afid _ _ _ \<Rightarrow> (if afid \<noteq> NOFID then [afid] else [])
      | Fcall.Twalk fid _ _ \<Rightarrow> [fid]
      | Fcall.Tread fid _ _ \<Rightarrow> [fid]
      | Fcall.Twrite fid _ _ \<Rightarrow> [fid]
      | Fcall.Tclunk fid \<Rightarrow> [fid]
      | Fcall.Tremove fid \<Rightarrow> [fid]
      | _ \<Rightarrow> [])"

definition newfid :: "Fcall \<Rightarrow> u32 option" where
  "newfid self =
     (case self of
        Fcall.Txattrwalk _ newfid _ \<Rightarrow> Some newfid
      | Fcall.Tauth afid _ _ _ \<Rightarrow> Some afid
      | Fcall.Tattach fid _ _ _ _ \<Rightarrow> Some fid
      | Fcall.Twalk _ newfid _ \<Rightarrow> Some newfid
      | _ \<Rightarrow> None)"

definition qids :: "Fcall \<Rightarrow> Qid list" where
  "qids self =
     (case self of
        Fcall.Rlopen qid _ \<Rightarrow> [qid]
      | Fcall.Rlcreate qid _ \<Rightarrow> [qid]
      | Fcall.Rsymlink qid \<Rightarrow> [qid]
      | Fcall.Rmknod qid \<Rightarrow> [qid]
      | Fcall.Rgetattr _ qid _ \<Rightarrow> [qid]
      | Fcall.Rmkdir qid \<Rightarrow> [qid]
      | Fcall.Rauth aqid \<Rightarrow> [aqid]
      | Fcall.Rattach qid \<Rightarrow> [qid]
      | Fcall.Rwalk wqids \<Rightarrow> wqids
      | _ \<Rightarrow> [])"

record Msg =
  msg_tag :: u16
  msg_body :: Fcall

end
