(* ===== verification/Serialize.thy ===== *)
theory Serialize
  imports Wire Fcall_Types
begin

text \<open>
  The \<open>Encodable\<close> and \<open>Decodable\<close> implementations of
  \<^verbatim>\<open>crates/9p/src/serialize.rs\<close>, in the order of the file, and the two entry points
  \<open>read_msg\<close> and \<open>write_msg\<close>. The lemmas that follow show, type by type, that the
  implementations keep the contracts of the traits (the locales of \<open>Wire\<close>). The values
  they are stated for (\<open>valid_...\<close>) are those a Rust value of the type can have whose
  lengths fit the length fields of the protocol.
\<close>

section \<open>Encoders\<close>

definition encode_u8 :: "u8 \<Rightarrow> encode_act" where
  "encode_u8 self w = (case write_all (le_bytes 1 (unat self)) w of Inl e \<Rightarrow> Inl e | Inr w' \<Rightarrow> Inr (1, w'))"

definition encode_u16 :: "u16 \<Rightarrow> encode_act" where
  "encode_u16 self w = (case write_all (le_bytes 2 (unat self)) w of Inl e \<Rightarrow> Inl e | Inr w' \<Rightarrow> Inr (2, w'))"

definition encode_u32 :: "u32 \<Rightarrow> encode_act" where
  "encode_u32 self w = (case write_all (le_bytes 4 (unat self)) w of Inl e \<Rightarrow> Inl e | Inr w' \<Rightarrow> Inr (4, w'))"

definition encode_u64 :: "u64 \<Rightarrow> encode_act" where
  "encode_u64 self w = (case write_all (le_bytes 8 (unat self)) w of Inl e \<Rightarrow> Inl e | Inr w' \<Rightarrow> Inr (8, w'))"

definition encode_String :: "string \<Rightarrow> encode_act" where
  "encode_String self w =
     (case encode_u16 (of_nat (length self)) w of
        Inl e \<Rightarrow> Inl e
      | Inr (bytes, w1) \<Rightarrow>
          (case write_all (as_bytes self) w1 of
             Inl e \<Rightarrow> Inl e
           | Inr w2 \<Rightarrow> Inr (bytes + length self, w2)))"

definition encode_Qid :: "Qid \<Rightarrow> encode_act" where
  "encode_Qid self =
     encode_seq [encode_u8 (qid_typ self), encode_u32 (qid_version self), encode_u64 (qid_path self)]"

definition encode_Statfs :: "Statfs \<Rightarrow> encode_act" where
  "encode_Statfs self =
     encode_seq [encode_u32 (statfs_typ self), encode_u32 (statfs_bsize self),
                 encode_u64 (statfs_blocks self), encode_u64 (statfs_bfree self),
                 encode_u64 (statfs_bavail self), encode_u64 (statfs_files self),
                 encode_u64 (statfs_ffree self), encode_u64 (statfs_fsid self),
                 encode_u32 (statfs_namelen self)]"

definition encode_Time :: "Time \<Rightarrow> encode_act" where
  "encode_Time self =
     encode_seq [encode_u64 (time_sec self), encode_u64 (time_nsec self)]"

definition encode_Stat :: "Stat \<Rightarrow> encode_act" where
  "encode_Stat self =
     encode_seq [encode_u32 (stat_mode self), encode_u32 (stat_uid self),
                 encode_u32 (stat_gid self), encode_u64 (stat_nlink self),
                 encode_u64 (stat_rdev self), encode_u64 (stat_size self),
                 encode_u64 (stat_blksize self), encode_u64 (stat_blocks self),
                 encode_Time (stat_atime self), encode_Time (stat_mtime self),
                 encode_Time (stat_ctime self)]"

definition encode_SetAttr :: "SetAttr \<Rightarrow> encode_act" where
  "encode_SetAttr self =
     encode_seq [encode_u32 (setattr_mode self), encode_u32 (setattr_uid self),
                 encode_u32 (setattr_gid self), encode_u64 (setattr_size self),
                 encode_Time (setattr_atime self), encode_Time (setattr_mtime self)]"

definition encode_DirEntry :: "DirEntry \<Rightarrow> encode_act" where
  "encode_DirEntry self =
     encode_seq [encode_Qid (dirent_qid self), encode_u64 (dirent_offset self),
                 encode_u8 (dirent_typ self), encode_String (dirent_name self)]"

text \<open>The length field of a directory listing is its size in bytes.\<close>

definition encode_DirEntryData :: "DirEntryData \<Rightarrow> encode_act" where
  "encode_DirEntryData self =
     encode_seq (encode_u32 (DirEntryData_size self) # map encode_DirEntry (dirents_data self))"

fun encode_Data :: "Data \<Rightarrow> encode_act" where
  "encode_Data (Data bs) w =
     (case encode_u32 (of_nat (length bs)) w of
        Inl e \<Rightarrow> Inl e
      | Inr (n, w1) \<Rightarrow>
          (case write_all bs w1 of
             Inl e \<Rightarrow> Inl e
           | Inr w2 \<Rightarrow> Inr (n + length bs, w2)))"

definition encode_Flock :: "Flock \<Rightarrow> encode_act" where
  "encode_Flock self =
     encode_seq [encode_u8 (flock_typ self), encode_u32 (flock_flags self),
                 encode_u64 (flock_start self), encode_u64 (flock_length self),
                 encode_u32 (flock_proc_id self), encode_String (flock_client_id self)]"

definition encode_Getlock :: "Getlock \<Rightarrow> encode_act" where
  "encode_Getlock self =
     encode_seq [encode_u8 (getlock_typ self), encode_u64 (getlock_start self),
                 encode_u64 (getlock_length self), encode_u32 (getlock_proc_id self),
                 encode_String (getlock_client_id self)]"

definition encode_Vec :: "('a \<Rightarrow> encode_act) \<Rightarrow> 'a list \<Rightarrow> encode_act" where
  "encode_Vec encode_elem self =
     encode_seq (encode_u16 (of_nat (length self)) # map encode_elem self)"

text \<open>
  \<open>encode_Fcall\<close> is the \<open>match\<close> on the message body: the fields appended to the chain
  that already holds the type and the tag.
\<close>

primrec encode_Fcall :: "Fcall \<Rightarrow> encode_act list" where
  "encode_Fcall (Fcall.Rlerror ecode) = [encode_u32 ecode]"
| "encode_Fcall (Fcall.Tstatfs fid) = [encode_u32 fid]"
| "encode_Fcall (Fcall.Rstatfs statfs) = [encode_Statfs statfs]"
| "encode_Fcall (Fcall.Tlopen fid flags) = [encode_u32 fid, encode_u32 flags]"
| "encode_Fcall (Fcall.Rlopen qid iounit) = [encode_Qid qid, encode_u32 iounit]"
| "encode_Fcall (Fcall.Tlcreate fid name flags mode gid) =
     [encode_u32 fid, encode_String name, encode_u32 flags, encode_u32 mode, encode_u32 gid]"
| "encode_Fcall (Fcall.Rlcreate qid iounit) = [encode_Qid qid, encode_u32 iounit]"
| "encode_Fcall (Fcall.Tsymlink fid name symtgt gid) =
     [encode_u32 fid, encode_String name, encode_String symtgt, encode_u32 gid]"
| "encode_Fcall (Fcall.Rsymlink qid) = [encode_Qid qid]"
| "encode_Fcall (Fcall.Tmknod dfid name mode major minor gid) =
     [encode_u32 dfid, encode_String name, encode_u32 mode, encode_u32 major,
      encode_u32 minor, encode_u32 gid]"
| "encode_Fcall (Fcall.Rmknod qid) = [encode_Qid qid]"
| "encode_Fcall (Fcall.Trename fid dfid name) =
     [encode_u32 fid, encode_u32 dfid, encode_String name]"
| "encode_Fcall Fcall.Rrename = []"
| "encode_Fcall (Fcall.Treadlink fid) = [encode_u32 fid]"
| "encode_Fcall (Fcall.Rreadlink target) = [encode_String target]"
| "encode_Fcall (Fcall.Tgetattr fid req_mask) = [encode_u32 fid, encode_u64 req_mask]"
| "encode_Fcall (Fcall.Rgetattr msk qid stat) =
     [encode_u64 msk, encode_Qid qid, encode_Stat stat, encode_u64 0, encode_u64 0,
      encode_u64 0, encode_u64 0]"
| "encode_Fcall (Fcall.Tsetattr fid msk stat) =
     [encode_u32 fid, encode_u32 msk, encode_SetAttr stat]"
| "encode_Fcall Fcall.Rsetattr = []"
| "encode_Fcall (Fcall.Txattrwalk fid nfid name) =
     [encode_u32 fid, encode_u32 nfid, encode_String name]"
| "encode_Fcall (Fcall.Rxattrwalk sz) = [encode_u64 sz]"
| "encode_Fcall (Fcall.Txattrcreate fid name attr_size flags) =
     [encode_u32 fid, encode_String name, encode_u64 attr_size, encode_u32 flags]"
| "encode_Fcall Fcall.Rxattrcreate = []"
| "encode_Fcall (Fcall.Treaddir fid offset cnt) =
     [encode_u32 fid, encode_u64 offset, encode_u32 cnt]"
| "encode_Fcall (Fcall.Rreaddir dat) = [encode_DirEntryData dat]"
| "encode_Fcall (Fcall.Tfsync fid) = [encode_u32 fid]"
| "encode_Fcall Fcall.Rfsync = []"
| "encode_Fcall (Fcall.Tlock fid flock) = [encode_u32 fid, encode_Flock flock]"
| "encode_Fcall (Fcall.Rlock status) = [encode_u8 status]"
| "encode_Fcall (Fcall.Tgetlock fid flock) = [encode_u32 fid, encode_Getlock flock]"
| "encode_Fcall (Fcall.Rgetlock flock) = [encode_Getlock flock]"
| "encode_Fcall (Fcall.Tlink dfid fid name) = [encode_u32 dfid, encode_u32 fid, encode_String name]"
| "encode_Fcall Fcall.Rlink = []"
| "encode_Fcall (Fcall.Tmkdir dfid name mode gid) =
     [encode_u32 dfid, encode_String name, encode_u32 mode, encode_u32 gid]"
| "encode_Fcall (Fcall.Rmkdir qid) = [encode_Qid qid]"
| "encode_Fcall (Fcall.Trenameat olddirfid oldname newdirfid newname) =
     [encode_u32 olddirfid, encode_String oldname, encode_u32 newdirfid, encode_String newname]"
| "encode_Fcall Fcall.Rrenameat = []"
| "encode_Fcall (Fcall.Tunlinkat dirfd name flags) =
     [encode_u32 dirfd, encode_String name, encode_u32 flags]"
| "encode_Fcall Fcall.Runlinkat = []"
| "encode_Fcall (Fcall.Tauth afid uname aname n_uname) =
     [encode_u32 afid, encode_String uname, encode_String aname, encode_u32 n_uname]"
| "encode_Fcall (Fcall.Rauth aqid) = [encode_Qid aqid]"
| "encode_Fcall (Fcall.Tattach fid afid uname aname n_uname) =
     [encode_u32 fid, encode_u32 afid, encode_String uname, encode_String aname, encode_u32 n_uname]"
| "encode_Fcall (Fcall.Rattach qid) = [encode_Qid qid]"
| "encode_Fcall (Fcall.Tversion msize version) = [encode_u32 msize, encode_String version]"
| "encode_Fcall (Fcall.Rversion msize version) = [encode_u32 msize, encode_String version]"
| "encode_Fcall (Fcall.Tflush oldtag) = [encode_u16 oldtag]"
| "encode_Fcall Fcall.Rflush = []"
| "encode_Fcall (Fcall.Twalk fid nfid wnames) =
     [encode_u32 fid, encode_u32 nfid, encode_Vec encode_String wnames]"
| "encode_Fcall (Fcall.Rwalk wqids) = [encode_Vec encode_Qid wqids]"
| "encode_Fcall (Fcall.Tread fid offset cnt) = [encode_u32 fid, encode_u64 offset, encode_u32 cnt]"
| "encode_Fcall (Fcall.Rread dat) = [encode_Data dat]"
| "encode_Fcall (Fcall.Twrite fid offset dat) =
     [encode_u32 fid, encode_u64 offset, encode_Data dat]"
| "encode_Fcall (Fcall.Rwrite cnt) = [encode_u32 cnt]"
| "encode_Fcall (Fcall.Tclunk fid) = [encode_u32 fid]"
| "encode_Fcall Fcall.Rclunk = []"
| "encode_Fcall (Fcall.Tremove fid) = [encode_u32 fid]"
| "encode_Fcall Fcall.Rremove = []"

definition encode_Msg :: "Msg \<Rightarrow> encode_act" where
  "encode_Msg self =
     (let typ = MsgType_from (msg_body self)
      in encode_seq ([encode_u8 (MsgType_as_u8 typ), encode_u16 (msg_tag self)]
           @ encode_Fcall (msg_body self)))"

section \<open>Decoders\<close>

definition decode_u8 :: "u8 decode_act" where
  "decode_u8 = bnd (read_exact 1) (\<lambda>bs. ret (of_nat (le_nat bs)))"

definition decode_u16 :: "u16 decode_act" where
  "decode_u16 = bnd (read_exact 2) (\<lambda>bs. ret (of_nat (le_nat bs)))"

definition decode_u32 :: "u32 decode_act" where
  "decode_u32 = bnd (read_exact 4) (\<lambda>bs. ret (of_nat (le_nat bs)))"

definition decode_u64 :: "u64 decode_act" where
  "decode_u64 = bnd (read_exact 8) (\<lambda>bs. ret (of_nat (le_nat bs)))"

definition utf8_error :: io_error where
  "utf8_error = Simple Other ''Invalid UTF-8 sequence''"

definition from_utf8 :: "u8 list \<Rightarrow> string decode_act" where
  "from_utf8 bs = (if utf8_valid bs then ret (from_bytes bs) else fail utf8_error)"

definition decode_String :: "string decode_act" where
  "decode_String = bnd decode_u16 (\<lambda>len. bnd (read_exact (unat len)) from_utf8)"

text \<open>\<open>decode!(Flags, buf)\<close>: read the bits and drop those that are no flag.\<close>

definition decode_flags :: "'a::len word decode_act \<Rightarrow> 'a word \<Rightarrow> 'a word decode_act" where
  "decode_flags d all = bnd d (\<lambda>bits. ret (from_bits_truncate all bits))"

definition decode_Qid :: "Qid decode_act" where
  "decode_Qid =
     bnd (decode_flags decode_u8 QidType_all) (\<lambda>typ.
     bnd decode_u32 (\<lambda>version.
     bnd decode_u64 (\<lambda>path.
       ret \<lparr>qid_typ = typ, qid_version = version, qid_path = path\<rparr>)))"

definition decode_Statfs :: "Statfs decode_act" where
  "decode_Statfs =
     bnd decode_u32 (\<lambda>typ.
     bnd decode_u32 (\<lambda>bsize.
     bnd decode_u64 (\<lambda>blocks.
     bnd decode_u64 (\<lambda>bfree.
     bnd decode_u64 (\<lambda>bavail.
     bnd decode_u64 (\<lambda>files.
     bnd decode_u64 (\<lambda>ffree.
     bnd decode_u64 (\<lambda>fsid.
     bnd decode_u32 (\<lambda>namelen.
       ret \<lparr>statfs_typ = typ, statfs_bsize = bsize, statfs_blocks = blocks,
            statfs_bfree = bfree, statfs_bavail = bavail, statfs_files = files,
            statfs_ffree = ffree, statfs_fsid = fsid, statfs_namelen = namelen\<rparr>)))))))))"

definition decode_Time :: "Time decode_act" where
  "decode_Time =
     bnd decode_u64 (\<lambda>sec.
     bnd decode_u64 (\<lambda>nsec.
       ret \<lparr>time_sec = sec, time_nsec = nsec\<rparr>))"

definition decode_Stat :: "Stat decode_act" where
  "decode_Stat =
     bnd decode_u32 (\<lambda>mode.
     bnd decode_u32 (\<lambda>uid.
     bnd decode_u32 (\<lambda>gid.
     bnd decode_u64 (\<lambda>nlink.
     bnd decode_u64 (\<lambda>rdev.
     bnd decode_u64 (\<lambda>size.
     bnd decode_u64 (\<lambda>blksize.
     bnd decode_u64 (\<lambda>blocks.
     bnd decode_Time (\<lambda>atime.
     bnd decode_Time (\<lambda>mtime.
     bnd decode_Time (\<lambda>ctime.
       ret \<lparr>stat_mode = mode, stat_uid = uid, stat_gid = gid, stat_nlink = nlink,
            stat_rdev = rdev, stat_size = size, stat_blksize = blksize, stat_blocks = blocks,
            stat_atime = atime, stat_mtime = mtime, stat_ctime = ctime\<rparr>)))))))))))"

definition decode_SetAttr :: "SetAttr decode_act" where
  "decode_SetAttr =
     bnd decode_u32 (\<lambda>mode.
     bnd decode_u32 (\<lambda>uid.
     bnd decode_u32 (\<lambda>gid.
     bnd decode_u64 (\<lambda>size.
     bnd decode_Time (\<lambda>atime.
     bnd decode_Time (\<lambda>mtime.
       ret \<lparr>setattr_mode = mode, setattr_uid = uid, setattr_gid = gid, setattr_size = size,
            setattr_atime = atime, setattr_mtime = mtime\<rparr>))))))"

definition decode_DirEntry :: "DirEntry decode_act" where
  "decode_DirEntry =
     bnd decode_Qid (\<lambda>qid.
     bnd decode_u64 (\<lambda>offset.
     bnd decode_u8 (\<lambda>typ.
     bnd decode_String (\<lambda>name.
       ret \<lparr>dirent_qid = qid, dirent_offset = offset, dirent_typ = typ, dirent_name = name\<rparr>))))"

text \<open>The loop \<open>for _ in 0..n\<close> that pushes one decoded element per round.\<close>

fun decode_n :: "nat \<Rightarrow> 'a decode_act \<Rightarrow> 'a list decode_act" where
  "decode_n 0 d = ret []"
| "decode_n (Suc n) d = bnd d (\<lambda>x. bnd (decode_n n d) (\<lambda>xs. ret (x # xs)))"

text \<open>The length field of a directory listing is read as the number of entries.\<close>

definition decode_DirEntryData :: "DirEntryData decode_act" where
  "decode_DirEntryData =
     bnd decode_u32 (\<lambda>len.
     bnd (decode_n (unat len) decode_DirEntry) (\<lambda>dat.
       ret (DirEntryData_with dat)))"

definition decode_Data :: "Data decode_act" where
  "decode_Data = bnd decode_u32 (\<lambda>len. bnd (read_exact (unat len)) (\<lambda>bs. ret (Data bs)))"

definition decode_Flock :: "Flock decode_act" where
  "decode_Flock =
     bnd (decode_flags decode_u8 LockType_all) (\<lambda>typ.
     bnd (decode_flags decode_u32 LockFlag_all) (\<lambda>flags.
     bnd decode_u64 (\<lambda>start.
     bnd decode_u64 (\<lambda>length.
     bnd decode_u32 (\<lambda>proc_id.
     bnd decode_String (\<lambda>client_id.
       ret \<lparr>flock_typ = typ, flock_flags = flags, flock_start = start, flock_length = length,
            flock_proc_id = proc_id, flock_client_id = client_id\<rparr>))))))"

definition decode_Getlock :: "Getlock decode_act" where
  "decode_Getlock =
     bnd (decode_flags decode_u8 LockType_all) (\<lambda>typ.
     bnd decode_u64 (\<lambda>start.
     bnd decode_u64 (\<lambda>length.
     bnd decode_u32 (\<lambda>proc_id.
     bnd decode_String (\<lambda>client_id.
       ret \<lparr>getlock_typ = typ, getlock_start = start, getlock_length = length,
            getlock_proc_id = proc_id, getlock_client_id = client_id\<rparr>)))))"

definition decode_Vec :: "'a decode_act \<Rightarrow> 'a list decode_act" where
  "decode_Vec d = bnd decode_u16 (\<lambda>len. decode_n (unat len) d)"

definition invalid_type_error :: io_error where
  "invalid_type_error = Simple Other ''Invalid message type''"

text \<open>
  The \<open>match\<close> on the message type: \<open>decode_Fcall_L\<close> has the arms of the 9P2000.L
  group and the final arm, \<open>decode_Fcall\<close> the arms of 9P2000.u and 9P2000.
\<close>

definition decode_Fcall_L :: "MsgType option \<Rightarrow> Fcall decode_act" where
  "decode_Fcall_L msg_type =
     (case msg_type of
        Some t \<Rightarrow>
     (case t of
        MsgType.Rlerror \<Rightarrow>
          bnd decode_u32 (\<lambda>ecode. ret (Fcall.Rlerror ecode))
      | MsgType.Tstatfs \<Rightarrow>
          bnd decode_u32 (\<lambda>fid. ret (Fcall.Tstatfs fid))
      | MsgType.Rstatfs \<Rightarrow>
          bnd decode_Statfs (\<lambda>statfs. ret (Fcall.Rstatfs statfs))
      | MsgType.Tlopen \<Rightarrow>
          bnd decode_u32 (\<lambda>fid.
          bnd decode_u32 (\<lambda>flags. ret (Fcall.Tlopen fid flags)))
      | MsgType.Rlopen \<Rightarrow>
          bnd decode_Qid (\<lambda>qid.
          bnd decode_u32 (\<lambda>iounit. ret (Fcall.Rlopen qid iounit)))
      | MsgType.Tlcreate \<Rightarrow>
          bnd decode_u32 (\<lambda>fid. bnd decode_String (\<lambda>name.
          bnd decode_u32 (\<lambda>flags. bnd decode_u32 (\<lambda>mode.
          bnd decode_u32 (\<lambda>gid. ret (Fcall.Tlcreate fid name flags mode gid))))))
      | MsgType.Rlcreate \<Rightarrow>
          bnd decode_Qid (\<lambda>qid.
          bnd decode_u32 (\<lambda>iounit. ret (Fcall.Rlcreate qid iounit)))
      | MsgType.Tsymlink \<Rightarrow>
          bnd decode_u32 (\<lambda>fid. bnd decode_String (\<lambda>name.
          bnd decode_String (\<lambda>symtgt.
          bnd decode_u32 (\<lambda>gid. ret (Fcall.Tsymlink fid name symtgt gid)))))
      | MsgType.Rsymlink \<Rightarrow>
          bnd decode_Qid (\<lambda>qid. ret (Fcall.Rsymlink qid))
      | MsgType.Tmknod \<Rightarrow>
          bnd decode_u32 (\<lambda>dfid. bnd decode_String (\<lambda>name.
          bnd decode_u32 (\<lambda>mode. bnd decode_u32 (\<lambda>major.
          bnd decode_u32 (\<lambda>minor.
          bnd decode_u32 (\<lambda>gid. ret (Fcall.Tmknod dfid name mode major minor gid)))))))
      | MsgType.Rmknod \<Rightarrow>
          bnd decode_Qid (\<lambda>qid. ret (Fcall.Rmknod qid))
      | MsgType.Trename \<Rightarrow>
          bnd decode_u32 (\<lambda>fid. bnd decode_u32 (\<lambda>dfid.
          bnd decode_String (\<lambda>name. ret (Fcall.Trename fid dfid name))))
      | MsgType.Rrename \<Rightarrow>
          ret Fcall.Rrename
      | MsgType.Treadlink \<Rightarrow>
          bnd decode_u32 (\<lambda>fid. ret (Fcall.Treadlink fid))
      | MsgType.Rreadlink \<Rightarrow>
          bnd decode_String (\<lambda>target. ret (Fcall.Rreadlink target))
      | MsgType.Tgetattr \<Rightarrow>
          bnd decode_u32 (\<lambda>fid.
          bnd (decode_flags decode_u64 GetattrMask_all) (\<lambda>req_mask. ret (Fcall.Tgetattr fid req_mask)))
      | MsgType.Rgetattr \<Rightarrow>
          bnd (decode_flags decode_u64 GetattrMask_all) (\<lambda>valid.
          bnd decode_Qid (\<lambda>qid. bnd decode_Stat (\<lambda>stat.
          bnd decode_Time (\<lambda>btime. bnd decode_u64 (\<lambda>gen.
          bnd decode_u64 (\<lambda>ver. ret (Fcall.Rgetattr valid qid stat)))))))
      | MsgType.Tsetattr \<Rightarrow>
          bnd decode_u32 (\<lambda>fid.
          bnd (decode_flags decode_u32 SetattrMask_all) (\<lambda>valid.
          bnd decode_SetAttr (\<lambda>stat. ret (Fcall.Tsetattr fid valid stat))))
      | MsgType.Rsetattr \<Rightarrow>
          ret Fcall.Rsetattr
      | MsgType.Txattrwalk \<Rightarrow>
          bnd decode_u32 (\<lambda>fid. bnd decode_u32 (\<lambda>newfid.
          bnd decode_String (\<lambda>name. ret (Fcall.Txattrwalk fid newfid name))))
      | MsgType.Rxattrwalk \<Rightarrow>
          bnd decode_u64 (\<lambda>size. ret (Fcall.Rxattrwalk size))
      | MsgType.Txattrcreate \<Rightarrow>
          bnd decode_u32 (\<lambda>fid. bnd decode_String (\<lambda>name.
          bnd decode_u64 (\<lambda>attr_size.
          bnd decode_u32 (\<lambda>flags. ret (Fcall.Txattrcreate fid name attr_size flags)))))
      | MsgType.Rxattrcreate \<Rightarrow>
          ret Fcall.Rxattrcreate
      | MsgType.Treaddir \<Rightarrow>
          bnd decode_u32 (\<lambda>fid. bnd decode_u64 (\<lambda>offset.
          bnd decode_u32 (\<lambda>count. ret (Fcall.Treaddir fid offset count))))
      | MsgType.Rreaddir \<Rightarrow>
          bnd decode_DirEntryData (\<lambda>data. ret (Fcall.Rreaddir data))
      | MsgType.Tfsync \<Rightarrow>
          bnd decode_u32 (\<lambda>fid. ret (Fcall.Tfsync fid))
      | MsgType.Rfsync \<Rightarrow>
          ret Fcall.Rfsync
      | MsgType.Tlock \<Rightarrow>
          bnd decode_u32 (\<lambda>fid.
          bnd decode_Flock (\<lambda>flock. ret (Fcall.Tlock fid flock)))
      | MsgType.Rlock \<Rightarrow>
          bnd (decode_flags decode_u8 LockStatus_all) (\<lambda>status. ret (Fcall.Rlock status))
      | MsgType.Tgetlock \<Rightarrow>
          bnd decode_u32 (\<lambda>fid.
          bnd decode_Getlock (\<lambda>flock. ret (Fcall.Tgetlock fid flock)))
      | MsgType.Rgetlock \<Rightarrow>
          bnd decode_Getlock (\<lambda>flock. ret (Fcall.Rgetlock flock))
      | MsgType.Tlink \<Rightarrow>
          bnd decode_u32 (\<lambda>dfid. bnd decode_u32 (\<lambda>fid.
          bnd decode_String (\<lambda>name. ret (Fcall.Tlink dfid fid name))))
      | MsgType.Rlink \<Rightarrow>
          ret Fcall.Rlink
      | MsgType.Tmkdir \<Rightarrow>
          bnd decode_u32 (\<lambda>dfid. bnd decode_String (\<lambda>name.
          bnd decode_u32 (\<lambda>mode.
          bnd decode_u32 (\<lambda>gid. ret (Fcall.Tmkdir dfid name mode gid)))))
      | MsgType.Rmkdir \<Rightarrow>
          bnd decode_Qid (\<lambda>qid. ret (Fcall.Rmkdir qid))
      | MsgType.Trenameat \<Rightarrow>
          bnd decode_u32 (\<lambda>olddirfid. bnd decode_String (\<lambda>oldname.
          bnd decode_u32 (\<lambda>newdirfid.
          bnd decode_String (\<lambda>newname. ret (Fcall.Trenameat olddirfid oldname newdirfid newname)))))
      | MsgType.Rrenameat \<Rightarrow>
          ret Fcall.Rrenameat
      | MsgType.Tunlinkat \<Rightarrow>
          bnd decode_u32 (\<lambda>dirfd. bnd decode_String (\<lambda>name.
          bnd decode_u32 (\<lambda>flags. ret (Fcall.Tunlinkat dirfd name flags))))
      | MsgType.Runlinkat \<Rightarrow>
          ret Fcall.Runlinkat
      | _ \<Rightarrow> fail invalid_type_error)
      | None \<Rightarrow> fail invalid_type_error)"

definition decode_Fcall :: "MsgType option \<Rightarrow> Fcall decode_act" where
  "decode_Fcall msg_type =
     (case msg_type of
        Some t \<Rightarrow>
     (case t of
        MsgType.Tauth \<Rightarrow>
          bnd decode_u32 (\<lambda>afid. bnd decode_String (\<lambda>uname.
          bnd decode_String (\<lambda>aname.
          bnd decode_u32 (\<lambda>n_uname. ret (Fcall.Tauth afid uname aname n_uname)))))
      | MsgType.Rauth \<Rightarrow>
          bnd decode_Qid (\<lambda>aqid. ret (Fcall.Rauth aqid))
      | MsgType.Tattach \<Rightarrow>
          bnd decode_u32 (\<lambda>fid. bnd decode_u32 (\<lambda>afid.
          bnd decode_String (\<lambda>uname. bnd decode_String (\<lambda>aname.
          bnd decode_u32 (\<lambda>n_uname. ret (Fcall.Tattach fid afid uname aname n_uname))))))
      | MsgType.Rattach \<Rightarrow>
          bnd decode_Qid (\<lambda>qid. ret (Fcall.Rattach qid))
      | MsgType.Tversion \<Rightarrow>
          bnd decode_u32 (\<lambda>msize.
          bnd decode_String (\<lambda>version. ret (Fcall.Tversion msize version)))
      | MsgType.Rversion \<Rightarrow>
          bnd decode_u32 (\<lambda>msize.
          bnd decode_String (\<lambda>version. ret (Fcall.Rversion msize version)))
      | MsgType.Tflush \<Rightarrow>
          bnd decode_u16 (\<lambda>oldtag. ret (Fcall.Tflush oldtag))
      | MsgType.Rflush \<Rightarrow>
          ret Fcall.Rflush
      | MsgType.Twalk \<Rightarrow>
          bnd decode_u32 (\<lambda>fid. bnd decode_u32 (\<lambda>newfid.
          bnd (decode_Vec decode_String) (\<lambda>wnames. ret (Fcall.Twalk fid newfid wnames))))
      | MsgType.Rwalk \<Rightarrow>
          bnd (decode_Vec decode_Qid) (\<lambda>wqids. ret (Fcall.Rwalk wqids))
      | MsgType.Tread \<Rightarrow>
          bnd decode_u32 (\<lambda>fid. bnd decode_u64 (\<lambda>offset.
          bnd decode_u32 (\<lambda>count. ret (Fcall.Tread fid offset count))))
      | MsgType.Rread \<Rightarrow>
          bnd decode_Data (\<lambda>data. ret (Fcall.Rread data))
      | MsgType.Twrite \<Rightarrow>
          bnd decode_u32 (\<lambda>fid. bnd decode_u64 (\<lambda>offset.
          bnd decode_Data (\<lambda>data. ret (Fcall.Twrite fid offset data))))
      | MsgType.Rwrite \<Rightarrow>
          bnd decode_u32 (\<lambda>count. ret (Fcall.Rwrite count))
      | MsgType.Tclunk \<Rightarrow>
          bnd decode_u32 (\<lambda>fid. ret (Fcall.Tclunk fid))
      | MsgType.Rclunk \<Rightarrow>
          ret Fcall.Rclunk
      | MsgType.Tremove \<Rightarrow>
          bnd decode_u32 (\<lambda>fid. ret (Fcall.Tremove fid))
      | MsgType.Rremove \<Rightarrow>
          ret Fcall.Rremove
      | _ \<Rightarrow> decode_Fcall_L msg_type)
      | None \<Rightarrow> decode_Fcall_L msg_type)"

definition decode_Msg :: "Msg decode_act" where
  "decode_Msg =
     bnd decode_u8 (\<lambda>b.
     bnd decode_u16 (\<lambda>tag.
     bnd (decode_Fcall (MsgType_from_u8 b)) (\<lambda>body.
       ret \<lparr>msg_tag = tag, msg_body = body\<rparr>)))"

definition read_msg :: "Msg decode_act" where
  "read_msg r = decode_Msg r"

definition write_msg :: "writer \<Rightarrow> Msg \<Rightarrow> io_error + nat \<times> writer" where
  "write_msg w msg = encode_Msg msg w"

section \<open>Well-formed values\<close>

definition valid_String :: "string \<Rightarrow> bool" where
  "valid_String s \<longleftrightarrow> utf8_valid (as_bytes s) \<and> length s < 2 ^ 16"

definition valid_Qid :: "Qid \<Rightarrow> bool" where
  "valid_Qid v \<longleftrightarrow> flags_ok QidType_all (qid_typ v)"

definition valid_DirEntry :: "DirEntry \<Rightarrow> bool" where
  "valid_DirEntry v \<longleftrightarrow> valid_Qid (dirent_qid v) \<and>
     valid_String (dirent_name v)"

definition valid_Flock :: "Flock \<Rightarrow> bool" where
  "valid_Flock v \<longleftrightarrow> flags_ok LockType_all (flock_typ v) \<and>
     flags_ok LockFlag_all (flock_flags v) \<and>
     valid_String (flock_client_id v)"

definition valid_Getlock :: "Getlock \<Rightarrow> bool" where
  "valid_Getlock v \<longleftrightarrow> flags_ok LockType_all (getlock_typ v) \<and>
     valid_String (getlock_client_id v)"

definition valid_DirEntryData :: "DirEntryData \<Rightarrow> bool" where
  "valid_DirEntryData v \<longleftrightarrow> list_all valid_DirEntry (dirents_data v)"

fun valid_Data :: "Data \<Rightarrow> bool" where
  "valid_Data (Data bs) \<longleftrightarrow> length bs < 2 ^ 32"

definition valid_Vec :: "('a \<Rightarrow> bool) \<Rightarrow> 'a list \<Rightarrow> bool" where
  "valid_Vec V xs \<longleftrightarrow> list_all V xs \<and> length xs < 2 ^ 16"

definition valid_Fcall :: "Fcall \<Rightarrow> bool" where
  "valid_Fcall body \<longleftrightarrow>
     (case body of
        Fcall.Rlopen qid _ \<Rightarrow> valid_Qid qid
      | Fcall.Tlcreate _ name _ _ _ \<Rightarrow> valid_String name
      | Fcall.Rlcreate qid _ \<Rightarrow> valid_Qid qid
      | Fcall.Tsymlink _ name symtgt _ \<Rightarrow> valid_String name \<and> valid_String symtgt
      | Fcall.Rsymlink qid \<Rightarrow> valid_Qid qid
      | Fcall.Tmknod _ name _ _ _ _ \<Rightarrow> valid_String name
      | Fcall.Rmknod qid \<Rightarrow> valid_Qid qid
      | Fcall.Trename _ _ name \<Rightarrow> valid_String name
      | Fcall.Rreadlink target \<Rightarrow> valid_String target
      | Fcall.Tgetattr _ req_mask \<Rightarrow> flags_ok GetattrMask_all req_mask
      | Fcall.Rgetattr msk qid _ \<Rightarrow> flags_ok GetattrMask_all msk \<and> valid_Qid qid
      | Fcall.Tsetattr _ msk _ \<Rightarrow> flags_ok SetattrMask_all msk
      | Fcall.Txattrwalk _ _ name \<Rightarrow> valid_String name
      | Fcall.Txattrcreate _ name _ _ \<Rightarrow> valid_String name
      | Fcall.Rreaddir dat \<Rightarrow> valid_DirEntryData dat
      | Fcall.Tlock _ flock \<Rightarrow> valid_Flock flock
      | Fcall.Rlock status \<Rightarrow> flags_ok LockStatus_all status
      | Fcall.Tgetlock _ flock \<Rightarrow> valid_Getlock flock
      | Fcall.Rgetlock flock \<Rightarrow> valid_Getlock flock
      | Fcall.Tlink _ _ name \<Rightarrow> valid_String name
      | Fcall.Tmkdir _ name _ _ \<Rightarrow> valid_String name
      | Fcall.Rmkdir qid \<Rightarrow> valid_Qid qid
      | Fcall.Trenameat _ oldname _ newname \<Rightarrow> valid_String oldname \<and> valid_String newname
      | Fcall.Tunlinkat _ name _ \<Rightarrow> valid_String name
      | Fcall.Tauth _ uname aname _ \<Rightarrow> valid_String uname \<and> valid_String aname
      | Fcall.Rauth aqid \<Rightarrow> valid_Qid aqid
      | Fcall.Tattach _ _ uname aname _ \<Rightarrow> valid_String uname \<and> valid_String aname
      | Fcall.Rattach qid \<Rightarrow> valid_Qid qid
      | Fcall.Tversion _ version \<Rightarrow> valid_String version
      | Fcall.Rversion _ version \<Rightarrow> valid_String version
      | Fcall.Twalk _ _ wnames \<Rightarrow> valid_Vec valid_String wnames
      | Fcall.Rwalk wqids \<Rightarrow> valid_Vec valid_Qid wqids
      | Fcall.Rread dat \<Rightarrow> valid_Data dat
      | Fcall.Twrite _ _ dat \<Rightarrow> valid_Data dat
      | _ \<Rightarrow> True)"

definition valid_Msg :: "Msg \<Rightarrow> bool" where
  "valid_Msg m \<longleftrightarrow> valid_Fcall (msg_body m)"

text \<open>
  The messages that decoding reads back: all but a directory listing, whose length field
  the encoder and the decoder understand differently.
\<close>

definition is_Rreaddir :: "Fcall \<Rightarrow> bool" where
  "is_Rreaddir body \<longleftrightarrow> (case body of Fcall.Rreaddir _ \<Rightarrow> True | _ \<Rightarrow> False)"

definition readable_Msg :: "Msg \<Rightarrow> bool" where
  "readable_Msg m \<longleftrightarrow> valid_Msg m \<and> \<not> is_Rreaddir (msg_body m)"

section \<open>Integers\<close>

lemma le_nat_unat:
  fixes x :: "'a::len word"
  assumes "LENGTH('a) = 8 * n"
  shows "of_nat (le_nat (le_bytes n (unat x))) = x"
proof -
  have "(256 :: nat) ^ n = 2 ^ LENGTH('a)" by (simp add: assms power_mult)
  then show ?thesis by (simp add: le_nat_le_bytes)
qed

lemma parses_word:
  fixes x :: "'a::len word"
  assumes "LENGTH('a) = 8 * n"
  shows "parses (bnd (read_exact n) (\<lambda>bs. ret (of_nat (le_nat bs)))) (le_bytes n (unat x)) x"
  by (rule parses_last [OF parses_read_exact parses_ret]) (simp_all add: le_nat_unat [OF assms])

lemma sound_word: "sound (bnd (read_exact n) (\<lambda>bs. ret (f bs))) (\<lambda>_. True)"
  by (intro sound_bnd [OF sound_read_exact] sound_ret) simp

lemma emits_word: "emits (encode_u8 a) (le_bytes 1 (unat a))"
  "emits (encode_u16 b) (le_bytes 2 (unat b))"
  "emits (encode_u32 c) (le_bytes 4 (unat c))"
  "emits (encode_u64 d) (le_bytes 8 (unat d))"
  by (simp_all add: emits_def encode_u8_def encode_u16_def encode_u32_def encode_u64_def emit_def
      del: One_nat_def split: sum.split)

lemmas wire_word [wire_simps] = emits_word [THEN wire_emits]

lemma parses_words [codec_intro]:
  "parses decode_u8 (wire (encode_u8 a)) a" "parses decode_u16 (wire (encode_u16 b)) b"
  "parses decode_u32 (wire (encode_u32 c)) c" "parses decode_u64 (wire (encode_u64 d)) d"
  unfolding decode_u8_def decode_u16_def decode_u32_def decode_u64_def wire_word
  by (rule parses_word, simp)+

lemma sound_words [sound_intro]:
  "sound decode_u8 (\<lambda>_. True)" "sound decode_u16 (\<lambda>_. True)"
  "sound decode_u32 (\<lambda>_. True)" "sound decode_u64 (\<lambda>_. True)"
  unfolding decode_u8_def decode_u16_def decode_u32_def decode_u64_def
  by (rule sound_word)+

interpretation u8: closed_codec encode_u8 decode_u8 "\<lambda>_. True"
  by unfold_locales (rule behavedI emits_word parses_words sound_words)+

interpretation u16: closed_codec encode_u16 decode_u16 "\<lambda>_. True"
  by unfold_locales (rule behavedI emits_word parses_words sound_words)+

interpretation u32: closed_codec encode_u32 decode_u32 "\<lambda>_. True"
  by unfold_locales (rule behavedI emits_word parses_words sound_words)+

interpretation u64: closed_codec encode_u64 decode_u64 "\<lambda>_. True"
  by unfold_locales (rule behavedI emits_word parses_words sound_words)+

declare u8.behaved [simp] u16.behaved [simp] u32.behaved [simp] u64.behaved [simp]

section \<open>Strings and flags\<close>

lemma emits_String: "emits (encode_String s) (le_bytes 2 (unat (of_nat (length s) :: u16)) @ as_bytes s)"
proof -
  have "encode_String s w = emit (le_bytes 2 (unat (of_nat (length s) :: u16)) @ as_bytes s) w" for w
    unfolding emit_append [symmetric] encode_String_def emitsD [OF emits_word(2)]
    by (auto simp: emit_def [of "as_bytes s"] split: sum.splits)
  then show ?thesis by (simp add: emits_def)
qed

lemmas wire_String [wire_simps] = wire_emits [OF emits_String]

lemma parses_String [codec_intro]: "valid_String s \<Longrightarrow> parses decode_String (wire (encode_String s)) s"
  unfolding decode_String_def wire_simps valid_String_def
  by (intro parses_bnd [OF u16.parses [OF TrueI, unfolded wire_simps]]
        parses_last [OF parses_read_exact])
    (auto simp: unat_of_nat from_utf8_def intro: parses_ret)

lemma sound_String [sound_intro]: "sound decode_String valid_String"
  unfolding decode_String_def
proof (intro sound_bnd [OF u16.decode_sound] sound_bnd [OF sound_read_exact])
  fix len :: u16 and bs :: "u8 list"
  assume "length bs = unat len"
  then have "length bs < 2 ^ 16" using unsigned_less [of len] by simp
  then show "sound (from_utf8 bs) valid_String"
    by (simp add: from_utf8_def valid_String_def sound_fail sound_ret)
qed

interpretation str: closed_codec encode_String decode_String valid_String
  by unfold_locales (auto intro: parses_String sound_String behavedI [OF emits_String])

declare str.behaved [simp]

lemma parses_flags [codec_intro]:
  "parses d bs x \<Longrightarrow> flags_ok all x \<Longrightarrow> parses (decode_flags d all) bs x"
  unfolding decode_flags_def
  by (rule parses_last, assumption, rule parses_ret, simp add: truncate_flags_ok)

lemma sound_flags [sound_intro]: "sound d V \<Longrightarrow> sound (decode_flags d all) (flags_ok all)"
  unfolding decode_flags_def by (rule sound_bnd [where V = V]) (simp_all add: sound_ret)

section \<open>Structures\<close>

lemma behaved_Qid [simp]: "behaved (encode_Qid v)"
  by (simp add: encode_Qid_def behaved_encode_seq)

lemma wire_Qid:
  "wire (encode_Qid v) =
     wire (encode_u8 (qid_typ v)) @ wire (encode_u32 (qid_version v)) @
     wire (encode_u64 (qid_path v)) @ []"
  by (simp add: encode_Qid_def wire_encode_seq)

lemma parses_Qid [codec_intro]: "valid_Qid v \<Longrightarrow> parses decode_Qid (wire (encode_Qid v)) v"
  unfolding decode_Qid_def wire_Qid valid_Qid_def
  by (rule codec_intro | simp)+

lemma sound_Qid [sound_intro]: "sound decode_Qid valid_Qid"
  unfolding decode_Qid_def
  by (rule sound_intro | simp add: valid_Qid_def)+

interpretation qid: closed_codec encode_Qid decode_Qid valid_Qid
  by unfold_locales (auto intro: parses_Qid sound_Qid)

lemma behaved_Statfs [simp]: "behaved (encode_Statfs v)"
  by (simp add: encode_Statfs_def behaved_encode_seq)

lemma wire_Statfs:
  "wire (encode_Statfs v) =
     wire (encode_u32 (statfs_typ v)) @ wire (encode_u32 (statfs_bsize v)) @
     wire (encode_u64 (statfs_blocks v)) @ wire (encode_u64 (statfs_bfree v)) @
     wire (encode_u64 (statfs_bavail v)) @ wire (encode_u64 (statfs_files v)) @
     wire (encode_u64 (statfs_ffree v)) @ wire (encode_u64 (statfs_fsid v)) @
     wire (encode_u32 (statfs_namelen v)) @ []"
  by (simp add: encode_Statfs_def wire_encode_seq)

lemma parses_Statfs [codec_intro]: "parses decode_Statfs (wire (encode_Statfs v)) v"
  unfolding decode_Statfs_def wire_Statfs
  by (rule codec_intro | simp)+

lemma sound_Statfs [sound_intro]: "sound decode_Statfs (\<lambda>_. True)"
  unfolding decode_Statfs_def
  by (rule sound_intro | simp)+

interpretation statfs: closed_codec encode_Statfs decode_Statfs "\<lambda>_. True"
  by unfold_locales (auto intro: parses_Statfs sound_Statfs)

lemma behaved_Time [simp]: "behaved (encode_Time v)"
  by (simp add: encode_Time_def behaved_encode_seq)

lemma wire_Time:
  "wire (encode_Time v) =
     wire (encode_u64 (time_sec v)) @ wire (encode_u64 (time_nsec v)) @ []"
  by (simp add: encode_Time_def wire_encode_seq)

lemma parses_Time [codec_intro]: "parses decode_Time (wire (encode_Time v)) v"
  unfolding decode_Time_def wire_Time
  by (rule codec_intro | simp)+

lemma sound_Time [sound_intro]: "sound decode_Time (\<lambda>_. True)"
  unfolding decode_Time_def
  by (rule sound_intro | simp)+

interpretation time: closed_codec encode_Time decode_Time "\<lambda>_. True"
  by unfold_locales (auto intro: parses_Time sound_Time)

lemma behaved_Stat [simp]: "behaved (encode_Stat v)"
  by (simp add: encode_Stat_def behaved_encode_seq)

lemma wire_Stat:
  "wire (encode_Stat v) =
     wire (encode_u32 (stat_mode v)) @ wire (encode_u32 (stat_uid v)) @
     wire (encode_u32 (stat_gid v)) @ wire (encode_u64 (stat_nlink v)) @
     wire (encode_u64 (stat_rdev v)) @ wire (encode_u64 (stat_size v)) @
     wire (encode_u64 (stat_blksize v)) @ wire (encode_u64 (stat_blocks v)) @
     wire (encode_Time (stat_atime v)) @ wire (encode_Time (stat_mtime v)) @
     wire (encode_Time (stat_ctime v)) @ []"
  by (simp add: encode_Stat_def wire_encode_seq)

lemma parses_Stat [codec_intro]: "parses decode_Stat (wire (encode_Stat v)) v"
  unfolding decode_Stat_def wire_Stat
  by (rule codec_intro | simp)+

lemma sound_Stat [sound_intro]: "sound decode_Stat (\<lambda>_. True)"
  unfolding decode_Stat_def
  by (rule sound_intro | simp)+

interpretation stat: closed_codec encode_Stat decode_Stat "\<lambda>_. True"
  by unfold_locales (auto intro: parses_Stat sound_Stat)

lemma behaved_SetAttr [simp]: "behaved (encode_SetAttr v)"
  by (simp add: encode_SetAttr_def behaved_encode_seq)

lemma wire_SetAttr:
  "wire (encode_SetAttr v) =
     wire (encode_u32 (setattr_mode v)) @ wire (encode_u32 (setattr_uid v)) @
     wire (encode_u32 (setattr_gid v)) @ wire (encode_u64 (setattr_size v)) @
     wire (encode_Time (setattr_atime v)) @ wire (encode_Time (setattr_mtime v)) @ []"
  by (simp add: encode_SetAttr_def wire_encode_seq)

lemma parses_SetAttr [codec_intro]: "parses decode_SetAttr (wire (encode_SetAttr v)) v"
  unfolding decode_SetAttr_def wire_SetAttr
  by (rule codec_intro | simp)+

lemma sound_SetAttr [sound_intro]: "sound decode_SetAttr (\<lambda>_. True)"
  unfolding decode_SetAttr_def
  by (rule sound_intro | simp)+

interpretation setattr: closed_codec encode_SetAttr decode_SetAttr "\<lambda>_. True"
  by unfold_locales (auto intro: parses_SetAttr sound_SetAttr)

lemma behaved_DirEntry [simp]: "behaved (encode_DirEntry v)"
  by (simp add: encode_DirEntry_def behaved_encode_seq)

lemma wire_DirEntry:
  "wire (encode_DirEntry v) =
     wire (encode_Qid (dirent_qid v)) @ wire (encode_u64 (dirent_offset v)) @
     wire (encode_u8 (dirent_typ v)) @ wire (encode_String (dirent_name v)) @ []"
  by (simp add: encode_DirEntry_def wire_encode_seq)

lemma parses_DirEntry [codec_intro]: "valid_DirEntry v \<Longrightarrow> parses decode_DirEntry (wire (encode_DirEntry v)) v"
  unfolding decode_DirEntry_def wire_DirEntry valid_DirEntry_def
  by (rule codec_intro | simp)+

lemma sound_DirEntry [sound_intro]: "sound decode_DirEntry valid_DirEntry"
  unfolding decode_DirEntry_def
  by (rule sound_intro | simp add: valid_DirEntry_def)+

interpretation dirent: closed_codec encode_DirEntry decode_DirEntry valid_DirEntry
  by unfold_locales (auto intro: parses_DirEntry sound_DirEntry)

lemma behaved_Flock [simp]: "behaved (encode_Flock v)"
  by (simp add: encode_Flock_def behaved_encode_seq)

lemma wire_Flock:
  "wire (encode_Flock v) =
     wire (encode_u8 (flock_typ v)) @ wire (encode_u32 (flock_flags v)) @
     wire (encode_u64 (flock_start v)) @ wire (encode_u64 (flock_length v)) @
     wire (encode_u32 (flock_proc_id v)) @ wire (encode_String (flock_client_id v)) @ []"
  by (simp add: encode_Flock_def wire_encode_seq)

lemma parses_Flock [codec_intro]: "valid_Flock v \<Longrightarrow> parses decode_Flock (wire (encode_Flock v)) v"
  unfolding decode_Flock_def wire_Flock valid_Flock_def
  by (rule codec_intro | simp)+

lemma sound_Flock [sound_intro]: "sound decode_Flock valid_Flock"
  unfolding decode_Flock_def
  by (rule sound_intro | simp add: valid_Flock_def)+

interpretation flock: closed_codec encode_Flock decode_Flock valid_Flock
  by unfold_locales (auto intro: parses_Flock sound_Flock)

lemma behaved_Getlock [simp]: "behaved (encode_Getlock v)"
  by (simp add: encode_Getlock_def behaved_encode_seq)

lemma wire_Getlock:
  "wire (encode_Getlock v) =
     wire (encode_u8 (getlock_typ v)) @ wire (encode_u64 (getlock_start v)) @
     wire (encode_u64 (getlock_length v)) @ wire (encode_u32 (getlock_proc_id v)) @
     wire (encode_String (getlock_client_id v)) @ []"
  by (simp add: encode_Getlock_def wire_encode_seq)

lemma parses_Getlock [codec_intro]: "valid_Getlock v \<Longrightarrow> parses decode_Getlock (wire (encode_Getlock v)) v"
  unfolding decode_Getlock_def wire_Getlock valid_Getlock_def
  by (rule codec_intro | simp)+

lemma sound_Getlock [sound_intro]: "sound decode_Getlock valid_Getlock"
  unfolding decode_Getlock_def
  by (rule sound_intro | simp add: valid_Getlock_def)+

interpretation getlock: closed_codec encode_Getlock decode_Getlock valid_Getlock
  by unfold_locales (auto intro: parses_Getlock sound_Getlock)

section \<open>Lists, data and directory listings\<close>

lemma parses_decode_n:
  assumes "\<And>x. x \<in> set xs \<Longrightarrow> parses d (wire (enc x)) x"
  shows "parses (decode_n (length xs) d) (concat (map (\<lambda>x. wire (enc x)) xs)) xs"
  using assms
proof (induction xs)
  case Nil
  then show ?case by (simp add: parses_ret)
next
  case (Cons x xs)
  have x: "parses d (wire (enc x)) x" using Cons.prems by simp
  have xs: "parses (decode_n (length xs) d) (concat (map (\<lambda>x. wire (enc x)) xs)) xs"
    using Cons by simp
  show ?case
    using parses_bnd [OF x parses_last [OF xs parses_ret [OF refl]]] by simp
qed

lemma sound_decode_n [sound_intro]:
  assumes "sound d V"
  shows "sound (decode_n n d) (\<lambda>xs. list_all V xs \<and> length xs = n)"
proof (induction n)
  case 0
  then show ?case by (simp add: sound_ret)
next
  case (Suc n)
  show ?case
    unfolding decode_n.simps
    by (rule sound_bnd [OF assms], rule sound_bnd [OF Suc], rule sound_ret) simp
qed

text \<open>Vectors: the contract of the elements gives the contract of the vector.\<close>

locale vec_elem = closed_codec encode decode valid
  for encode :: "'a \<Rightarrow> encode_act" and decode :: "'a decode_act" and valid :: "'a \<Rightarrow> bool"
begin

lemma vec_behaved: "behaved (encode_Vec encode xs)"
  unfolding encode_Vec_def
  by (rule behaved_encode_seq) (simp add: list.pred_map list_all_iff behaved)

lemma vec_wire:
  "wire (encode_Vec encode xs) =
     wire (encode_u16 (of_nat (length xs))) @ concat (map (\<lambda>x. wire (encode x)) xs)"
proof -
  have "list_all behaved (map encode xs)" by (simp add: list.pred_map list_all_iff behaved)
  then show ?thesis by (simp add: encode_Vec_def wire_encode_seq comp_def)
qed

lemma vec_parses:
  assumes "valid_Vec valid xs"
  shows "parses (decode_Vec decode) (wire (encode_Vec encode xs)) xs"
proof -
  have len: "unat (of_nat (length xs) :: u16) = length xs"
    using assms by (simp add: valid_Vec_def unat_of_nat)
  have "parses (decode_n (length xs) decode) (concat (map (\<lambda>x. wire (encode x)) xs)) xs"
    using assms by (intro parses_decode_n parses) (auto simp: valid_Vec_def list_all_iff)
  then show ?thesis
    unfolding vec_wire decode_Vec_def by (intro parses_bnd [OF u16.parses]) (simp_all add: len)
qed

lemma vec_sound: "sound (decode_Vec decode) (valid_Vec valid)"
  unfolding decode_Vec_def
proof (rule sound_bnd [OF u16.decode_sound])
  fix len :: u16
  have "unat len < 2 ^ 16" using unsigned_less [of len] by simp
  then show "sound (decode_n (unat len) decode) (valid_Vec valid)"
    by (intro sound_mono [OF sound_decode_n [OF decode_sound]]) (auto simp: valid_Vec_def)
qed

end

sublocale vec_elem \<subseteq> vec: closed_codec "encode_Vec encode" "decode_Vec decode" "valid_Vec valid"
  by unfold_locales (rule vec_behaved vec_parses vec_sound | assumption)+

interpretation wnames: vec_elem encode_String decode_String valid_String
  by unfold_locales

interpretation wqids: vec_elem encode_Qid decode_Qid valid_Qid
  by unfold_locales

lemmas vec_codec [codec_intro] = wnames.vec.parses wqids.vec.parses
lemmas vec_sound_rules [sound_intro] = wnames.vec.decode_sound wqids.vec.decode_sound

declare wnames.vec.behaved [simp] wqids.vec.behaved [simp]

text \<open>\<open>Data\<close>: a four-byte length and the bytes.\<close>

lemma emits_Data: "emits (encode_Data (Data bs)) (le_bytes 4 (unat (of_nat (length bs) :: u32)) @ bs)"
proof -
  have "encode_Data (Data bs) w = emit (le_bytes 4 (unat (of_nat (length bs) :: u32)) @ bs) w" for w
    unfolding emit_append [symmetric] encode_Data.simps emitsD [OF emits_word(3)]
    by (auto simp: emit_def [of bs] split: sum.splits)
  then show ?thesis by (simp add: emits_def)
qed

lemma behaved_Data [simp]: "behaved (encode_Data v)"
  by (cases v) (auto intro: behavedI [OF emits_Data])

lemma wire_Data: "wire (encode_Data (Data bs)) = wire (encode_u32 (of_nat (length bs))) @ bs"
  by (simp add: wire_emits [OF emits_Data] wire_word)

lemma parses_Data [codec_intro]: "valid_Data v \<Longrightarrow> parses decode_Data (wire (encode_Data v)) v"
proof (cases v)
  case (Data bs)
  moreover assume "valid_Data v"
  ultimately have len: "unat (of_nat (length bs) :: u32) = length bs" by (simp add: unat_of_nat)
  show ?thesis
    unfolding decode_Data_def Data wire_Data
    by (intro parses_bnd [OF u32.parses] parses_last [OF parses_read_exact] parses_ret)
      (simp_all add: len)
qed

lemma sound_Data [sound_intro]: "sound decode_Data valid_Data"
  unfolding decode_Data_def
proof (intro sound_bnd [OF u32.decode_sound] sound_bnd [OF sound_read_exact] sound_ret)
  fix len :: u32 and bs :: "u8 list"
  assume "length bs = unat len"
  then show "valid_Data (Data bs)" using unsigned_less [of len] by simp
qed

interpretation dat: closed_codec encode_Data decode_Data valid_Data
  by unfold_locales (auto intro: parses_Data sound_Data)

text \<open>Directory listings: both traits hold, but the decoder does not read back the encoder.\<close>

lemma behaved_DirEntryData [simp]: "behaved (encode_DirEntryData v)"
  unfolding encode_DirEntryData_def
  by (rule behaved_encode_seq) (simp add: list.pred_map list_all_iff)

lemma wire_DirEntryData:
  "wire (encode_DirEntryData v) =
     wire (encode_u32 (DirEntryData_size v)) @
     concat (map (\<lambda>d. wire (encode_DirEntry d)) (dirents_data v))"
proof -
  have "list_all behaved (map encode_DirEntry (dirents_data v))"
    by (simp add: list.pred_map list_all_iff)
  then show ?thesis by (simp add: encode_DirEntryData_def wire_encode_seq comp_def)
qed

lemma sound_DirEntryData [sound_intro]: "sound decode_DirEntryData valid_DirEntryData"
  unfolding decode_DirEntryData_def
  by (rule sound_intro | simp add: valid_DirEntryData_def DirEntryData_with_def)+

interpretation dirents: encodable encode_DirEntryData
  by unfold_locales simp

interpretation dirents: decodable decode_DirEntryData valid_DirEntryData
  by unfold_locales (rule sound_DirEntryData)

section \<open>Messages\<close>

lemma bnd_assoc: "bnd (bnd d f) g = bnd d (\<lambda>x. bnd (f x) g)"
  by (auto simp: bnd_def fun_eq_iff split: sum.splits)

lemma bnd_ret: "bnd (ret x) f = f x"
  by (simp add: bnd_def ret_def fun_eq_iff)

lemma MsgType_from_u8_as_u8: "MsgType_from_u8 (MsgType_as_u8 t) = Some t"
  by (cases t) (simp_all add: MsgType_from_u8_def MsgType_variants_def)

lemma MsgType_from_u8_SomeD: "MsgType_from_u8 b = Some t \<Longrightarrow> MsgType_as_u8 t = b"
  by (auto simp: MsgType_from_u8_def dest: map_of_SomeD)

lemma parses_Fcall:
  "valid_Fcall body \<Longrightarrow> \<not> is_Rreaddir body \<Longrightarrow>
     parses (decode_Fcall (Some (MsgType_from body))) (concat (map wire (encode_Fcall body))) body"
  by (cases body;
      simp only: decode_Fcall_def decode_Fcall_L_def MsgType_from.simps option.case MsgType.case
        encode_Fcall.simps list.map concat.simps valid_Fcall_def is_Rreaddir_def Fcall.case
        decode_Time_def bnd_assoc bnd_ret not_True_eq_False;
      (rule codec_intro | simp)+)

lemma sound_Fcall_Some:
  "sound (decode_Fcall (Some t)) (\<lambda>body. valid_Fcall body \<and> MsgType_from body = t)"
  by (cases t; simp only: decode_Fcall_def decode_Fcall_L_def option.case MsgType.case;
      (rule sound_intro | simp add: valid_Fcall_def)+)

lemma decode_Fcall_None: "decode_Fcall None = fail invalid_type_error"
  by (simp add: decode_Fcall_def decode_Fcall_L_def)

lemma decode_Fcall_Tlerror: "decode_Fcall (Some MsgType.Tlerror) = fail invalid_type_error"
  by (simp add: decode_Fcall_def decode_Fcall_L_def)

lemma sound_Fcall [sound_intro]:
  "sound (decode_Fcall t) (\<lambda>body. valid_Fcall body \<and> t = Some (MsgType_from body))"
  by (cases t) (auto simp: decode_Fcall_None sound_fail intro: sound_mono [OF sound_Fcall_Some])

lemma encode_Fcall_behaved: "list_all behaved (encode_Fcall body)"
  by (cases body) simp_all

lemma behaved_Msg [simp]: "behaved (encode_Msg m)"
  unfolding encode_Msg_def Let_def
  by (rule behaved_encode_seq) (simp add: encode_Fcall_behaved)

lemma wire_Msg:
  "wire (encode_Msg m) =
     wire (encode_u8 (MsgType_as_u8 (MsgType_from (msg_body m)))) @ wire (encode_u16 (msg_tag m)) @
     concat (map wire (encode_Fcall (msg_body m))) @ []"
  by (simp add: encode_Msg_def Let_def wire_encode_seq encode_Fcall_behaved)

lemma parses_Msg: "readable_Msg m \<Longrightarrow> parses decode_Msg (wire (encode_Msg m)) m"
  unfolding decode_Msg_def wire_Msg readable_Msg_def valid_Msg_def
  by (rule codec_intro parses_Fcall | simp add: MsgType_from_u8_as_u8)+

lemma sound_Msg: "sound decode_Msg valid_Msg"
  unfolding decode_Msg_def by (rule sound_intro | simp add: valid_Msg_def)+

interpretation msg: codec encode_Msg decode_Msg readable_Msg
  by unfold_locales (auto intro: parses_Msg)

interpretation msg: decodable decode_Msg valid_Msg
  by unfold_locales (rule sound_Msg)

end
