(* ===== verification/Serialize_Properties.thy ===== *)
theory Serialize_Properties
  imports Serialize
begin

text \<open>
  The properties of the message format: round trip and truncation of messages, what
  decoding guarantees of its result, the rejection of illegal types, the sizes the code
  computes against the bytes it writes, and the two places where encoder and decoder
  disagree.
\<close>

section \<open>Lengths of encoded values\<close>

lemma length_wire_word [simp]:
  "length (wire (encode_u8 a)) = 1" "length (wire (encode_u16 b)) = 2"
  "length (wire (encode_u32 c)) = 4" "length (wire (encode_u64 d)) = 8"
  by (simp_all add: wire_word del: One_nat_def le_bytes.simps)

lemma length_wire_String [simp]: "length (wire (encode_String s)) = 2 + length s"
  by (simp add: wire_String del: le_bytes.simps)

lemma length_wire_Qid [simp]: "length (wire (encode_Qid q)) = 13"
  by (simp add: wire_Qid)

lemma length_wire_Data [simp]: "length (wire (encode_Data (Data bs))) = 4 + length bs"
  by (simp add: wire_Data)

lemma length_wire_DirEntry [simp]:
  "length (wire (encode_DirEntry d)) = 24 + length (dirent_name d)"
  by (simp add: wire_DirEntry)

lemma DirEntry_size_eq: "DirEntry_size d = of_nat (24 + length (dirent_name d))"
  by (simp add: DirEntry_size_def Qid_size_def)

lemma foldl_DirEntry_size:
  "foldl (\<lambda>a e. a + DirEntry_size e) a ds =
     a + of_nat (length (concat (map (\<lambda>d. wire (encode_DirEntry d)) ds)))"
  by (induction ds arbitrary: a) (simp_all add: DirEntry_size_eq algebra_simps)

lemma DirEntryData_size_eq:
  "DirEntryData_size v = of_nat (length (concat (map (\<lambda>d. wire (encode_DirEntry d)) (dirents_data v))))"
  by (simp add: DirEntryData_size_def foldl_DirEntry_size)

lemma wire_u16_le_nat:
  assumes "length bs = 2"
  shows "wire (encode_u16 (of_nat (le_nat bs))) = bs"
proof -
  have "le_nat bs < 2 ^ 16" using le_nat_bound [of bs] assms by simp
  then have "unat (of_nat (le_nat bs) :: u16) = le_nat bs" by (simp add: unat_of_nat)
  then show ?thesis using le_bytes_le_nat [of bs] by (simp only: wire_word assms)
qed

section \<open>A directory listing read back\<close>

lemma decode_n_too_many:
  assumes "\<And>x. x \<in> set xs \<Longrightarrow> parses d (wire (enc x)) x"
    and "d [] = Inl eof_error" and "length xs < n"
  shows "decode_n n d (concat (map (\<lambda>x. wire (enc x)) xs)) = Inl eof_error"
  using assms
proof (induction xs arbitrary: n)
  case Nil
  then obtain m where "n = Suc m" by (cases n) auto
  with Nil show ?case by (simp add: bnd_def)
next
  case (Cons x xs)
  then obtain m where n: "n = Suc m" and m: "length xs < m" by (cases n) auto
  have "decode_n m d (concat (map (\<lambda>x. wire (enc x)) xs)) = Inl eof_error"
    using Cons m by simp
  moreover have "parses d (wire (enc x)) x" using Cons.prems by simp
  ultimately show ?case by (simp add: n bnd_def parses_decode)
qed

lemma length_le_DirEntries: "length ds \<le> length (concat (map (\<lambda>d. wire (encode_DirEntry d)) ds))"
  by (induction ds) auto

lemma decode_DirEntry_Nil: "valid_DirEntry d \<Longrightarrow> decode_DirEntry [] = Inl eof_error"
  by (rule dirent.truncated [of d]) (auto simp: strict_prefix_def dest: arg_cong [of _ _ length])

lemma decode_DirEntryData_wire:
  assumes valid: "valid_DirEntryData v" and ne: "dirents_data v \<noteq> []"
    and len: "length (concat (map (\<lambda>d. wire (encode_DirEntry d)) (dirents_data v))) < 2 ^ 32"
  shows "decode_DirEntryData (wire (encode_DirEntryData v)) = Inl eof_error"
proof -
  let ?ds = "dirents_data v"
  let ?bs = "concat (map (\<lambda>d. wire (encode_DirEntry d)) ?ds)"
  have n: "unat (DirEntryData_size v) = length ?bs"
    using len by (simp add: DirEntryData_size_eq unat_of_nat)
  obtain d ds where ds: "?ds = d # ds" using ne by (cases ?ds) auto
  have "length ?ds < length ?bs" using length_le_DirEntries [of ds] by (simp add: ds)
  moreover have "decode_DirEntry [] = Inl eof_error"
    using valid ds by (intro decode_DirEntry_Nil [of d]) (simp add: valid_DirEntryData_def)
  ultimately have "decode_n (length ?bs) decode_DirEntry ?bs = Inl eof_error"
    using valid
    by (intro decode_n_too_many dirent.parses) (auto simp: valid_DirEntryData_def list_all_iff)
  moreover have "decode_u32 (wire (encode_DirEntryData v)) = Inr (DirEntryData_size v, ?bs)"
    by (simp add: wire_DirEntryData u32.roundtrip)
  ultimately show ?thesis by (simp add: decode_DirEntryData_def bnd_def n)
qed

lemma wire_Msg_header:
  "wire (encode_Msg \<lparr>msg_tag = t, msg_body = b\<rparr>) =
     wire (encode_u8 (MsgType_as_u8 (MsgType_from b))) @ wire (encode_u16 t) @
     concat (map wire (encode_Fcall b))"
  by (simp add: wire_Msg)

lemma decode_Msg_header:
  "decode_Msg (wire (encode_u8 b) @ wire (encode_u16 t) @ rest) =
     bnd (decode_Fcall (MsgType_from_u8 b)) (\<lambda>body. ret \<lparr>msg_tag = t, msg_body = body\<rparr>) rest"
  by (simp add: decode_Msg_def bnd_def [of decode_u8] bnd_def [of decode_u16] u8.roundtrip u16.roundtrip)

section \<open>Properties\<close>

text \<open>
  C4. Writing a message into an empty vector succeeds, reports the number of bytes written,
  and reading the bytes gives the message back and leaves what follows untouched, for every
  well-formed message but a directory listing.
\<close>

theorem write_msg_read_msg:
  assumes "readable_Msg m"
  shows "\<exists>bs. write_msg vec_writer m = Inr (length bs, \<lparr>w_room = None, w_buf = bs\<rparr>) \<and>
    read_msg (bs @ rest) = Inr (m, rest)"
  using msg.encode_vec [of m "[]"] msg.roundtrip [OF assms]
  by (simp add: write_msg_def read_msg_def vec_writer_def)

lemma readable_example: "readable_Msg \<lparr>msg_tag = 0xdead, msg_body = Fcall.Rversion 40 P92000L\<rparr>"
  by (simp add: readable_Msg_def valid_Msg_def valid_Fcall_def is_Rreaddir_def P92000L_def
      valid_String_def as_bytes_def)

theorem write_msg_read_msg_witness:
  "\<exists>bs. write_msg vec_writer \<lparr>msg_tag = 0xdead, msg_body = Fcall.Rversion 40 P92000L\<rparr> =
      Inr (length bs, \<lparr>w_room = None, w_buf = bs\<rparr>) \<and>
    read_msg (bs @ [1, 2]) = Inr (\<lparr>msg_tag = 0xdead, msg_body = Fcall.Rversion 40 P92000L\<rparr>, [1, 2])"
  by (rule write_msg_read_msg [OF readable_example])

text \<open>
  C14. No proper prefix of a written message is accepted: reading one reports the end of
  input, so a cut-off message is never mistaken for another one.
\<close>

theorem read_msg_truncated:
  assumes "readable_Msg m" and "write_msg vec_writer m = Inr (n, w)" and "strict_prefix p (w_buf w)"
  shows "read_msg p = Inl eof_error"
proof -
  have "w_buf w = wire (encode_Msg m)"
    using assms(2) msg.encode_vec [of m "[]"] by (auto simp: write_msg_def vec_writer_def)
  then show ?thesis
    using msg.truncated [OF assms(1)] assms(3) by (simp add: read_msg_def)
qed

lemma readable_Rclunk: "readable_Msg \<lparr>msg_tag = 5, msg_body = Fcall.Rclunk\<rparr>"
  by (simp add: readable_Msg_def valid_Msg_def valid_Fcall_def is_Rreaddir_def)

lemma write_Rclunk:
  "write_msg vec_writer \<lparr>msg_tag = 5, msg_body = Fcall.Rclunk\<rparr> = Inr (3, \<lparr>w_room = None, w_buf = [121, 5, 0]\<rparr>)"
  by code_simp

theorem read_msg_truncated_witness: "read_msg [121, 5] = Inl eof_error"
  by (rule read_msg_truncated [OF readable_Rclunk write_Rclunk]) (simp add: strict_prefix_def)

text \<open>
  C37. Writing into a fixed buffer succeeds exactly when the message fits: it then leaves the
  same bytes and reports the same count as writing into a vector, and otherwise it reports
  the failed write.
\<close>

theorem write_msg_bounded:
  assumes "write_msg vec_writer m = Inr (n, w)"
  shows "write_msg (bounded_writer r) m =
    (if n \<le> r then Inr (n, \<lparr>w_room = Some (r - n), w_buf = w_buf w\<rparr>) else Inl write_zero_error)"
  using assms msg.encode_vec [of m "[]"] behaved_bounded [OF msg.behaved, of m r]
  by (auto simp: write_msg_def vec_writer_def)

theorem write_msg_bounded_witness:
  "write_msg (bounded_writer 2) \<lparr>msg_tag = 5, msg_body = Fcall.Rclunk\<rparr> = Inl write_zero_error"
  using write_msg_bounded [OF write_Rclunk, of 2] by simp

text \<open>
  C21. Whatever bytes arrive, a message that is read is well formed: its strings are UTF-8 of
  less than 2^16 bytes, its flags have declared bits only, its vectors and data fit their
  length fields. The bytes left over are a suffix of the input, and further bytes behind the
  input change nothing.
\<close>

theorem read_msg_sound:
  assumes "read_msg bs = Inr (m, rest)"
  shows "valid_Msg m \<and> suffix rest bs \<and> (\<forall>cs. read_msg (bs @ cs) = Inr (m, rest @ cs))"
  using assms msg.decode_valid msg.decode_suffix msg.decode_frame by (auto simp: read_msg_def)

lemma read_Rclunk: "read_msg [121, 5, 0, 9] = Inr (\<lparr>msg_tag = 5, msg_body = Fcall.Rclunk\<rparr>, [9])"
  by code_simp

theorem read_msg_sound_witness:
  "valid_Msg \<lparr>msg_tag = 5, msg_body = Fcall.Rclunk\<rparr> \<and> suffix [9 :: u8] [121, 5, 0, 9] \<and>
    (\<forall>cs. read_msg ([121, 5, 0, 9] @ cs) =
       Inr (\<lparr>msg_tag = 5, msg_body = Fcall.Rclunk\<rparr>, [9] @ cs))"
  by (rule read_msg_sound [OF read_Rclunk])

text \<open>
  Reading normalises: a message that was read from any bytes, written out and read
  again, is the same message (the directory listing apart).
\<close>

theorem read_msg_write_msg:
  assumes "read_msg bs = Inr (m, rest)" and "\<not> is_Rreaddir (msg_body m)"
  shows "\<exists>n w. write_msg vec_writer m = Inr (n, w) \<and> read_msg (w_buf w) = Inr (m, [])"
proof -
  have "readable_Msg m"
    using assms msg.decode_valid by (auto simp: readable_Msg_def read_msg_def)
  then have "read_msg (wire (encode_Msg m)) = Inr (m, [])"
    using msg.roundtrip [of m "[]"] by (simp add: read_msg_def)
  then show ?thesis
    using msg.encode_vec [of m "[]"] by (simp add: write_msg_def vec_writer_def)
qed

theorem read_msg_write_msg_witness:
  "\<exists>n w. write_msg vec_writer \<lparr>msg_tag = 5, msg_body = Fcall.Rclunk\<rparr> = Inr (n, w) \<and>
    read_msg (w_buf w) = Inr (\<lparr>msg_tag = 5, msg_body = Fcall.Rclunk\<rparr>, [])"
  by (rule read_msg_write_msg [OF read_Rclunk]) (simp add: is_Rreaddir_def)

text \<open>
  An illegal message type is rejected once type and tag are there: a first byte that is
  no discriminant, or that of the never-used \<open>Tlerror\<close>, gives the error for an invalid
  message type, whatever follows; with fewer than three bytes the end of input is reported.
\<close>

theorem read_msg_illegal_type:
  assumes "MsgType_from_u8 b = None \<or> MsgType_from_u8 b = Some MsgType.Tlerror"
  shows "read_msg (b # t0 # t1 # rest) = Inl invalid_type_error \<and> read_msg [b, t0] = Inl eof_error"
proof -
  have b: "wire (encode_u8 b) = [b]" by (simp add: wire_word)
  have t: "wire (encode_u16 (of_nat (le_nat [t0, t1]))) = [t0, t1]"
    by (rule wire_u16_le_nat) simp
  have "read_msg (b # t0 # t1 # rest) = Inl invalid_type_error"
    using decode_Msg_header [where b = b and t = "of_nat (le_nat [t0, t1])" and rest = rest] assms
    by (auto simp: read_msg_def b t bnd_def fail_def decode_Fcall_None decode_Fcall_Tlerror
        simp del: le_nat.simps)
  moreover have "decode_u16 [t0] = Inl eof_error"
    using u16.truncated [where x = "of_nat (le_nat [t0, t1])" and p = "[t0]"]
    by (simp add: t strict_prefix_def del: le_nat.simps)
  ultimately show ?thesis
    using u8.roundtrip [of b "[t0]"] by (simp add: read_msg_def decode_Msg_def bnd_def b)
qed

theorem read_msg_illegal_type_witness:
  "read_msg [6, 1, 0, 7] = Inl invalid_type_error \<and> read_msg [6, 1] = Inl eof_error"
  by (rule read_msg_illegal_type) code_simp

text \<open>
  C38. Two well-formed messages, directory listings apart, whose encodings agree up to what
  follows them are equal: the format is unambiguous on a stream.
\<close>

theorem write_msg_injective:
  assumes "readable_Msg m" "readable_Msg m'"
    and "write_msg vec_writer m = Inr (n, w)" "write_msg vec_writer m' = Inr (n', w')"
    and "w_buf w @ r = w_buf w' @ r'"
  shows "m = m' \<and> r = r'"
proof -
  have "w_buf w = wire (encode_Msg m)" "w_buf w' = wire (encode_Msg m')"
    using assms(3,4) msg.encode_vec [of m "[]"] msg.encode_vec [of m' "[]"]
    by (auto simp: write_msg_def vec_writer_def)
  with assms(5) show ?thesis by (intro msg.unique [OF assms(1,2)]) simp
qed

theorem write_msg_injective_witness:
  "\<lparr>msg_tag = 5, msg_body = Fcall.Rclunk\<rparr> = \<lparr>msg_tag = 5, msg_body = Fcall.Rclunk\<rparr> \<and> [1 :: u8] = [1]"
  by (rule write_msg_injective [OF readable_Rclunk readable_Rclunk write_Rclunk write_Rclunk]) simp

text \<open>
  C39. A non-empty directory listing is not read back: \<open>encode\<close> writes the size in bytes
  as the length field, \<open>decode\<close> takes it for the number of entries and runs out of input.
\<close>

theorem read_msg_Rreaddir:
  assumes "valid_DirEntryData d" and "dirents_data d \<noteq> []"
    and "length (concat (map (\<lambda>e. wire (encode_DirEntry e)) (dirents_data d))) < 2 ^ 32"
    and "write_msg vec_writer \<lparr>msg_tag = t, msg_body = Fcall.Rreaddir d\<rparr> = Inr (n, w)"
  shows "read_msg (w_buf w) = Inl eof_error"
proof -
  let ?m = "\<lparr>msg_tag = t, msg_body = Fcall.Rreaddir d\<rparr>"
  have w: "w_buf w = wire (encode_Msg ?m)"
    using assms(4) msg.encode_vec [of ?m "[]"] by (auto simp: write_msg_def vec_writer_def)
  have "decode_Fcall (Some MsgType.Rreaddir) (wire (encode_DirEntryData d)) = Inl eof_error"
    using decode_DirEntryData_wire [OF assms(1-3)]
    by (simp add: decode_Fcall_def decode_Fcall_L_def bnd_def)
  then show ?thesis
    using decode_Msg_header [where b = "MsgType_as_u8 MsgType.Rreaddir" and t = t and rest = "wire (encode_DirEntryData d)"]
    by (simp add: w wire_Msg_header read_msg_def MsgType_from_u8_as_u8 bnd_def
        del: MsgType_as_u8.simps)
qed

definition example_listing :: DirEntryData where
  "example_listing = DirEntryData_with
     [\<lparr>dirent_qid = \<lparr>qid_typ = 0, qid_version = 0, qid_path = 7\<rparr>, dirent_offset = 2,
       dirent_typ = 0, dirent_name = ''a''\<rparr>]"

theorem read_msg_Rreaddir_witness:
  "\<exists>n w. write_msg vec_writer \<lparr>msg_tag = 1, msg_body = Fcall.Rreaddir example_listing\<rparr> = Inr (n, w) \<and>
     read_msg (w_buf w) = Inl eof_error"
proof -
  let ?m = "\<lparr>msg_tag = 1, msg_body = Fcall.Rreaddir example_listing\<rparr>"
  obtain n w where w: "write_msg vec_writer ?m = Inr (n, w)"
    using msg.encode_vec [of ?m "[]"] by (simp add: write_msg_def vec_writer_def)
  have v: "valid_DirEntryData example_listing"
    by (simp add: example_listing_def DirEntryData_with_def valid_DirEntryData_def valid_DirEntry_def
        valid_Qid_def valid_String_def flags_ok_def as_bytes_def)
  have "read_msg (w_buf w) = Inl eof_error"
    by (rule read_msg_Rreaddir [OF v _ _ w]) (simp_all add: example_listing_def DirEntryData_with_def)
  with w show ?thesis by blast
qed

text \<open>
  The sizes the code computes are the sizes it writes: encoding a directory entry
  reports \<open>size()\<close> bytes, and encoding a listing of less than 2^32 bytes reports four
  bytes for the length field and \<open>size()\<close> for the entries.
\<close>

theorem DirEntry_sizes:
  assumes "valid_DirEntry d"
    and "length (concat (map (\<lambda>e. wire (encode_DirEntry e)) (dirents_data v))) < 2 ^ 32"
  shows "(\<exists>w. encode_DirEntry d vec_writer = Inr (unat (DirEntry_size d), w)) \<and>
    (\<exists>w. encode_DirEntryData v vec_writer = Inr (4 + unat (DirEntryData_size v), w))"
proof
  have "24 + length (dirent_name d) < 2 ^ 32"
    using assms(1) by (simp add: valid_DirEntry_def valid_String_def)
  then show "\<exists>w. encode_DirEntry d vec_writer = Inr (unat (DirEntry_size d), w)"
    using dirent.encode_vec [of d "[]"]
    by (simp add: vec_writer_def DirEntry_size_eq unat_of_nat del: of_nat_add)
  show "\<exists>w. encode_DirEntryData v vec_writer = Inr (4 + unat (DirEntryData_size v), w)"
    using dirents.encode_vec [of v "[]"] assms(2)
    by (simp add: vec_writer_def wire_DirEntryData DirEntryData_size_eq unat_of_nat)
qed

theorem DirEntry_sizes_witness:
  "(\<exists>w. encode_DirEntry \<lparr>dirent_qid = \<lparr>qid_typ = 0, qid_version = 0, qid_path = 7\<rparr>, dirent_offset = 2,
        dirent_typ = 0, dirent_name = ''a''\<rparr> vec_writer = Inr (25, w)) \<and>
    (\<exists>w. encode_DirEntryData example_listing vec_writer = Inr (29, w))"
proof -
  let ?d = "\<lparr>dirent_qid = \<lparr>qid_typ = 0, qid_version = 0, qid_path = 7\<rparr>, dirent_offset = 2,
        dirent_typ = 0, dirent_name = ''a''\<rparr>"
  have "valid_DirEntry ?d"
    by (simp add: valid_DirEntry_def valid_Qid_def valid_String_def flags_ok_def as_bytes_def)
  from DirEntry_sizes [OF this, of example_listing] show ?thesis
    by (simp add: example_listing_def DirEntryData_with_def DirEntry_size_eq DirEntryData_size_eq)
qed

text \<open>
  C40. A string of 2^16 bytes or more does not survive: its length field wraps around, so
  decoding returns the first \<open>len mod 2^16\<close> bytes (where they are UTF-8) and leaves the
  rest of the string in the input, where the next field is expected.
\<close>

theorem String_length_wraps:
  assumes "utf8_valid (as_bytes (take (length s mod 2 ^ 16) s))"
    and "encode_String s vec_writer = Inr (n, w)"
  shows "decode_String (w_buf w) =
    Inr (take (length s mod 2 ^ 16) s, drop (length s mod 2 ^ 16) (as_bytes s))"
proof -
  let ?k = "length s mod 2 ^ 16"
  have w: "w_buf w = wire (encode_u16 (of_nat (length s))) @ as_bytes s"
    using assms(2) str.encode_vec [of s "[]"] by (auto simp: vec_writer_def wire_String wire_word)
  have k: "?k \<le> length s" by simp
  have "take ?k (as_bytes s) = as_bytes (take ?k s)"
    by (simp add: as_bytes_def take_map)
  then show ?thesis
    using assms(1) k
    by (simp add: decode_String_def w bnd_def u16.roundtrip read_exact_def from_utf8_def ret_def
        unat_of_nat drop_map)
qed

theorem String_length_wraps_witness:
  "\<exists>n w. encode_String (replicate (2 ^ 16) CHR ''x'') vec_writer = Inr (n, w) \<and>
     decode_String (w_buf w) = Inr ([], as_bytes (replicate (2 ^ 16) CHR ''x''))"
proof -
  let ?s = "replicate (2 ^ 16) CHR ''x''"
  obtain n w where w: "encode_String ?s vec_writer = Inr (n, w)"
    using str.encode_vec [of ?s "[]"] by (simp add: vec_writer_def del: power_numeral)
  have u: "utf8_valid (as_bytes (take (length ?s mod 2 ^ 16) ?s))"
    by (simp add: as_bytes_def del: power_numeral)
  show ?thesis
    using w String_length_wraps [OF u w] by (auto simp del: power_numeral)
qed

text \<open>
  The room the constants reserve is enough: with its four-byte frame length, a
  \<open>Twrite\<close> or an \<open>Rread\<close> needs at most \<open>IOHDRSZ\<close> bytes beyond its data, and an
  \<open>Rreaddir\<close> at most \<open>READDIRHDRSZ\<close> bytes beyond its entries.
\<close>

theorem header_room:
  "(\<exists>n w. write_msg vec_writer \<lparr>msg_tag = t, msg_body = Fcall.Twrite f off (Data bs)\<rparr> = Inr (n, w) \<and>
      4 + n \<le> unat IOHDRSZ + length bs) \<and>
   (\<exists>n w. write_msg vec_writer \<lparr>msg_tag = t, msg_body = Fcall.Rread (Data bs)\<rparr> = Inr (n, w) \<and>
      4 + n \<le> unat IOHDRSZ + length bs) \<and>
   (\<exists>n w. write_msg vec_writer \<lparr>msg_tag = t, msg_body = Fcall.Rreaddir d\<rparr> = Inr (n, w) \<and>
      4 + n \<le> unat READDIRHDRSZ + length (concat (map (\<lambda>e. wire (encode_DirEntry e)) (dirents_data d))))"
  using msg.encode_vec [where bs = "[]"]
  by (simp add: write_msg_def vec_writer_def wire_Msg_header wire_DirEntryData IOHDRSZ_def
      READDIRHDRSZ_def del: MsgType_as_u8.simps)

text \<open>
  The message types: the discriminant of a type determines it, a byte that is accepted
  is the discriminant of the type it gives, and replies are exactly the odd discriminants.
\<close>

theorem MsgType_discriminants:
  "MsgType_from_u8 (MsgType_as_u8 t) = Some t \<and>
   (MsgType_from_u8 b = Some t \<longleftrightarrow> MsgType_as_u8 t = b) \<and>
   (MsgType_is_r t \<longleftrightarrow> odd (unat (MsgType_as_u8 t))) \<and> (MsgType_is_t t \<longleftrightarrow> \<not> MsgType_is_r t)"
proof -
  have "MsgType_is_r t \<longleftrightarrow> odd (unat (MsgType_as_u8 t))"
    by (cases t) (simp_all add: MsgType_is_r_def)
  then show ?thesis
    by (auto simp: MsgType_from_u8_as_u8 MsgType_from_u8_SomeD MsgType_is_t_def)
qed

end
