(* ===== verification/Srv.thy ===== *)
theory Srv
  imports Serialize_Properties Errors
begin

text \<open>
  The 9P server of \<^verbatim>\<open>crates/9p/src/srv.rs\<close>. The trait \<open>Filesystem\<close> is a record of
  operations. An operation gets fids by reference and may change what is behind them and
  the file system, so it runs on an explicit store \<open>'s\<close>: the \<open>aux\<close> of a fid is a handle
  \<open>'a\<close> into that store, and \<open>fs_default\<close> makes a new handle (\<open>Default::default()\<close>
  of the associated type). \<open>dispatch_once\<close> handles one message; \<open>dispatch\<close> is the step
  relation \<open>serve_step\<close> in the second half of the theory, in which the tasks it spawns
  interleave.
\<close>

section \<open>The file system trait\<close>

record 'a Fid =
  fid_fid :: u32
  fid_aux :: 'a

type_synonym 's reply = "'s \<Rightarrow> (Error + Fcall) \<times> 's"

record ('a, 's) Filesystem =
  fs_default :: "'s \<Rightarrow> 'a \<times> 's"
  rstatfs :: "'a Fid \<Rightarrow> 's reply"
  rlopen :: "'a Fid \<Rightarrow> u32 \<Rightarrow> 's reply"
  rlcreate :: "'a Fid \<Rightarrow> string \<Rightarrow> u32 \<Rightarrow> u32 \<Rightarrow> u32 \<Rightarrow> 's reply"
  rsymlink :: "'a Fid \<Rightarrow> string \<Rightarrow> string \<Rightarrow> u32 \<Rightarrow> 's reply"
  rmknod :: "'a Fid \<Rightarrow> string \<Rightarrow> u32 \<Rightarrow> u32 \<Rightarrow> u32 \<Rightarrow> u32 \<Rightarrow> 's reply"
  rrename :: "'a Fid \<Rightarrow> 'a Fid \<Rightarrow> string \<Rightarrow> 's reply"
  rreadlink :: "'a Fid \<Rightarrow> 's reply"
  rgetattr :: "'a Fid \<Rightarrow> GetattrMask \<Rightarrow> 's reply"
  rsetattr :: "'a Fid \<Rightarrow> SetattrMask \<Rightarrow> SetAttr \<Rightarrow> 's reply"
  rxattrwalk :: "'a Fid \<Rightarrow> 'a Fid \<Rightarrow> string \<Rightarrow> 's reply"
  rxattrcreate :: "'a Fid \<Rightarrow> string \<Rightarrow> u64 \<Rightarrow> u32 \<Rightarrow> 's reply"
  rreaddir :: "'a Fid \<Rightarrow> u64 \<Rightarrow> u32 \<Rightarrow> 's reply"
  rfsync :: "'a Fid \<Rightarrow> 's reply"
  rlock :: "'a Fid \<Rightarrow> Flock \<Rightarrow> 's reply"
  rgetlock :: "'a Fid \<Rightarrow> Getlock \<Rightarrow> 's reply"
  rlink :: "'a Fid \<Rightarrow> 'a Fid \<Rightarrow> string \<Rightarrow> 's reply"
  rmkdir :: "'a Fid \<Rightarrow> string \<Rightarrow> u32 \<Rightarrow> u32 \<Rightarrow> 's reply"
  rrenameat :: "'a Fid \<Rightarrow> string \<Rightarrow> 'a Fid \<Rightarrow> string \<Rightarrow> 's reply"
  runlinkat :: "'a Fid \<Rightarrow> string \<Rightarrow> u32 \<Rightarrow> 's reply"
  rauth :: "'a Fid \<Rightarrow> string \<Rightarrow> string \<Rightarrow> u32 \<Rightarrow> 's reply"
  rattach :: "'a Fid \<Rightarrow> 'a Fid option \<Rightarrow> string \<Rightarrow> string \<Rightarrow> u32 \<Rightarrow> 's reply"
  rflush :: "Fcall option \<Rightarrow> 's reply"
  rwalk :: "'a Fid \<Rightarrow> 'a Fid \<Rightarrow> string list \<Rightarrow> 's reply"
  rread :: "'a Fid \<Rightarrow> u64 \<Rightarrow> u32 \<Rightarrow> 's reply"
  rwrite :: "'a Fid \<Rightarrow> u64 \<Rightarrow> Data \<Rightarrow> 's reply"
  rclunk :: "'a Fid \<Rightarrow> 's reply"
  rremove :: "'a Fid \<Rightarrow> 's reply"
  rversion :: "u32 \<Rightarrow> string \<Rightarrow> 's reply"

text \<open>The default methods: all refuse, but for the version, which accepts 9P2000.L.\<close>

definition unsupported :: "'s reply" where
  "unsupported s = (Inl (No EOPNOTSUPP), s)"

definition default_rversion :: "u32 \<Rightarrow> string \<Rightarrow> 's reply" where
  "default_rversion msize ver s =
     (Inr (Fcall.Rversion msize (if ver = P92000L then ver else VERSION_UNKNOWN)), s)"

definition default_Filesystem :: "('s \<Rightarrow> 'a \<times> 's) \<Rightarrow> ('a, 's) Filesystem" where
  "default_Filesystem dflt =
     \<lparr>fs_default = dflt,
      rstatfs = (\<lambda>_. unsupported),
      rlopen = (\<lambda>_ _. unsupported),
      rlcreate = (\<lambda>_ _ _ _ _. unsupported),
      rsymlink = (\<lambda>_ _ _ _. unsupported),
      rmknod = (\<lambda>_ _ _ _ _ _. unsupported),
      rrename = (\<lambda>_ _ _. unsupported),
      rreadlink = (\<lambda>_. unsupported),
      rgetattr = (\<lambda>_ _. unsupported),
      rsetattr = (\<lambda>_ _ _. unsupported),
      rxattrwalk = (\<lambda>_ _ _. unsupported),
      rxattrcreate = (\<lambda>_ _ _ _. unsupported),
      rreaddir = (\<lambda>_ _ _. unsupported),
      rfsync = (\<lambda>_. unsupported),
      rlock = (\<lambda>_ _. unsupported),
      rgetlock = (\<lambda>_ _. unsupported),
      rlink = (\<lambda>_ _ _. unsupported),
      rmkdir = (\<lambda>_ _ _ _. unsupported),
      rrenameat = (\<lambda>_ _ _ _. unsupported),
      runlinkat = (\<lambda>_ _ _. unsupported),
      rauth = (\<lambda>_ _ _ _. unsupported),
      rattach = (\<lambda>_ _ _ _ _. unsupported),
      rflush = (\<lambda>_. unsupported),
      rwalk = (\<lambda>_ _ _. unsupported),
      rread = (\<lambda>_ _ _. unsupported),
      rwrite = (\<lambda>_ _ _. unsupported),
      rclunk = (\<lambda>_. unsupported),
      rremove = (\<lambda>_. unsupported),
      rversion = default_rversion\<rparr>"

section \<open>Handling one message\<close>

text \<open>
  The table \<open>fsfids\<close> maps the fids of the client. The result of a handler is \<open>None\<close> when
  it panics (an \<open>unwrap\<close> on \<open>None\<close>), and otherwise its \<open>Result\<close>.
\<close>

type_synonym 'a fid_table = "u32 \<rightharpoonup> 'a Fid"
type_synonym 's outcome = "'s \<Rightarrow> (Error + Fcall) option \<times> 's"

definition await :: "'s reply \<Rightarrow> 's outcome" where
  "await h s = (let (r, s') = h s in (Some r, s'))"

definition get_fid :: "'a fid_table \<Rightarrow> u32 \<Rightarrow> ('a Fid \<Rightarrow> 's outcome) \<Rightarrow> 's outcome" where
  "get_fid tbl f k s = (case tbl f of None \<Rightarrow> (Some (Inl (No EBADF)), s) | Some x \<Rightarrow> k x s)"

definition unwrap_fid :: "'a Fid option \<Rightarrow> ('a Fid \<Rightarrow> 's outcome) \<Rightarrow> 's outcome" where
  "unwrap_fid nf k s = (case nf of None \<Rightarrow> (None, s) | Some x \<Rightarrow> k x s)"

definition make_newfid :: "('a, 's) Filesystem \<Rightarrow> Fcall \<Rightarrow> 's \<Rightarrow> 'a Fid option \<times> 's" where
  "make_newfid fs body s =
     (case newfid body of
        None \<Rightarrow> (None, s)
      | Some f \<Rightarrow> (let (a, s') = fs_default fs s in (Some \<lparr>fid_fid = f, fid_aux = a\<rparr>, s')))"

definition dispatch_call ::
  "('a, 's) Filesystem \<Rightarrow> 'a fid_table \<Rightarrow> 'a Fid option \<Rightarrow> Fcall \<Rightarrow> 's outcome" where
  "dispatch_call fs tbl nf body =
     (case body of
        Fcall.Tstatfs fid \<Rightarrow> get_fid tbl fid (\<lambda>f. await (rstatfs fs f))
      | Fcall.Tlopen fid flags \<Rightarrow> get_fid tbl fid (\<lambda>f. await (rlopen fs f flags))
      | Fcall.Tlcreate fid name flags mode gid \<Rightarrow>
          get_fid tbl fid (\<lambda>f. await (rlcreate fs f name flags mode gid))
      | Fcall.Tsymlink fid name symtgt gid \<Rightarrow>
          get_fid tbl fid (\<lambda>f. await (rsymlink fs f name symtgt gid))
      | Fcall.Tmknod dfid name mode major minor gid \<Rightarrow>
          get_fid tbl dfid (\<lambda>f. await (rmknod fs f name mode major minor gid))
      | Fcall.Trename fid dfid name \<Rightarrow>
          get_fid tbl fid (\<lambda>f. get_fid tbl dfid (\<lambda>d. await (rrename fs f d name)))
      | Fcall.Treadlink fid \<Rightarrow> get_fid tbl fid (\<lambda>f. await (rreadlink fs f))
      | Fcall.Tgetattr fid req_mask \<Rightarrow> get_fid tbl fid (\<lambda>f. await (rgetattr fs f req_mask))
      | Fcall.Tsetattr fid msk stat \<Rightarrow> get_fid tbl fid (\<lambda>f. await (rsetattr fs f msk stat))
      | Fcall.Txattrwalk fid _ name \<Rightarrow>
          get_fid tbl fid (\<lambda>f. unwrap_fid nf (\<lambda>n. await (rxattrwalk fs f n name)))
      | Fcall.Txattrcreate fid name attr_size flags \<Rightarrow>
          get_fid tbl fid (\<lambda>f. await (rxattrcreate fs f name attr_size flags))
      | Fcall.Treaddir fid offset cnt \<Rightarrow> get_fid tbl fid (\<lambda>f. await (rreaddir fs f offset cnt))
      | Fcall.Tfsync fid \<Rightarrow> get_fid tbl fid (\<lambda>f. await (rfsync fs f))
      | Fcall.Tlock fid flock \<Rightarrow> get_fid tbl fid (\<lambda>f. await (rlock fs f flock))
      | Fcall.Tgetlock fid flock \<Rightarrow> get_fid tbl fid (\<lambda>f. await (rgetlock fs f flock))
      | Fcall.Tlink dfid fid name \<Rightarrow>
          get_fid tbl dfid (\<lambda>d. get_fid tbl fid (\<lambda>f. await (rlink fs d f name)))
      | Fcall.Tmkdir dfid name mode gid \<Rightarrow> get_fid tbl dfid (\<lambda>d. await (rmkdir fs d name mode gid))
      | Fcall.Trenameat olddirfid oldname newdirfid newname \<Rightarrow>
          get_fid tbl olddirfid (\<lambda>old. get_fid tbl newdirfid (\<lambda>new.
            await (rrenameat fs old oldname new newname)))
      | Fcall.Tunlinkat dirfd name flags \<Rightarrow> get_fid tbl dirfd (\<lambda>d. await (runlinkat fs d name flags))
      | Fcall.Tauth _ uname aname n_uname \<Rightarrow>
          unwrap_fid nf (\<lambda>n. await (rauth fs n uname aname n_uname))
      | Fcall.Tattach _ _ uname aname n_uname \<Rightarrow>
          unwrap_fid nf (\<lambda>n. await (rattach fs n None uname aname n_uname))
      | Fcall.Tversion msize version \<Rightarrow> await (rversion fs msize version)
      | Fcall.Tflush _ \<Rightarrow> await (rflush fs None)
      | Fcall.Twalk fid _ wnames \<Rightarrow>
          get_fid tbl fid (\<lambda>f. unwrap_fid nf (\<lambda>n. await (rwalk fs f n wnames)))
      | Fcall.Tread fid offset cnt \<Rightarrow> get_fid tbl fid (\<lambda>f. await (rread fs f offset cnt))
      | Fcall.Twrite fid offset dat \<Rightarrow> get_fid tbl fid (\<lambda>f. await (rwrite fs f offset dat))
      | Fcall.Tclunk fid \<Rightarrow> get_fid tbl fid (\<lambda>f. await (rclunk fs f))
      | Fcall.Tremove fid \<Rightarrow> get_fid tbl fid (\<lambda>f. await (rremove fs f))
      | _ \<Rightarrow> (\<lambda>s. (Some (Inl (No EOPNOTSUPP)), s)))"

definition drop_clunked :: "Fcall \<Rightarrow> 'a fid_table \<Rightarrow> 'a fid_table" where
  "drop_clunked body tbl = (case body of Fcall.Tclunk fid \<Rightarrow> tbl(fid := None) | _ \<Rightarrow> tbl)"

definition insert_newfid :: "'a Fid option \<Rightarrow> 'a fid_table \<Rightarrow> 'a fid_table" where
  "insert_newfid nf tbl = (case nf of None \<Rightarrow> tbl | Some n \<Rightarrow> tbl(fid_fid n \<mapsto> n))"

definition dispatch_once ::
  "('a, 's) Filesystem \<Rightarrow> Msg \<Rightarrow> 'a fid_table \<Rightarrow> 's \<Rightarrow> (Error + Fcall) option \<times> 'a fid_table \<times> 's" where
  "dispatch_once fs msg tbl s =
     (let (nf, s1) = make_newfid fs (msg_body msg) s
      in case dispatch_call fs tbl nf (msg_body msg) s1 of
           (Some (Inr response), s2) \<Rightarrow>
             (Some (Inr response), insert_newfid nf (drop_clunked (msg_body msg) tbl), s2)
         | (r, s2) \<Rightarrow> (r, tbl, s2))"

section \<open>Connections and their tasks\<close>

text \<open>
  \<open>dispatch\<close> reads frames and spawns a task per message. What the framed reader yields is
  a list of frames or read errors (the framing is \<open>tokio_util\<close>'s); what is handed to the
  framed writer is a list of frames. A task goes through the phases of \<open>dispatch_once\<close>: the
  handler runs while the table is locked for reading, so no other task changes the table
  meanwhile; then come, each under its own write lock, the removal of a clunked fid and the
  insertion of a new one; then the reply is written and sent under the lock of the writer.
  Between two phases any other task may run. A handler is one step: how handlers interleave
  inside the file system is not modelled.
\<close>

datatype 'a task =
    Spawned Msg
  | Handled Msg "'a Fid option" Fcall
  | Dropped Msg "'a Fid option" Fcall
  | Replying Msg Fcall
  | Finished Msg
  | Panicked Msg

datatype conn = Reading | Closed "Error + unit"

record ('a, 's) server =
  srv_in :: "(io_error + u8 list) list"
  srv_conn :: conn
  srv_tasks :: "'a task list"
  srv_fids :: "'a fid_table"
  srv_fs :: 's
  srv_out :: "u8 list list"

definition serve_init :: "(io_error + u8 list) list \<Rightarrow> 's \<Rightarrow> ('a, 's) server" where
  "serve_init frames s =
     \<lparr>srv_in = frames, srv_conn = Reading, srv_tasks = [], srv_fids = Map.empty, srv_fs = s,
      srv_out = []\<rparr>"

text \<open>One round of the loop \<open>while let Some(bytes) = framedread.next().await\<close>.\<close>

definition receive :: "('a, 's) server \<Rightarrow> ('a, 's) server" where
  "receive c =
     (case srv_in c of
        [] \<Rightarrow> c\<lparr>srv_conn := Closed (Inr ())\<rparr>
      | Inl e # rest \<Rightarrow> c\<lparr>srv_in := rest, srv_conn := Closed (Inl (Error_from_io e))\<rparr>
      | Inr bytes # rest \<Rightarrow>
          (case read_msg bytes of
             Inl e \<Rightarrow> c\<lparr>srv_in := rest, srv_conn := Closed (Inl (Error_from_io e))\<rparr>
           | Inr (msg, _) \<Rightarrow> c\<lparr>srv_in := rest, srv_tasks := srv_tasks c @ [Spawned msg]\<rparr>))"

definition error_reply :: "nix \<Rightarrow> Error \<Rightarrow> Fcall" where
  "error_reply N e = Fcall.Rlerror (errno_as_u32 N (errno N e))"

text \<open>The frame of a reply, or \<open>None\<close> when writing it fails and the \<open>unwrap\<close> panics.\<close>

definition reply_frame :: "Msg \<Rightarrow> Fcall \<Rightarrow> u8 list option" where
  "reply_frame msg response_fcall =
     (case write_msg vec_writer \<lparr>msg_tag = msg_tag msg, msg_body = response_fcall\<rparr> of
        Inl e \<Rightarrow> None
      | Inr (n, w) \<Rightarrow> Some (w_buf w))"

text \<open>The next phase of task \<open>i\<close>.\<close>

definition run_task :: "nix \<Rightarrow> ('a, 's) Filesystem \<Rightarrow> nat \<Rightarrow> ('a, 's) server \<Rightarrow> ('a, 's) server" where
  "run_task N fs i c =
     (case srv_tasks c ! i of
        Spawned msg \<Rightarrow>
          (let (nf, s1) = make_newfid fs (msg_body msg) (srv_fs c)
           in case dispatch_call fs (srv_fids c) nf (msg_body msg) s1 of
                (Some (Inr response), s2) \<Rightarrow>
                  c\<lparr>srv_tasks := (srv_tasks c)[i := Handled msg nf response], srv_fs := s2\<rparr>
              | (Some (Inl e), s2) \<Rightarrow>
                  c\<lparr>srv_tasks := (srv_tasks c)[i := Replying msg (error_reply N e)], srv_fs := s2\<rparr>
              | (None, s2) \<Rightarrow>
                  c\<lparr>srv_tasks := (srv_tasks c)[i := Panicked msg], srv_fs := s2\<rparr>)
      | Handled msg nf response \<Rightarrow>
          c\<lparr>srv_tasks := (srv_tasks c)[i := Dropped msg nf response],
            srv_fids := drop_clunked (msg_body msg) (srv_fids c)\<rparr>
      | Dropped msg nf response \<Rightarrow>
          c\<lparr>srv_tasks := (srv_tasks c)[i := Replying msg response],
            srv_fids := insert_newfid nf (srv_fids c)\<rparr>
      | Replying msg response_fcall \<Rightarrow>
          (if MsgType_is_r (MsgType_from response_fcall)
           then case reply_frame msg response_fcall of
                  None \<Rightarrow> c\<lparr>srv_tasks := (srv_tasks c)[i := Panicked msg]\<rparr>
                | Some frame \<Rightarrow>
                    c\<lparr>srv_tasks := (srv_tasks c)[i := Finished msg], srv_out := srv_out c @ [frame]\<rparr>
           else c\<lparr>srv_tasks := (srv_tasks c)[i := Finished msg]\<rparr>)
      | Finished msg \<Rightarrow> c
      | Panicked msg \<Rightarrow> c)"

fun task_done :: "'a task \<Rightarrow> bool" where
  "task_done (Finished _) = True"
| "task_done (Panicked _) = True"
| "task_done _ = False"

text \<open>
  The steps of a connection: the loop receives, a task runs its next phase, or the framed
  writer fails to send a reply, on which the task panics (\<open>send(...).await.unwrap()\<close>).
\<close>

inductive serve_step :: "nix \<Rightarrow> ('a, 's) Filesystem \<Rightarrow> ('a, 's) server \<Rightarrow> ('a, 's) server \<Rightarrow> bool"
  for N fs where
  receive: "srv_conn c = Reading \<Longrightarrow> serve_step N fs c (receive c)"
| run: "i < length (srv_tasks c) \<Longrightarrow> \<not> task_done (srv_tasks c ! i) \<Longrightarrow>
    serve_step N fs c (run_task N fs i c)"
| send_fails: "i < length (srv_tasks c) \<Longrightarrow> srv_tasks c ! i = Replying msg response \<Longrightarrow>
    serve_step N fs c (c\<lparr>srv_tasks := (srv_tasks c)[i := Panicked msg]\<rparr>)"

inductive serves :: "nix \<Rightarrow> ('a, 's) Filesystem \<Rightarrow> ('a, 's) server \<Rightarrow> ('a, 's) server \<Rightarrow> bool"
  for N fs c where
  start: "serves N fs c c"
| step: "serves N fs c d \<Longrightarrow> serve_step N fs d e \<Longrightarrow> serves N fs c e"

section \<open>Listeners\<close>

text \<open>
  \<open>srv_async_tcp\<close> and \<open>srv_async_unix\<close>: \<open>dispatch\<close> is spawned on every connection; the first
  error of \<open>accept\<close> ends the listener. The connections that are served, and the result,
  \<open>None\<close> while it still accepts.
\<close>

fun accept_loop :: "(io_error + 'p) list \<Rightarrow> 'p list \<times> (Error + unit) option" where
  "accept_loop [] = ([], None)"
| "accept_loop (Inl e # accepts) = ([], Some (Inl (Error_from_io e)))"
| "accept_loop (Inr peer # accepts) = (let (peers, r) = accept_loop accepts in (peer # peers, r))"

definition srv_async_listener ::
  "(string \<Rightarrow> io_error + (io_error + 'p) list) \<Rightarrow> string \<Rightarrow> 'p list \<times> (Error + unit) option" where
  "srv_async_listener bind addr =
     (case bind addr of
        Inl e \<Rightarrow> ([], Some (Inl (Error_from_io e)))
      | Inr accepts \<Rightarrow> accept_loop accepts)"

lemma accept_loop_serves:
  "accept_loop (map Inr peers @ accepts) = (peers @ fst (accept_loop accepts), snd (accept_loop accepts))"
  by (induction peers) (simp_all add: case_prod_beta Let_def)

section \<open>Addresses\<close>

text \<open>
  \<open>srv_async\<close> picks the listener from an address of the form \<open>proto!addr!port\<close>; the
  arguments \<open>tcp\<close> and \<open>unix\<close> stand for \<open>srv_async_listener\<close> on the two kinds of sockets.
\<close>

definition parse_proto :: "string \<Rightarrow> (string \<times> string) option" where
  "parse_proto arg =
     (case split_on (CHR ''!'') arg of
        proto # addr # port # _ \<Rightarrow> Some (proto, addr @ '':'' @ port)
      | _ \<Rightarrow> None)"

definition srv_async ::
  "(string \<Rightarrow> Error + 'r) \<Rightarrow> (string \<Rightarrow> Error + 'r) \<Rightarrow> string \<Rightarrow> Error + 'r" where
  "srv_async tcp unix addr =
     (case parse_proto addr of
        None \<Rightarrow> Inl (Error_from_io (Simple InvalidInput ''Invalid protocol or address''))
      | Some (proto, listen_addr) \<Rightarrow>
          if proto = ''tcp'' then tcp listen_addr
          else if proto = ''unix'' then unix listen_addr
          else Inl (Error_from_io (Simple InvalidInput ''Protocol not supported'')))"

section \<open>Lemmas on one message\<close>

lemma make_newfid_fst:
  "fst (make_newfid fs body s) =
     map_option (\<lambda>f. \<lparr>fid_fid = f, fid_aux = fst (fs_default fs s)\<rparr>) (newfid body)"
  by (simp add: make_newfid_def case_prod_beta Let_def split: option.split)

lemma await_fst [simp]: "fst (await h s) = Some (fst (h s))"
  by (simp add: await_def case_prod_beta Let_def)

lemma get_fid_None [simp]: "tbl f = None \<Longrightarrow> get_fid tbl f k s = (Some (Inl (No EBADF)), s)"
  by (simp add: get_fid_def)

lemma get_fid_Some [simp]: "tbl f = Some x \<Longrightarrow> get_fid tbl f k = k x"
  by (simp add: get_fid_def fun_eq_iff)

lemma get_fid_fst_not_None: "(\<And>x. fst (k x s) \<noteq> None) \<Longrightarrow> fst (get_fid tbl f k s) \<noteq> None"
  by (cases "tbl f") simp_all

lemma unwrap_fid_Some [simp]: "unwrap_fid (Some x) k = k x"
  by (simp add: unwrap_fid_def fun_eq_iff)

text \<open>The \<open>unwrap\<close>s are safe: exactly the messages that use them have a new fid.\<close>

lemma dispatch_call_not_None:
  assumes "newfid body = None \<longleftrightarrow> nf = None"
  shows "fst (dispatch_call fs tbl nf body s) \<noteq> None"
proof (cases nf)
  case None
  with assms have "newfid body = None" by simp
  then show ?thesis
    by (cases body) (simp_all add: dispatch_call_def newfid_def get_fid_fst_not_None)
next
  case (Some n)
  then show ?thesis
    by (cases body) (simp_all add: dispatch_call_def get_fid_fst_not_None)
qed

lemma make_newfid_None_iff: "make_newfid fs body s = (nf, s1) \<Longrightarrow> newfid body = None \<longleftrightarrow> nf = None"
  using make_newfid_fst [of fs body s] by (cases "newfid body") auto

lemma dispatch_once_cases:
  obtains (ok) nf s1 r s2 where "make_newfid fs (msg_body msg) s = (nf, s1)"
      "dispatch_call fs tbl nf (msg_body msg) s1 = (Some (Inr r), s2)"
      "dispatch_once fs msg tbl s =
         (Some (Inr r), insert_newfid nf (drop_clunked (msg_body msg) tbl), s2)"
  | (err) nf s1 e s2 where "make_newfid fs (msg_body msg) s = (nf, s1)"
      "dispatch_call fs tbl nf (msg_body msg) s1 = (Some (Inl e), s2)"
      "dispatch_once fs msg tbl s = (Some (Inl e), tbl, s2)"
proof -
  obtain nf s1 where nf: "make_newfid fs (msg_body msg) s = (nf, s1)" by fastforce
  obtain r s2 where r: "dispatch_call fs tbl nf (msg_body msg) s1 = (r, s2)" by fastforce
  have "r \<noteq> None"
    using dispatch_call_not_None [OF make_newfid_None_iff [OF nf], of fs tbl s1] r by simp
  then consider e where "r = Some (Inl e)" | x where "r = Some (Inr x)"
    by (metis not_None_eq obj_sumE)
  then show thesis
    using nf r that by cases (auto simp: dispatch_once_def)
qed

lemma dispatch_call_unknown_fid:
  assumes "f \<in> set (fids body)" "tbl f = None" "MsgType_from body \<noteq> MsgType.Tattach"
  shows "dispatch_call fs tbl nf body s = (Some (Inl (No EBADF)), s)"
proof (cases body)
  case (Trename fid dfid name)
  with assms show ?thesis by (cases "tbl fid") (auto simp: dispatch_call_def fids_def)
next
  case (Tlink dfid fid name)
  with assms show ?thesis by (cases "tbl dfid") (auto simp: dispatch_call_def fids_def)
next
  case (Trenameat olddirfid oldname newdirfid newname)
  with assms show ?thesis by (cases "tbl olddirfid") (auto simp: dispatch_call_def fids_def)
qed (use assms in \<open>simp_all add: dispatch_call_def fids_def\<close>)

lemma dispatch_call_reply_message:
  "MsgType_is_r (MsgType_from body) \<Longrightarrow> dispatch_call fs tbl nf body s = (Some (Inl (No EOPNOTSUPP)), s)"
  by (cases body) (simp_all add: dispatch_call_def MsgType_is_r_def)

lemma newfid_reply_message: "MsgType_is_r (MsgType_from body) \<Longrightarrow> newfid body = None"
  by (cases body) (simp_all add: newfid_def MsgType_is_r_def)

section \<open>The contract of a file system\<close>

text \<open>
  "They must return \<open>Fcall\<close> with the required fields filled": the reply of every method
  is of the type that answers it. The server relies on it when it decides whether to send a
  response at all.
\<close>

definition answers :: "'s reply \<Rightarrow> MsgType \<Rightarrow> bool" where
  "answers h t \<longleftrightarrow> (\<forall>s. case h s of (Inr r, _) \<Rightarrow> MsgType_from r = t | (Inl _, _) \<Rightarrow> True)"

lemma answersD: "answers h t \<Longrightarrow> h s = (Inr r, s') \<Longrightarrow> MsgType_from r = t"
  by (auto simp: answers_def split: prod.splits sum.splits dest: spec [of _ s])

lemma answers_unsupported: "answers unsupported t"
  by (simp add: answers_def unsupported_def)

lemma answers_default_rversion: "answers (default_rversion m v) MsgType.Rversion"
  by (simp add: answers_def default_rversion_def)

text \<open>The same for the outcome of a call, and how it passes through the lookups.\<close>

definition outcome_type :: "'s outcome \<Rightarrow> MsgType \<Rightarrow> bool" where
  "outcome_type k t \<longleftrightarrow>
     (\<forall>s. case k s of (Some (Inr r), _) \<Rightarrow> MsgType_from r = t | _ \<Rightarrow> True)"

lemma outcome_typeD: "outcome_type k t \<Longrightarrow> k s = (Some (Inr r), s') \<Longrightarrow> MsgType_from r = t"
  unfolding outcome_type_def by (drule spec [of _ s]) simp

lemma outcome_await: "answers h t \<Longrightarrow> outcome_type (await h) t"
  by (auto simp: outcome_type_def answers_def await_def split: prod.splits sum.splits)

lemma outcome_get_fid: "(\<And>x. outcome_type (k x) t) \<Longrightarrow> outcome_type (get_fid tbl f k) t"
  by (auto simp: outcome_type_def get_fid_def split: option.splits)

lemma outcome_unwrap_fid: "(\<And>x. outcome_type (k x) t) \<Longrightarrow> outcome_type (unwrap_fid nf k) t"
  by (auto simp: outcome_type_def unwrap_fid_def split: option.splits)

lemmas outcome_intro = outcome_await outcome_get_fid outcome_unwrap_fid

lemma MsgType_is_r_odd: "MsgType_is_r t \<longleftrightarrow> odd (MsgType_as_u8 t)"
  by (cases t) (simp_all add: MsgType_is_r_def)

lemma next_type_is_r:
  "MsgType_as_u8 t = MsgType_as_u8 t' + 1 \<Longrightarrow> MsgType_is_t t' \<Longrightarrow> MsgType_is_r t"
  by (simp add: MsgType_is_r_odd MsgType_is_t_def)

locale filesystem =
  fixes fs :: "('a, 's) Filesystem"
  assumes ans_statfs: "answers (rstatfs fs f) MsgType.Rstatfs"
    and ans_lopen: "answers (rlopen fs f flags) MsgType.Rlopen"
    and ans_lcreate: "answers (rlcreate fs f name flags mode gid) MsgType.Rlcreate"
    and ans_symlink: "answers (rsymlink fs f name symtgt gid) MsgType.Rsymlink"
    and ans_mknod: "answers (rmknod fs f name mode major minor gid) MsgType.Rmknod"
    and ans_rename: "answers (rrename fs f d name) MsgType.Rrename"
    and ans_readlink: "answers (rreadlink fs f) MsgType.Rreadlink"
    and ans_getattr: "answers (rgetattr fs f req_mask) MsgType.Rgetattr"
    and ans_setattr: "answers (rsetattr fs f msk stat) MsgType.Rsetattr"
    and ans_xattrwalk: "answers (rxattrwalk fs f d name) MsgType.Rxattrwalk"
    and ans_xattrcreate: "answers (rxattrcreate fs f name sz flags) MsgType.Rxattrcreate"
    and ans_readdir: "answers (rreaddir fs f off cnt) MsgType.Rreaddir"
    and ans_fsync: "answers (rfsync fs f) MsgType.Rfsync"
    and ans_lock: "answers (rlock fs f lock) MsgType.Rlock"
    and ans_getlock: "answers (rgetlock fs f glock) MsgType.Rgetlock"
    and ans_link: "answers (rlink fs d f name) MsgType.Rlink"
    and ans_mkdir: "answers (rmkdir fs d name mode gid) MsgType.Rmkdir"
    and ans_renameat: "answers (rrenameat fs d name d' name') MsgType.Rrenameat"
    and ans_unlinkat: "answers (runlinkat fs d name flags) MsgType.Runlinkat"
    and ans_auth: "answers (rauth fs f uname aname n_uname) MsgType.Rauth"
    and ans_attach: "answers (rattach fs f afid uname aname n_uname) MsgType.Rattach"
    and ans_flush: "answers (rflush fs old) MsgType.Rflush"
    and ans_walk: "answers (rwalk fs f d wnames) MsgType.Rwalk"
    and ans_read: "answers (rread fs f off cnt) MsgType.Rread"
    and ans_write: "answers (rwrite fs f off dat) MsgType.Rwrite"
    and ans_clunk: "answers (rclunk fs f) MsgType.Rclunk"
    and ans_remove: "answers (rremove fs f) MsgType.Rremove"
    and ans_version: "answers (rversion fs msize ver) MsgType.Rversion"
begin

lemmas ans = ans_statfs ans_lopen ans_lcreate ans_symlink ans_mknod ans_rename ans_readlink
  ans_getattr ans_setattr ans_xattrwalk ans_xattrcreate ans_readdir ans_fsync ans_lock ans_getlock
  ans_link ans_mkdir ans_renameat ans_unlinkat ans_auth ans_attach ans_flush ans_walk ans_read
  ans_write ans_clunk ans_remove ans_version

text \<open>A successful reply has the type right after that of the request.\<close>

lemma dispatch_call_type:
  "MsgType_is_t (MsgType_from body) \<Longrightarrow>
     \<exists>t. outcome_type (dispatch_call fs tbl nf body) t \<and>
       MsgType_as_u8 t = MsgType_as_u8 (MsgType_from body) + 1"
  by (cases body;
      simp only: dispatch_call_def Fcall.case MsgType_from.simps MsgType_is_t_def MsgType_is_r_def
        MsgType.case not_True_eq_False;
      (intro exI conjI, (rule outcome_intro ans)+, simp))

lemma reply_type:
  assumes "dispatch_call fs tbl nf body s = (Some (Inr r), s')"
  shows "MsgType_as_u8 (MsgType_from r) = MsgType_as_u8 (MsgType_from body) + 1"
    and "MsgType_is_r (MsgType_from r)"
proof -
  have "MsgType_is_t (MsgType_from body)"
    using assms dispatch_call_reply_message [of body fs tbl nf s] by (auto simp: MsgType_is_t_def)
  then obtain t where t: "outcome_type (dispatch_call fs tbl nf body) t"
    and u: "MsgType_as_u8 t = MsgType_as_u8 (MsgType_from body) + 1"
    using dispatch_call_type by blast
  from t assms have "MsgType_from r = t" by (rule outcome_typeD)
  with u show *: "MsgType_as_u8 (MsgType_from r) = MsgType_as_u8 (MsgType_from body) + 1" by simp
  from * \<open>MsgType_is_t (MsgType_from body)\<close> show "MsgType_is_r (MsgType_from r)"
    by (rule next_type_is_r)
qed

end

interpretation dflt: filesystem "default_Filesystem dflt"
  by unfold_locales
    (simp_all add: default_Filesystem_def answers_unsupported answers_default_rversion)

section \<open>Lemmas on connections\<close>

inductive_cases serve_stepE: "serve_step N fs c d"

fun task_msg :: "'a task \<Rightarrow> Msg" where
  "task_msg (Spawned m) = m"
| "task_msg (Handled m _ _) = m"
| "task_msg (Dropped m _ _) = m"
| "task_msg (Replying m _) = m"
| "task_msg (Finished m) = m"
| "task_msg (Panicked m) = m"

fun is_finished :: "'a task \<Rightarrow> bool" where
  "is_finished (Finished _) = True"
| "is_finished _ = False"

fun is_panicked :: "'a task \<Rightarrow> bool" where
  "is_panicked (Panicked _) = True"
| "is_panicked _ = False"

text \<open>The type and the tag of a frame, read off its bytes.\<close>

definition frame_type :: "u8 list \<Rightarrow> MsgType option" where
  "frame_type bs = (case bs of [] \<Rightarrow> None | b # _ \<Rightarrow> MsgType_from_u8 b)"

definition frame_tag :: "u8 list \<Rightarrow> u16" where
  "frame_tag bs = of_nat (le_nat (take 2 (drop 1 bs)))"

lemma reply_frame_Some:
  "\<exists>frame. reply_frame msg f = Some frame \<and> frame_tag frame = msg_tag msg \<and>
     frame_type frame = Some (MsgType_from f)"
proof -
  let ?m = "\<lparr>msg_tag = msg_tag msg, msg_body = f\<rparr>"
  let ?bs = "wire (encode_Msg ?m)"
  have bs: "?bs = MsgType_as_u8 (MsgType_from f) # le_bytes 2 (unat (msg_tag msg)) @
      concat (map wire (encode_Fcall f))"
    by (simp add: wire_Msg_header wire_word del: MsgType_as_u8.simps)
  have "reply_frame msg f = Some ?bs"
    using msg.encode_vec [of ?m "[]"] by (simp add: reply_frame_def write_msg_def vec_writer_def)
  moreover have "frame_tag ?bs = msg_tag msg"
    by (simp add: frame_tag_def bs le_nat_unat del: le_bytes.simps)
  moreover have "frame_type ?bs = Some (MsgType_from f)"
    by (simp add: frame_type_def bs MsgType_from_u8_as_u8 del: le_bytes.simps)
  ultimately show ?thesis by blast
qed

lemma run_task_Spawned:
  assumes "srv_tasks c ! i = Spawned msg"
  obtains (ok) nf r s2 where
      "fst (make_newfid fs (msg_body msg) (srv_fs c)) = nf"
      "dispatch_call fs (srv_fids c) nf (msg_body msg) (snd (make_newfid fs (msg_body msg) (srv_fs c)))
         = (Some (Inr r), s2)"
      "run_task N fs i c = c\<lparr>srv_tasks := (srv_tasks c)[i := Handled msg nf r], srv_fs := s2\<rparr>"
      "dispatch_once fs msg (srv_fids c) (srv_fs c) =
         (Some (Inr r), insert_newfid nf (drop_clunked (msg_body msg) (srv_fids c)), s2)"
  | (err) e s2 where
      "run_task N fs i c = c\<lparr>srv_tasks := (srv_tasks c)[i := Replying msg (error_reply N e)], srv_fs := s2\<rparr>"
      "dispatch_once fs msg (srv_fids c) (srv_fs c) = (Some (Inl e), srv_fids c, s2)"
  using assms
  by (cases rule: dispatch_once_cases [of fs msg "srv_fs c" "srv_fids c"])
    (auto simp: run_task_def)

lemma run_task_Replying:
  assumes "srv_tasks c ! i = Replying msg f" "MsgType_is_r (MsgType_from f)"
  obtains frame where "frame_tag frame = msg_tag msg" "frame_type frame = Some (MsgType_from f)"
    "run_task N fs i c =
       c\<lparr>srv_tasks := (srv_tasks c)[i := Finished msg], srv_out := srv_out c @ [frame]\<rparr>"
  using assms reply_frame_Some [of msg f] by (auto simp: run_task_def)

text \<open>The rank of a connection: every step makes it smaller.\<close>

fun task_rank :: "'a task \<Rightarrow> nat" where
  "task_rank (Spawned _) = 4"
| "task_rank (Handled _ _ _) = 3"
| "task_rank (Dropped _ _ _) = 2"
| "task_rank (Replying _ _) = 1"
| "task_rank (Finished _) = 0"
| "task_rank (Panicked _) = 0"

definition rank :: "('a, 's) server \<Rightarrow> nat" where
  "rank c = (if srv_conn c = Reading then 1 + 5 * length (srv_in c) else 0)
     + (\<Sum>t\<in>#mset (srv_tasks c). task_rank t)"

lemma rank_receive: "srv_conn c = Reading \<Longrightarrow> rank (receive c) < rank c"
  by (auto simp: rank_def receive_def split: list.splits sum.splits prod.splits)

lemma sum_rank_update:
  assumes "i < length ts" "task_rank t < task_rank (ts ! i)"
  shows "(\<Sum>t\<in>#mset (ts[i := t]). task_rank t) < (\<Sum>t\<in>#mset ts. task_rank t)"
proof -
  from assms(1) obtain M where "mset ts = add_mset (ts ! i) M" "mset (ts[i := t]) = add_mset t M"
    by (rule mset_list_update)
  with assms(2) show ?thesis by simp
qed

lemma run_task_update:
  assumes "i < length (srv_tasks c)" "\<not> task_done (srv_tasks c ! i)"
  obtains t where "srv_tasks (run_task N fs i c) = (srv_tasks c)[i := t]"
    "task_rank t < task_rank (srv_tasks c ! i)" "task_msg t = task_msg (srv_tasks c ! i)"
    "\<not> is_panicked t" "srv_in (run_task N fs i c) = srv_in c" "srv_conn (run_task N fs i c) = srv_conn c"
proof (cases "srv_tasks c ! i")
  case (Spawned msg)
  then show ?thesis
  proof (cases rule: run_task_Spawned [where fs = fs and N = N])
    case (ok nf r s2)
    with Spawned show ?thesis by (intro that [of "Handled msg nf r"]) simp_all
  next
    case (err e s2)
    with Spawned show ?thesis by (intro that [of "Replying msg (error_reply N e)"]) simp_all
  qed
next
  case (Replying msg f)
  then show ?thesis
    by (cases "MsgType_is_r (MsgType_from f)")
      (use reply_frame_Some [of msg f] in \<open>auto simp: run_task_def intro: that\<close>)
qed (use assms in \<open>auto simp: run_task_def intro: that\<close>)

lemma rank_run:
  assumes "i < length (srv_tasks c)" "\<not> task_done (srv_tasks c ! i)"
  shows "rank (run_task N fs i c) < rank c"
  using assms
proof (rule run_task_update)
  fix t
  assume "srv_tasks (run_task N fs i c) = (srv_tasks c)[i := t]"
    "task_rank t < task_rank (srv_tasks c ! i)"
    "srv_in (run_task N fs i c) = srv_in c" "srv_conn (run_task N fs i c) = srv_conn c"
  then show ?thesis using sum_rank_update [OF assms(1), of t] by (simp add: rank_def)
qed

lemma rank_step: "serve_step N fs c d \<Longrightarrow> rank d < rank c"
proof (induction rule: serve_step.induct)
  case (receive c)
  then show ?case by (rule rank_receive)
next
  case (run i c)
  then show ?case by (rule rank_run)
next
  case (send_fails i c msg response)
  then show ?case
    using sum_rank_update [of i "srv_tasks c" "Panicked msg"] by (simp add: rank_def)
qed

end
