(* ===== verification/Srv_Properties.thy ===== *)
theory Srv_Properties
  imports Srv
begin

text \<open>
  The properties of the 9P server: what a message does to the table of fids, that the
  phases of a task run alone are the handling of its message, and, over every reachable
  state of a connection, that requests are answered once, by a reply of their tag and type,
  and that a connection comes to its end.
\<close>

section \<open>What a connection is about\<close>

text \<open>The messages that the frames of a client hold, up to the first that cannot be read.\<close>

fun requests :: "(io_error + u8 list) list \<Rightarrow> Msg list" where
  "requests [] = []"
| "requests (Inl e # rest) = []"
| "requests (Inr bytes # rest) =
     (case read_msg bytes of Inl e \<Rightarrow> [] | Inr (msg, _) \<Rightarrow> msg # requests rest)"

text \<open>A reply answers a request: an error, or the type right after that of the request.\<close>

definition reply_answers :: "Msg \<Rightarrow> Fcall \<Rightarrow> bool" where
  "reply_answers msg r \<longleftrightarrow> MsgType_is_r (MsgType_from r) \<and>
     (MsgType_from r = MsgType.Rlerror \<or>
      MsgType_as_u8 (MsgType_from r) = MsgType_as_u8 (MsgType_from (msg_body msg)) + 1)"

definition frame_answers :: "Msg \<Rightarrow> u8 list \<Rightarrow> bool" where
  "frame_answers msg bs \<longleftrightarrow> frame_tag bs = msg_tag msg \<and>
     (\<exists>t. frame_type bs = Some t \<and> MsgType_is_r t \<and>
        (t = MsgType.Rlerror \<or> MsgType_as_u8 t = MsgType_as_u8 (MsgType_from (msg_body msg)) + 1))"

lemma reply_answers_error [simp]: "reply_answers msg (error_reply N e)"
  by (simp add: reply_answers_def error_reply_def MsgType_is_r_def)

lemma reply_frame_answers:
  "reply_answers msg r \<Longrightarrow> \<exists>frame. reply_frame msg r = Some frame \<and> frame_answers msg frame"
  using reply_frame_Some [of msg r] by (auto simp: reply_answers_def frame_answers_def)

section \<open>Invariants of a connection\<close>

text \<open>An invariant of the steps holds of every state a connection reaches.\<close>

lemma serves_invariant:
  assumes "serves N fs c d" "P c" "\<And>x y. P x \<Longrightarrow> serve_step N fs x y \<Longrightarrow> P y"
  shows "P d"
  using assms by (induction rule: serves.induct) blast+

definition keyed :: "'a fid_table \<Rightarrow> bool" where
  "keyed tbl \<longleftrightarrow> (\<forall>k f. tbl k = Some f \<longrightarrow> fid_fid f = k)"

lemma keyed_insert: "keyed tbl \<Longrightarrow> keyed (insert_newfid nf tbl)"
  by (auto simp: keyed_def insert_newfid_def split: option.splits)

lemma keyed_drop: "keyed tbl \<Longrightarrow> keyed (drop_clunked body tbl)"
  by (auto simp: keyed_def drop_clunked_def split: Fcall.splits)

lemma receive_fids [simp]: "srv_fids (receive c) = srv_fids c"
  by (simp add: receive_def split: list.split sum.split prod.split)

lemma receive_out [simp]: "srv_out (receive c) = srv_out c"
  by (simp add: receive_def split: list.split sum.split prod.split)

lemma run_task_fids:
  "srv_fids (run_task N fs i c) =
     (case srv_tasks c ! i of
        Handled msg nf r \<Rightarrow> drop_clunked (msg_body msg) (srv_fids c)
      | Dropped msg nf r \<Rightarrow> insert_newfid nf (srv_fids c)
      | _ \<Rightarrow> srv_fids c)"
  by (simp add: run_task_def Let_def split: task.split prod.split option.split sum.split)

lemma keyed_step: "serve_step N fs c d \<Longrightarrow> keyed (srv_fids c) \<Longrightarrow> keyed (srv_fids d)"
  by (erule serve_step.cases)
    (auto simp: run_task_fids keyed_insert keyed_drop split: task.splits)

text \<open>What was read from the client is what the tasks are for.\<close>

definition received :: "(io_error + u8 list) list \<Rightarrow> ('a, 's) server \<Rightarrow> bool" where
  "received frames c \<longleftrightarrow>
     requests frames = map task_msg (srv_tasks c) @
       (if srv_conn c = Reading then requests (srv_in c) else [])"

lemma map_task_msg_update:
  "i < length ts \<Longrightarrow> task_msg t = task_msg (ts ! i) \<Longrightarrow> map task_msg (ts[i := t]) = map task_msg ts"
  by (metis map_update nth_map list_update_id)

lemma received_step:
  assumes "serve_step N fs c d" "received frames c"
  shows "received frames d"
  using assms
proof (induction rule: serve_step.induct)
  case (receive c)
  then show ?case
    by (auto simp: received_def receive_def split: list.splits sum.splits prod.splits)
next
  case (run i c)
  from run(1,2) show ?case
  proof (rule run_task_update)
    fix t
    assume "srv_tasks (run_task N fs i c) = (srv_tasks c)[i := t]"
      "task_msg t = task_msg (srv_tasks c ! i)"
      "srv_in (run_task N fs i c) = srv_in c" "srv_conn (run_task N fs i c) = srv_conn c"
    with run show ?case by (simp add: received_def map_task_msg_update)
  qed
next
  case (send_fails i c msg response)
  then show ?case by (simp add: received_def map_task_msg_update)
qed

text \<open>
  The replies: what a task is about to send answers its message, and the frames sent so far
  are the answers to the messages of the finished tasks, one each.
\<close>

fun task_ok :: "'a task \<Rightarrow> bool" where
  "task_ok (Handled msg nf r) = reply_answers msg r"
| "task_ok (Dropped msg nf r) = reply_answers msg r"
| "task_ok (Replying msg r) = reply_answers msg r"
| "task_ok _ = True"

definition finished_msgs :: "'a task list \<Rightarrow> Msg multiset" where
  "finished_msgs ts = image_mset task_msg (filter_mset is_finished (mset ts))"

definition replied :: "('a, 's) server \<Rightarrow> bool" where
  "replied c \<longleftrightarrow> list_all task_ok (srv_tasks c) \<and>
     (\<exists>ms. mset ms = finished_msgs (srv_tasks c) \<and> list_all2 frame_answers ms (srv_out c))"

lemma finished_msgs_update:
  assumes "i < length ts" "\<not> is_finished (ts ! i)"
  shows "finished_msgs (ts[i := t]) =
    (if is_finished t then add_mset (task_msg t) (finished_msgs ts) else finished_msgs ts)"
proof -
  from assms(1) obtain M where "mset ts = add_mset (ts ! i) M" "mset (ts[i := t]) = add_mset t M"
    by (rule mset_list_update)
  with assms(2) show ?thesis by (simp add: finished_msgs_def)
qed

lemma not_done_not_finished: "\<not> task_done t \<Longrightarrow> \<not> is_finished t"
  by (cases t) simp_all

lemma replied_update:
  assumes "replied c" "i < length (srv_tasks c)" "\<not> task_done (srv_tasks c ! i)"
    and "task_ok t" "\<not> is_finished t" "srv_tasks d = (srv_tasks c)[i := t]" "srv_out d = srv_out c"
  shows "replied d"
  using assms by (simp add: replied_def finished_msgs_update not_done_not_finished
      list_all_list_update)

lemma replied_finish:
  assumes "replied c" "i < length (srv_tasks c)" "\<not> task_done (srv_tasks c ! i)"
    and "srv_tasks d = (srv_tasks c)[i := Finished msg]" "srv_out d = srv_out c @ [frame]"
    and "frame_answers msg frame"
  shows "replied d"
proof -
  from assms(1) obtain ms where "mset ms = finished_msgs (srv_tasks c)"
    "list_all2 frame_answers ms (srv_out c)" and ok: "list_all task_ok (srv_tasks c)"
    by (auto simp: replied_def)
  with assms have "mset (ms @ [msg]) = finished_msgs (srv_tasks d)"
    "list_all2 frame_answers (ms @ [msg]) (srv_out d)"
    by (simp_all add: finished_msgs_update not_done_not_finished list_all2_appendI)
  moreover have "list_all task_ok (srv_tasks d)"
    using ok assms(4) by (simp add: list_all_list_update)
  ultimately show ?thesis unfolding replied_def by blast
qed

lemma task_ok_nth: "replied c \<Longrightarrow> i < length (srv_tasks c) \<Longrightarrow> task_ok (srv_tasks c ! i)"
  by (simp add: replied_def list_all_length)

lemma replied_init: "replied (serve_init frames s)"
  by (simp add: replied_def serve_init_def finished_msgs_def)

context filesystem
begin

lemma dispatch_answers:
  "dispatch_call fs tbl nf (msg_body msg) s = (Some (Inr r), s') \<Longrightarrow> reply_answers msg r"
  using reply_type [of tbl nf "msg_body msg" s r s'] by (simp add: reply_answers_def)

lemma replied_run:
  assumes c: "replied c" "i < length (srv_tasks c)" "\<not> task_done (srv_tasks c ! i)"
  shows "replied (run_task N fs i c)"
proof (cases "srv_tasks c ! i")
  case (Spawned msg)
  then show ?thesis
  proof (cases rule: run_task_Spawned [where fs = fs and N = N])
    case (ok nf r s2)
    from ok(2) have "reply_answers msg r" by (rule dispatch_answers)
    with c ok(3) show ?thesis by (intro replied_update [OF c, of "Handled msg nf r"]) simp_all
  next
    case (err e s2)
    with c show ?thesis
      by (intro replied_update [OF c, of "Replying msg (error_reply N e)"]) simp_all
  qed
next
  case (Handled msg nf r)
  with c task_ok_nth [OF c(1,2)] show ?thesis
    by (intro replied_update [OF c, of "Dropped msg nf r"]) (simp_all add: run_task_def)
next
  case (Dropped msg nf r)
  with c task_ok_nth [OF c(1,2)] show ?thesis
    by (intro replied_update [OF c, of "Replying msg r"]) (simp_all add: run_task_def)
next
  case (Replying msg r)
  with task_ok_nth [OF c(1,2)] have r: "reply_answers msg r" by simp
  then obtain frame where "reply_frame msg r = Some frame" "frame_answers msg frame"
    using reply_frame_answers by blast
  with Replying r show ?thesis
    by (intro replied_finish [OF c, of _ msg frame]) (simp_all add: run_task_def reply_answers_def)
qed (use c in simp_all)

lemma replied_step:
  assumes "serve_step N fs c d" "replied c"
  shows "replied d"
  using assms
proof (cases rule: serve_step.cases)
  case receive
  with assms(2) show ?thesis
    by (auto simp: replied_def receive_def finished_msgs_def split: list.split sum.split prod.split)
next
  case (run i)
  with assms(2) show ?thesis by (simp add: replied_run)
next
  case (send_fails i msg response)
  then show ?thesis
    by (intro replied_update [OF assms(2), of i "Panicked msg"]) simp_all
qed

lemma replied_reachable: "serves N fs (serve_init frames s) c \<Longrightarrow> replied c"
  by (erule serves_invariant [where P = replied], simp add: replied_init, rule replied_step)

end

lemma received_reachable: "serves N fs (serve_init frames s) c \<Longrightarrow> received frames c"
  by (erule serves_invariant [where P = "received frames"])
    (simp add: received_def serve_init_def, rule received_step)

text \<open>A connection can always take a step until its loop has ended and all tasks are done.\<close>

lemma serve_step_stuck_iff:
  "(\<nexists>d. serve_step N fs c d) \<longleftrightarrow> srv_conn c \<noteq> Reading \<and> list_all task_done (srv_tasks c)"
  by (auto simp: list_all_length intro: serve_step.intros elim!: serve_step.cases)

lemma finished_all:
  assumes "list_all task_done ts" "\<not> list_ex is_panicked ts"
  shows "finished_msgs ts = mset (map task_msg ts)"
proof -
  have "task_done t \<Longrightarrow> \<not> is_panicked t \<Longrightarrow> is_finished t" for t :: "'a task" by (cases t) simp_all
  with assms have "filter_mset is_finished (mset ts) = mset ts"
    by (auto simp: filter_mset_eq_conv list_all_iff list_ex_iff)
  then show ?thesis by (simp add: finished_msgs_def)
qed

lemma rank_relpowp: "(serve_step N fs ^^ n) c d \<Longrightarrow> n + rank d \<le> rank c"
proof (induction n arbitrary: d)
  case (Suc n)
  then obtain e where "(serve_step N fs ^^ n) c e" "serve_step N fs e d" by auto
  with Suc.IH rank_step show ?case by fastforce
qed simp

lemma rank_init: "rank (serve_init frames s) = 1 + 5 * length frames"
  by (simp add: rank_def serve_init_def)

lemma answers_all:
  assumes "filesystem fs" "serves N fs (serve_init frames s) c"
    and "\<nexists>d. serve_step N fs c d" "\<not> list_ex is_panicked (srv_tasks c)"
  shows "\<exists>ms. mset ms = mset (requests frames) \<and> list_all2 frame_answers ms (srv_out c)"
proof -
  have "replied c" using assms(2) by (rule filesystem.replied_reachable [OF assms(1)])
  then obtain ms where ms: "mset ms = finished_msgs (srv_tasks c)"
    and out: "list_all2 frame_answers ms (srv_out c)"
    by (auto simp: replied_def)
  from assms(3) have stuck: "srv_conn c \<noteq> Reading" "list_all task_done (srv_tasks c)"
    using serve_step_stuck_iff by blast+
  have "requests frames = map task_msg (srv_tasks c)"
    using received_reachable [OF assms(2)] stuck(1) by (simp add: received_def)
  with ms finished_all [OF stuck(2) assms(4)] have "mset ms = mset (requests frames)" by simp
  with out show ?thesis by blast
qed

text \<open>
  A schedule is a list of what happens next, a receive or a phase of a task; running it gives
  a reachable state, when every step of it is possible.
\<close>

fun run_schedule ::
  "nix \<Rightarrow> ('a, 's) Filesystem \<Rightarrow> nat option list \<Rightarrow> ('a, 's) server \<Rightarrow> ('a, 's) server option" where
  "run_schedule N fs [] c = Some c"
| "run_schedule N fs (None # sched) c =
     (if srv_conn c = Reading then run_schedule N fs sched (receive c) else None)"
| "run_schedule N fs (Some i # sched) c =
     (if i < length (srv_tasks c) \<and> \<not> task_done (srv_tasks c ! i)
      then run_schedule N fs sched (run_task N fs i c) else None)"

lemma run_schedule_steps:
  "run_schedule N fs sched c = Some d \<Longrightarrow> (serve_step N fs ^^ length sched) c d"
  by (induction N fs sched c rule: run_schedule.induct)
    (auto split: if_splits intro: relpowp_Suc_I2 serve_step.intros simp del: relpowp.simps(2))

lemma serves_relpowp: "(serve_step N fs ^^ n) c d \<Longrightarrow> serves N fs c d"
  by (induction n arbitrary: d) (auto intro: serves.intros)

lemmas run_schedule_serves = run_schedule_steps [THEN serves_relpowp]

definition sample_nix :: nix where
  "sample_nix = \<lparr>from_i32 = (\<lambda>_. EIO), errno_as_u32 = (\<lambda>_. 5)\<rparr>"

text \<open>Running a task alone, from its start to its end.\<close>

definition serve_msg ::
  "nix \<Rightarrow> ('a, 's) Filesystem \<Rightarrow> Msg \<Rightarrow> 'a fid_table \<Rightarrow> 's \<Rightarrow> u8 list list \<times> 'a fid_table \<times> 's" where
  "serve_msg N fs msg tbl s =
     (let (r, tbl', s') = dispatch_once fs msg tbl s;
          response = (case r of Some (Inr x) \<Rightarrow> x | Some (Inl e) \<Rightarrow> error_reply N e)
      in (if MsgType_is_r (MsgType_from response) then [the (reply_frame msg response)] else [],
          tbl', s'))"

lemma run_task_Replying_result:
  assumes "srv_tasks c ! i = Replying msg f"
  shows "run_task N fs i c =
    c\<lparr>srv_tasks := (srv_tasks c)[i := Finished msg],
      srv_out := srv_out c @
        (if MsgType_is_r (MsgType_from f) then [the (reply_frame msg f)] else [])\<rparr>"
  using assms reply_frame_Some [of msg f] by (auto simp: run_task_def)

lemma run_task_Finished: "srv_tasks c ! i = Finished msg \<Longrightarrow> run_task N fs i c = c"
  by (simp add: run_task_def)

lemma run_task_Handled: "srv_tasks c ! i = Handled msg nf r \<Longrightarrow>
  run_task N fs i c = c\<lparr>srv_tasks := (srv_tasks c)[i := Dropped msg nf r],
    srv_fids := drop_clunked (msg_body msg) (srv_fids c)\<rparr>"
  by (simp add: run_task_def)

lemma run_task_Dropped: "srv_tasks c ! i = Dropped msg nf r \<Longrightarrow>
  run_task N fs i c = c\<lparr>srv_tasks := (srv_tasks c)[i := Replying msg r],
    srv_fids := insert_newfid nf (srv_fids c)\<rparr>"
  by (simp add: run_task_def)

lemmas run_task_results =
  run_task_Handled run_task_Dropped run_task_Replying_result run_task_Finished

text \<open>A connection that serves its next message alone gets to the state after handling it.\<close>

lemma serves_run:
  "serves N fs c0 c \<Longrightarrow> i < length (srv_tasks c) \<Longrightarrow> \<not> task_done (srv_tasks c ! i) \<Longrightarrow>
     serves N fs c0 (run_task N fs i c)"
  by (blast intro: serves.step serve_step.run)

lemma serves_message:
  assumes "serves N fs c0 c" "srv_conn c = Reading" "srv_in c = Inr bytes # rest"
    and "read_msg bytes = Inr (msg, more_bytes)"
    and "dispatch_once fs msg (srv_fids c) (srv_fs c) = (Some (Inr r), tbl, s)"
    and "MsgType_is_r (MsgType_from r)" "reply_frame msg r = Some frame"
  shows "\<exists>d. serves N fs c0 d \<and> srv_conn d = Reading \<and> srv_in d = rest \<and> srv_fids d = tbl \<and>
    srv_fs d = s \<and> srv_tasks d = srv_tasks c @ [Finished msg] \<and> srv_out d = srv_out c @ [frame]"
proof -
  define i where "i = length (srv_tasks c)"
  define c1 where "c1 = receive c"
  have c1: "srv_tasks c1 ! i = Spawned msg" "i < length (srv_tasks c1)" "srv_in c1 = rest"
    "srv_conn c1 = Reading" "srv_fids c1 = srv_fids c" "srv_fs c1 = srv_fs c"
    using assms(2-4) by (simp_all add: c1_def receive_def i_def)
  have s1: "serves N fs c0 c1"
    unfolding c1_def using assms(1,2) by (blast intro: serves.step serve_step.receive)
  from c1(1) show ?thesis
  proof (cases rule: run_task_Spawned [where fs = fs and N = N])
    case (ok nf r' s2)
    define c2 where "c2 = run_task N fs i c1"
    define c3 where "c3 = run_task N fs i c2"
    define c4 where "c4 = run_task N fs i c3"
    have c2: "srv_tasks c2 ! i = Handled msg nf r" "i < length (srv_tasks c2)"
      using ok assms(5) c1 by (simp_all add: c2_def)
    then have c3: "srv_tasks c3 ! i = Dropped msg nf r" "i < length (srv_tasks c3)"
      by (simp_all add: c3_def run_task_Handled)
    then have c4: "srv_tasks c4 ! i = Replying msg r" "i < length (srv_tasks c4)"
      by (simp_all add: c4_def run_task_Dropped)
    have "serves N fs c0 c2" unfolding c2_def by (rule serves_run [OF s1]) (simp_all add: c1)
    then have "serves N fs c0 c3" unfolding c3_def by (rule serves_run) (simp_all add: c2)
    then have "serves N fs c0 c4" unfolding c4_def by (rule serves_run) (simp_all add: c3)
    then have "serves N fs c0 (run_task N fs i c4)" by (rule serves_run) (simp_all add: c4)
    moreover have "run_task N fs i c4 = c1\<lparr>srv_tasks := (srv_tasks c1)[i := Finished msg],
        srv_fs := s2, srv_fids := insert_newfid nf (drop_clunked (msg_body msg) (srv_fids c1)),
        srv_out := srv_out c1 @ [frame]\<rparr>"
      using c1(2) run_task_Replying_result [OF c4(1), of N fs] assms(6,7) ok(3)
      unfolding c4_def run_task_Dropped [OF c3(1)] unfolding c3_def run_task_Handled [OF c2(1)]
      by (simp add: c2_def)
    moreover have "srv_out c1 = srv_out c" "(srv_tasks c1)[i := Finished msg] = srv_tasks c @ [Finished msg]"
      using assms(2-4) by (simp_all add: c1_def receive_def i_def)
    ultimately show ?thesis
      using ok(4) assms(5) c1 by (intro exI [of _ "run_task N fs i c4"]) simp
  next
    case (err e s2)
    with assms(5) c1 show ?thesis by simp
  qed
qed

text \<open>A short run, of a client that clunks a fid it does not have.\<close>

definition sample_msg :: Msg where
  "sample_msg = \<lparr>msg_tag = 9, msg_body = Fcall.Tclunk 5\<rparr>"

definition sample_frames :: "(io_error + u8 list) list" where
  "sample_frames = [Inr [120, 9, 0, 5, 0, 0, 0]]"

definition sample_fs :: "(nat, nat) Filesystem" where
  "sample_fs = default_Filesystem (\<lambda>n. (n, n))"

definition sample_end :: "(nat, nat) server" where
  "sample_end = \<lparr>srv_in = [], srv_conn = Closed (Inr ()), srv_tasks = [Finished sample_msg],
     srv_fids = Map.empty, srv_fs = 0, srv_out = [[7, 9, 0, 5, 0, 0, 0]]\<rparr>"

lemma sample_read: "read_msg [120, 9, 0, 5, 0, 0, 0] = Inr (sample_msg, [])"
  by code_simp

lemma sample_requests: "requests sample_frames = [sample_msg]"
  by (simp add: sample_frames_def sample_read)

lemma sample_frame: "reply_frame sample_msg (Fcall.Rlerror 5) = Some [7, 9, 0, 5, 0, 0, 0]"
  by code_simp

lemma sample_run:
  "run_schedule sample_nix sample_fs [None, Some 0, Some 0, None] (serve_init sample_frames 0) =
     Some sample_end"
proof -
  let ?c = "\<lambda>conn t out. \<lparr>srv_in = [], srv_conn = conn, srv_tasks = [t], srv_fids = Map.empty,
    srv_fs = 0, srv_out = out\<rparr> :: (nat, nat) server"
  have "receive (serve_init sample_frames 0) = ?c Reading (Spawned sample_msg) []"
    by (simp add: receive_def serve_init_def sample_frames_def sample_read)
  moreover have "run_task sample_nix sample_fs 0 (?c Reading (Spawned sample_msg) []) =
      ?c Reading (Replying sample_msg (Fcall.Rlerror 5)) []"
    by (simp add: run_task_def make_newfid_def newfid_def dispatch_call_def sample_msg_def
        error_reply_def sample_nix_def)
  moreover have "run_task sample_nix sample_fs 0 (?c Reading (Replying sample_msg (Fcall.Rlerror 5)) []) =
      ?c Reading (Finished sample_msg) [[7, 9, 0, 5, 0, 0, 0]]"
    by (simp add: run_task_Replying_result sample_frame MsgType_is_r_def)
  moreover have "receive (?c Reading (Finished sample_msg) [[7, 9, 0, 5, 0, 0, 0]]) = sample_end"
    by (simp add: receive_def sample_end_def)
  ultimately show ?thesis by (simp add: serve_init_def)
qed

text \<open>A second run, of a client that attaches to a file system that accepts it.\<close>

definition attach_msg :: Msg where
  "attach_msg = \<lparr>msg_tag = 2, msg_body = Fcall.Tattach 4 6 ''u'' ''/'' 0\<rparr>"

definition attach_fs :: "(nat, nat) Filesystem" where
  "attach_fs = (default_Filesystem (\<lambda>n. (n, n + 1)))\<lparr>rattach := (\<lambda>_ _ _ _ _ s.
     (Inr (Fcall.Rattach \<lparr>qid_typ = 128, qid_version = 0, qid_path = 2\<rparr>), s))\<rparr>"

definition attach_frames :: "(io_error + u8 list) list" where
  "attach_frames = [Inr [104, 2, 0, 4, 0, 0, 0, 6, 0, 0, 0, 1, 0, 117, 1, 0, 47, 0, 0, 0, 0]]"

lemma attach_read:
  "read_msg [104, 2, 0, 4, 0, 0, 0, 6, 0, 0, 0, 1, 0, 117, 1, 0, 47, 0, 0, 0, 0] =
     Inr (attach_msg, [])"
  by code_simp

lemma attach_reply:
  "reply_frame attach_msg (Fcall.Rattach \<lparr>qid_typ = 128, qid_version = 0, qid_path = 2\<rparr>) =
     Some [105, 2, 0, 128, 0, 0, 0, 0, 2, 0, 0, 0, 0, 0, 0, 0]"
  by code_simp

lemma attach_run:
  "\<exists>c. serves sample_nix attach_fs (serve_init attach_frames 0) c \<and>
     srv_fids c = [4 \<mapsto> \<lparr>fid_fid = 4, fid_aux = 0\<rparr>]"
proof -
  have "dispatch_once attach_fs attach_msg Map.empty 0 =
      (Some (Inr (Fcall.Rattach \<lparr>qid_typ = 128, qid_version = 0, qid_path = 2\<rparr>)),
       [4 \<mapsto> \<lparr>fid_fid = 4, fid_aux = 0\<rparr>], 1)"
    by (simp add: dispatch_once_def make_newfid_def newfid_def dispatch_call_def attach_msg_def
        attach_fs_def await_def default_Filesystem_def insert_newfid_def drop_clunked_def)
  then show ?thesis
    using serves_message [OF serves.start _ _ attach_read _ _ attach_reply,
        of "serve_init attach_frames 0" "[]" attach_fs]
    by (fastforce simp: serve_init_def attach_frames_def MsgType_is_r_def)
qed

section \<open>Properties of one message\<close>

text \<open>
  C13. Handling a message never panics, and its effect on the table of fids is exact: when it
  fails the table is as before; when it succeeds the new fid of the message (that of an
  attach, auth, walk or xattrwalk) holds a fresh default handle, the fid of a Tclunk is gone,
  and every other entry is as before.
\<close>

theorem dispatch_once_table:
  "case dispatch_once fs msg tbl s of
     (None, _) \<Rightarrow> False
   | (Some (Inl e), tbl', _) \<Rightarrow> tbl' = tbl
   | (Some (Inr r), tbl', _) \<Rightarrow>
       tbl' = (\<lambda>k. if newfid (msg_body msg) = Some k
                   then Some \<lparr>fid_fid = k, fid_aux = fst (fs_default fs s)\<rparr>
                   else if msg_body msg = Fcall.Tclunk k then None else tbl k)"
proof (cases rule: dispatch_once_cases [of fs msg s tbl])
  case (ok nf s1 r s2)
  from ok(1) have "nf = map_option (\<lambda>f. \<lparr>fid_fid = f, fid_aux = fst (fs_default fs s)\<rparr>)
      (newfid (msg_body msg))"
    using make_newfid_fst [of fs "msg_body msg" s] by simp
  then have "insert_newfid nf (drop_clunked (msg_body msg) tbl) =
      (\<lambda>k. if newfid (msg_body msg) = Some k
           then Some \<lparr>fid_fid = k, fid_aux = fst (fs_default fs s)\<rparr>
           else if msg_body msg = Fcall.Tclunk k then None else tbl k)"
    by (auto simp: insert_newfid_def drop_clunked_def fun_eq_iff split: option.split Fcall.split)
  with ok(3) show ?thesis by simp
qed simp

text \<open>
  A message that uses a fid the table does not have is answered with EBADF, the table is
  as before, and no operation of the file system runs: only the default handle for a new fid
  of the message was made. (Attach is left out, of which the server looks up no fid.)
\<close>

theorem dispatch_once_unknown_fid:
  assumes "f \<in> set (fids (msg_body msg))" "tbl f = None"
    and "MsgType_from (msg_body msg) \<noteq> MsgType.Tattach"
  shows "dispatch_once fs msg tbl s =
    (Some (Inl (No EBADF)), tbl, snd (make_newfid fs (msg_body msg) s))"
  using assms by (simp add: dispatch_once_def case_prod_beta Let_def dispatch_call_unknown_fid)

theorem dispatch_once_unknown_fid_witness:
  "dispatch_once (default_Filesystem (\<lambda>n. (n, n + 1)))
     \<lparr>msg_tag = 3, msg_body = Fcall.Twalk 7 8 [''etc'']\<rparr> Map.empty (0 :: nat) =
   (Some (Inl (No EBADF)), Map.empty, 1)"
  using dispatch_once_unknown_fid [of 7 "\<lparr>msg_tag = 3, msg_body = Fcall.Twalk 7 8 [''etc'']\<rparr>"
      Map.empty "default_Filesystem (\<lambda>n. (n, n + 1))" "0 :: nat"]
  by (simp add: fids_def make_newfid_def newfid_def default_Filesystem_def)

text \<open>
  A message of a reply type from a client is refused with EOPNOTSUPP and changes nothing.
\<close>

theorem dispatch_once_reply_message:
  assumes "MsgType_is_r (MsgType_from (msg_body msg))"
  shows "dispatch_once fs msg tbl s = (Some (Inl (No EOPNOTSUPP)), tbl, s)"
  using assms
  by (simp add: dispatch_once_def make_newfid_def newfid_reply_message dispatch_call_reply_message)

theorem dispatch_once_reply_message_witness:
  "dispatch_once (default_Filesystem (\<lambda>n. (n, n))) \<lparr>msg_tag = 1, msg_body = Fcall.Rflush\<rparr>
     Map.empty (0 :: nat) = (Some (Inl (No EOPNOTSUPP)), Map.empty, 0)"
  by (rule dispatch_once_reply_message) (simp add: MsgType_is_r_def)

text \<open>
  The server does not pass on the afid of a Tattach nor the oldtag of a Tflush (two
  messages that differ only there are handled alike), and a Tremove, even one that succeeds,
  leaves its fid in the table.
\<close>

theorem dispatch_once_ignored:
  "dispatch_once fs \<lparr>msg_tag = t, msg_body = Fcall.Tattach fid afid uname aname n_uname\<rparr> tbl s =
     dispatch_once fs \<lparr>msg_tag = t, msg_body = Fcall.Tattach fid afid' uname aname n_uname\<rparr> tbl s \<and>
   dispatch_once fs \<lparr>msg_tag = t, msg_body = Fcall.Tflush oldtag\<rparr> tbl s =
     dispatch_once fs \<lparr>msg_tag = t, msg_body = Fcall.Tflush oldtag'\<rparr> tbl s \<and>
   fst (snd (dispatch_once fs \<lparr>msg_tag = t, msg_body = Fcall.Tremove fid\<rparr> tbl s)) = tbl"
  by (intro conjI)
    (simp_all add: dispatch_once_def make_newfid_def newfid_def dispatch_call_def drop_clunked_def
      insert_newfid_def split: prod.split option.split sum.split)

text \<open>
  A file system that overrides nothing negotiates the version (it echoes the message size
  and accepts 9P2000.L, and answers any other version with "unknown") and refuses every other
  request, of known fids, with EOPNOTSUPP.
\<close>

theorem default_Filesystem_serves:
  assumes "\<forall>f\<in>set (fids body). tbl f \<noteq> None"
  shows "fst (dispatch_once (default_Filesystem dflt) \<lparr>msg_tag = t, msg_body = body\<rparr> tbl s) =
    (case body of
       Fcall.Tversion msize version \<Rightarrow>
         Some (Inr (Fcall.Rversion msize (if version = ''9P2000.L'' then version else ''unknown'')))
     | _ \<Rightarrow> Some (Inl (No EOPNOTSUPP)))"
  using assms
  by (cases body)
    (auto simp: dispatch_once_def make_newfid_def newfid_def dispatch_call_def fids_def
      default_Filesystem_def await_def unsupported_def default_rversion_def P92000L_def
      VERSION_UNKNOWN_def case_prod_beta Let_def)

theorem default_Filesystem_serves_witness:
  "fst (dispatch_once (default_Filesystem (\<lambda>n. (n, n)))
      \<lparr>msg_tag = 65535, msg_body = Fcall.Tversion 8192 ''9P2000''\<rparr> Map.empty (0 :: nat)) =
    Some (Inr (Fcall.Rversion 8192 ''unknown''))"
  using default_Filesystem_serves [of "Fcall.Tversion 8192 ''9P2000''" Map.empty "\<lambda>n. (n, n)" 65535
      "0 :: nat"]
  by (simp add: fids_def)

text \<open>
  Which listener an address selects: with three parts separated by \<open>!\<close> (any further parts
  are ignored) the protocol chooses the TCP or the Unix listener, on \<open>addr:port\<close> in both
  cases; another protocol, and an address with fewer parts, is refused as invalid input,
  EINVAL on the wire.
\<close>

theorem srv_async_address:
  assumes "CHR ''!'' \<notin> set proto" "CHR ''!'' \<notin> set addr" "CHR ''!'' \<notin> set port"
  shows "let r = (if proto = ''tcp'' then tcp (addr @ '':'' @ port)
      else if proto = ''unix'' then unix (addr @ '':'' @ port)
      else Inl (Io (Simple InvalidInput ''Protocol not supported'')))
    in srv_async tcp unix (proto @ ''!'' @ addr @ ''!'' @ port) = r \<and>
       srv_async tcp unix (proto @ ''!'' @ addr @ ''!'' @ port @ ''!'' @ parts) = r \<and>
       (\<forall>arg\<in>{proto, proto @ ''!'' @ addr}.
          \<exists>e. srv_async tcp unix arg = Inl e \<and> errno N e = EINVAL)"
  using assms
  by (auto simp: srv_async_def parse_proto_def split_on_append split_on_no_sep
      Error_from_io_def errno_of_kind_def Let_def)

theorem srv_async_address_witness:
  "srv_async Inr (\<lambda>_. Inl (No EIO)) ''tcp!localhost!564'' = Inr ''localhost:564''"
  using srv_async_address [of "''tcp''" "''localhost''" "''564''" Inr "\<lambda>_. Inl (No EIO)"]
  by (simp add: Let_def)

section \<open>Properties of a connection\<close>



text \<open>
  In every state that a connection reaches the table is keyed by the raw fids: the entry
  of a fid is a \<open>Fid\<close> with that number.
\<close>

theorem serves_keyed:
  assumes "serves N fs (serve_init frames s) c" "srv_fids c k = Some f"
  shows "fid_fid f = k"
proof -
  have "keyed (srv_fids c)"
    using assms(1) by (rule serves_invariant [where P = "\<lambda>c. keyed (srv_fids c)"])
      (simp add: keyed_def serve_init_def, erule keyed_step)
  with assms(2) show ?thesis by (simp add: keyed_def)
qed

theorem serves_keyed_witness:
  "\<exists>c. serves sample_nix attach_fs (serve_init attach_frames 0) c \<and>
     srv_fids c 4 = Some \<lparr>fid_fid = 4, fid_aux = 0\<rparr> \<and>
     fid_fid (\<lparr>fid_fid = 4, fid_aux = 0\<rparr> :: nat Fid) = 4"
proof -
  obtain c where c: "serves sample_nix attach_fs (serve_init attach_frames 0) c"
    "srv_fids c 4 = Some \<lparr>fid_fid = 4, fid_aux = 0\<rparr>"
    using attach_run by (metis fun_upd_same)
  from c serves_keyed [OF c] show ?thesis by blast
qed

text \<open>
  C6. One reply for each request, of its tag and of its type: for a file system whose methods
  answer with the replies they are named after, when a connection has come to its end and no
  task panicked (on a failing write to the client), the frames sent are, in some order, one
  answer for each message that was read, an Rlerror or the reply type of the request, under
  the tag of the request. Nothing else is sent, and no request is left unanswered.
\<close>

theorem serves_answers_all:
  assumes "filesystem fs" "serves N fs (serve_init frames s) c"
    and "\<nexists>d. serve_step N fs c d" "\<not> list_ex is_panicked (srv_tasks c)"
  shows "\<exists>ms. mset ms = mset (requests frames) \<and> list_all2 frame_answers ms (srv_out c)"
  using assms by (rule answers_all)

theorem serves_answers_all_witness:
  "\<exists>ms. mset ms = mset [sample_msg] \<and> list_all2 frame_answers ms [[7, 9, 0, 5, 0, 0, 0]]"
proof -
  have "filesystem sample_fs" unfolding sample_fs_def by (rule dflt.filesystem_axioms)
  moreover have "\<nexists>d. serve_step sample_nix sample_fs sample_end d"
    unfolding serve_step_stuck_iff by (simp add: sample_end_def)
  ultimately show ?thesis
    using serves_answers_all [OF _ run_schedule_serves [OF sample_run]]
    by (simp add: sample_requests) (simp add: sample_end_def)
qed



end
