(* ===== verification/Unpfs.thy ===== *)
theory Unpfs
  imports Srv_Properties Actions Text
begin

text \<open>
  The file system of \<^verbatim>\<open>crates/9p/src/unpfs.rs\<close> and \<^verbatim>\<open>crates/9p/src/unpfs/utils.rs\<close>, which serves a
  directory of the machine. What it calls of the operating system (through \<open>tokio::fs\<close>,
  \<open>nix\<close> and \<open>filetime\<close>) is the record \<open>sys\<close> of functions on a state \<open>'w\<close> of the
  machine. What \<open>PathBuf\<close> computes is modelled. The \<open>aux\<close> of a fid is the number of a cell
  of the store, a \<open>UnpfsFid\<close> with its path and its open file.
\<close>

section \<open>The machine\<close>

text \<open>How a file time is made: the constructors of \<open>filetime\<close> that the code calls.\<close>

datatype FileTime = from_unix_time u64 u32 | from_last_access_time Metadata
  | from_last_modification_time Metadata

text \<open>
  The calls, each with its result and its effect on the machine. \<open>'h\<close> is an open file,
  \<open>'d\<close> an item of a directory stream; \<open>sys_read_dir\<close> gives all the items its stream
  yields. \<open>sys_read\<close> gives the bytes that the call stored in the buffer. The constants of
  \<open>libc\<close> and the \<open>from_bits_truncate\<close> of \<open>nix\<close>'s flags are fields as well.
\<close>

record ('d, 'h, 'w) sys =
  sys_symlink_metadata :: "string \<Rightarrow> 'w \<Rightarrow> (io_error + Metadata) \<times> 'w"
  sys_metadata :: "string \<Rightarrow> 'w \<Rightarrow> (io_error + Metadata) \<times> 'w"
  sys_set_permissions :: "string \<Rightarrow> u32 \<Rightarrow> 'w \<Rightarrow> (io_error + unit) \<times> 'w"
  sys_chown :: "string \<Rightarrow> u32 option \<Rightarrow> u32 option \<Rightarrow> 'w \<Rightarrow> (Errno + unit) \<times> 'w"
  sys_open_write :: "string \<Rightarrow> 'w \<Rightarrow> (io_error + 'h) \<times> 'w"
  sys_set_len :: "'h \<Rightarrow> u64 \<Rightarrow> 'w \<Rightarrow> (io_error + unit) \<times> 'w"
  sys_set_file_times :: "string \<Rightarrow> FileTime \<Rightarrow> FileTime \<Rightarrow> 'w \<Rightarrow> (io_error + unit) \<times> 'w"
  sys_read_link :: "string \<Rightarrow> 'w \<Rightarrow> (io_error + string) \<times> 'w"
  sys_read_dir :: "string \<Rightarrow> 'w \<Rightarrow> (io_error + (io_error + 'd) list) \<times> 'w"
  sys_entry_metadata :: "'d \<Rightarrow> 'w \<Rightarrow> (io_error + Metadata) \<times> 'w"
  sys_entry_file_name :: "'d \<Rightarrow> string"
  sys_open :: "string \<Rightarrow> u32 \<Rightarrow> u32 \<Rightarrow> 'w \<Rightarrow> (Errno + 'h) \<times> 'w"
  sys_seek :: "'h \<Rightarrow> u64 \<Rightarrow> 'w \<Rightarrow> (io_error + u64) \<times> 'w"
  sys_read :: "'h \<Rightarrow> nat \<Rightarrow> 'w \<Rightarrow> (io_error + u8 list) \<times> 'w"
  sys_write :: "'h \<Rightarrow> u8 list \<Rightarrow> 'w \<Rightarrow> (io_error + nat) \<times> 'w"
  sys_sync_all :: "'h \<Rightarrow> 'w \<Rightarrow> (io_error + unit) \<times> 'w"
  sys_create_dir :: "string \<Rightarrow> 'w \<Rightarrow> (io_error + unit) \<times> 'w"
  sys_rename :: "string \<Rightarrow> string \<Rightarrow> 'w \<Rightarrow> (io_error + unit) \<times> 'w"
  sys_remove_dir :: "string \<Rightarrow> 'w \<Rightarrow> (io_error + unit) \<times> 'w"
  sys_remove_file :: "string \<Rightarrow> 'w \<Rightarrow> (io_error + unit) \<times> 'w"
  sys_statvfs :: "string \<Rightarrow> 'w \<Rightarrow> (Errno + Statvfs) \<times> 'w"
  sys_O_WRONLY :: u32
  sys_O_RDONLY :: u32
  sys_O_RDWR :: u32
  sys_O_CREAT :: u32
  sys_O_TRUNC :: u32
  sys_OFlag_truncate :: "u32 \<Rightarrow> u32"
  sys_Mode_truncate :: "u32 \<Rightarrow> u32"

record 'h UnpfsFid =
  ufid_path :: string
  ufid_file :: "'h option"

record ('h, 'w) store =
  cells :: "nat \<Rightarrow> 'h UnpfsFid"
  fresh :: nat
  world :: 'w

definition UnpfsFid_default :: "('h, 'w) store \<Rightarrow> nat \<times> ('h, 'w) store" where
  "UnpfsFid_default s =
     (fresh s, s\<lparr>cells := (cells s)(fresh s := \<lparr>ufid_path = [], ufid_file = None\<rparr>),
                 fresh := fresh s + 1\<rparr>)"

section \<open>Actions\<close>

text \<open>An action runs on the store and ends in a value or an error (\<open>?\<close> passes errors on).\<close>

type_synonym ('h, 'w, 'x) act = "(('h, 'w) store, Error, 'x) action"

definition io :: "('w \<Rightarrow> (io_error + 'x) \<times> 'w) \<Rightarrow> ('h, 'w, 'x) act" where
  "io call s =
     (case call (world s) of
        (Inl e, w) \<Rightarrow> (Inl (Error_from_io e), s\<lparr>world := w\<rparr>)
      | (Inr x, w) \<Rightarrow> (Inr x, s\<lparr>world := w\<rparr>))"

definition nix_io :: "('w \<Rightarrow> (Errno + 'x) \<times> 'w) \<Rightarrow> ('h, 'w, 'x) act" where
  "nix_io call s =
     (case call (world s) of
        (Inl e, w) \<Rightarrow> (Inl (Error_from_nix e), s\<lparr>world := w\<rparr>)
      | (Inr x, w) \<Rightarrow> (Inr x, s\<lparr>world := w\<rparr>))"

definition read_path :: "nat Fid \<Rightarrow> ('h, 'w, string) act" where
  "read_path f s = (Inr (ufid_path (cells s (fid_aux f))), s)"

definition write_path :: "nat Fid \<Rightarrow> string \<Rightarrow> ('h, 'w, unit) act" where
  "write_path f p s =
     (Inr (), s\<lparr>cells := (cells s)(fid_aux f := (cells s (fid_aux f))\<lparr>ufid_path := p\<rparr>)\<rparr>)"

definition write_file :: "nat Fid \<Rightarrow> 'h \<Rightarrow> ('h, 'w, unit) act" where
  "write_file f h s =
     (Inr (), s\<lparr>cells := (cells s)(fid_aux f := (cells s (fid_aux f))\<lparr>ufid_file := Some h\<rparr>)\<rparr>)"

definition INVALID_FID :: io_error where
  "INVALID_FID = Simple InvalidInput ''Invalid fid''"

definition open_file :: "nat Fid \<Rightarrow> ('h, 'w, 'h) act" where
  "open_file f s =
     (case ufid_file (cells s (fid_aux f)) of
        None \<Rightarrow> (Inl (Error_from_io INVALID_FID), s)
      | Some h \<Rightarrow> (Inr h, s))"

section \<open>Helpers\<close>

definition qid_from_attr :: "Metadata \<Rightarrow> Qid" where
  "qid_from_attr attr =
     \<lparr>qid_typ = QidType_from_FileType attr, qid_version = 0, qid_path = md_ino attr\<rparr>"

definition get_qid :: "('d, 'h, 'w) sys \<Rightarrow> string \<Rightarrow> ('h, 'w, Qid) act" where
  "get_qid S path =
     and_then (io (sys_symlink_metadata S path)) (\<lambda>attr. succeed (qid_from_attr attr))"

definition get_dirent_from :: "('d, 'h, 'w) sys \<Rightarrow> string \<Rightarrow> u64 \<Rightarrow> ('h, 'w, DirEntry) act" where
  "get_dirent_from S p offset =
     and_then (get_qid S p) (\<lambda>qid. succeed
       \<lparr>dirent_qid = qid, dirent_offset = offset, dirent_typ = 0,
        dirent_name = to_string_lossy p\<rparr>)"

definition get_dirent :: "('d, 'h, 'w) sys \<Rightarrow> 'd \<Rightarrow> u64 \<Rightarrow> ('h, 'w, DirEntry) act" where
  "get_dirent S entry offset =
     and_then (io (sys_entry_metadata S entry)) (\<lambda>attr. succeed
       \<lparr>dirent_qid = qid_from_attr attr, dirent_offset = offset, dirent_typ = 0,
        dirent_name = to_string_lossy (sys_entry_file_name S entry)\<rparr>)"

definition UNIX_FLAGS :: "('d, 'h, 'w) sys \<Rightarrow> u32" where
  "UNIX_FLAGS S =
     sys_O_WRONLY S OR sys_O_RDONLY S OR sys_O_RDWR S OR sys_O_CREAT S OR sys_O_TRUNC S"

section \<open>Operations\<close>

definition unpfs_rattach :: "('d, 'h, 'w) sys \<Rightarrow> string \<Rightarrow>
    nat Fid \<Rightarrow> nat Fid option \<Rightarrow> string \<Rightarrow> string \<Rightarrow> u32 \<Rightarrow> ('h, 'w, Fcall) act" where
  "unpfs_rattach S realroot fid afid uname aname n_uname =
     and_then (write_path fid realroot) (\<lambda>_.
     and_then (get_qid S realroot) (\<lambda>qid.
     succeed (Fcall.Rattach qid)))"

text \<open>
  The loop over the names: what it leaves in \<open>path\<close> and \<open>wqids\<close>. \<open>i\<close> is the index of
  \<open>enumerate\<close>; an error of the first lookup is returned, one of a later lookup ends the loop.
\<close>

fun walk_loop :: "('d, 'h, 'w) sys \<Rightarrow> nat \<Rightarrow> string list \<Rightarrow> string \<Rightarrow> Qid list \<Rightarrow>
    ('h, 'w, string \<times> Qid list) act" where
  "walk_loop S i [] path wqids s = (Inr (path, wqids), s)"
| "walk_loop S i (name # wnames) path wqids s =
     (let path = path_push path name
      in case get_qid S path s of
           (Inr qid, s') \<Rightarrow> walk_loop S (i + 1) wnames path (wqids @ [qid]) s'
         | (Inl e, s') \<Rightarrow> if i = 0 then (Inl e, s') else (Inr (path, wqids), s'))"

definition unpfs_rwalk :: "('d, 'h, 'w) sys \<Rightarrow>
    nat Fid \<Rightarrow> nat Fid \<Rightarrow> string list \<Rightarrow> ('h, 'w, Fcall) act" where
  "unpfs_rwalk S fid nfid wnames =
     and_then (read_path fid) (\<lambda>path.
     and_then (walk_loop S 0 wnames path []) (\<lambda>(path, wqids).
     and_then (write_path nfid path) (\<lambda>_.
     succeed (Fcall.Rwalk wqids))))"

definition unpfs_rgetattr :: "('d, 'h, 'w) sys \<Rightarrow> nat Fid \<Rightarrow> GetattrMask \<Rightarrow> ('h, 'w, Fcall) act" where
  "unpfs_rgetattr S fid req_mask =
     and_then (read_path fid) (\<lambda>realpath.
     and_then (io (sys_symlink_metadata S realpath)) (\<lambda>attr.
     succeed (Fcall.Rgetattr req_mask (qid_from_attr attr) (Stat_from_Metadata attr))))"

definition unpfs_rsetattr :: "('d, 'h, 'w) sys \<Rightarrow>
    nat Fid \<Rightarrow> SetattrMask \<Rightarrow> SetAttr \<Rightarrow> ('h, 'w, Fcall) act" where
  "unpfs_rsetattr S fid valid stat =
     and_then (read_path fid) (\<lambda>filepath.
     and_then
       (only_if (flags_contains valid SetattrMask_MODE)
         (io (sys_set_permissions S filepath (setattr_mode stat)))) (\<lambda>_.
     and_then
       (only_if (flags_intersects valid (SetattrMask_UID OR SetattrMask_GID))
         (nix_io (sys_chown S filepath
           (if flags_contains valid SetattrMask_UID then Some (setattr_uid stat) else None)
           (if flags_contains valid SetattrMask_GID then Some (setattr_gid stat) else None)))) (\<lambda>_.
     and_then
       (only_if (flags_contains valid SetattrMask_SIZE)
         (and_then (io (sys_open_write S filepath)) (\<lambda>h.
          io (sys_set_len S h (setattr_size stat))))) (\<lambda>_.
     and_then
       (only_if (flags_intersects valid (SetattrMask_ATIME_SET OR SetattrMask_MTIME_SET))
         (and_then (io (sys_metadata S filepath)) (\<lambda>attr.
          discard (io (sys_set_file_times S filepath
            (if flags_contains valid SetattrMask_ATIME_SET
             then from_unix_time (time_sec (setattr_atime stat)) (ucast (time_nsec (setattr_atime stat)))
             else from_last_access_time attr)
            (if flags_contains valid SetattrMask_MTIME_SET
             then from_unix_time (time_sec (setattr_mtime stat)) (ucast (time_nsec (setattr_mtime stat)))
             else from_last_modification_time attr)))))) (\<lambda>_.
     succeed Fcall.Rsetattr)))))"

definition unpfs_rreadlink :: "('d, 'h, 'w) sys \<Rightarrow> nat Fid \<Rightarrow> ('h, 'w, Fcall) act" where
  "unpfs_rreadlink S fid =
     and_then (read_path fid) (\<lambda>realpath.
     and_then (io (sys_read_link S realpath)) (\<lambda>link.
     succeed (Fcall.Rreadlink (to_string_lossy link))))"

text \<open>The loop over the directory stream; the sizes are the wrapping \<open>u32\<close> of the code.\<close>

fun readdir_loop :: "('d, 'h, 'w) sys \<Rightarrow> u32 \<Rightarrow> (io_error + 'd) list \<Rightarrow> u64 \<Rightarrow> DirEntryData \<Rightarrow>
    ('h, 'w, DirEntryData) act" where
  "readdir_loop S cnt [] i dirents s = (Inr dirents, s)"
| "readdir_loop S cnt (Inl e # entries) i dirents s = (Inl (Error_from_io e), s)"
| "readdir_loop S cnt (Inr entry # entries) i dirents s =
     (case get_dirent S entry (2 + i) s of
        (Inl e, s') \<Rightarrow> (Inl e, s')
      | (Inr dirent, s') \<Rightarrow>
          if DirEntryData_size dirents + DirEntry_size dirent > cnt then (Inr dirents, s')
          else readdir_loop S cnt entries (i + 1) (DirEntryData_push dirents dirent) s')"

definition unpfs_rreaddir :: "('d, 'h, 'w) sys \<Rightarrow> nat Fid \<Rightarrow> u64 \<Rightarrow> u32 \<Rightarrow> ('h, 'w, Fcall) act" where
  "unpfs_rreaddir S fid off cnt =
     and_then
       (if off = 0 then
          and_then (get_dirent_from S ''.'' 0) (\<lambda>d0.
          and_then (get_dirent_from S ''..'' 1) (\<lambda>d1.
          succeed (DirEntryData_push (DirEntryData_push DirEntryData_new d0) d1, off)))
        else succeed (DirEntryData_new, off - 1)) (\<lambda>(dirents, offset).
     and_then (read_path fid) (\<lambda>realpath.
     and_then (io (sys_read_dir S realpath)) (\<lambda>entries.
     and_then (readdir_loop S cnt (drop (unat offset) entries) offset dirents) (\<lambda>dirents.
     succeed (Fcall.Rreaddir dirents)))))"

definition unpfs_rlopen :: "('d, 'h, 'w) sys \<Rightarrow> nat Fid \<Rightarrow> u32 \<Rightarrow> ('h, 'w, Fcall) act" where
  "unpfs_rlopen S fid flags =
     and_then (read_path fid) (\<lambda>realpath.
     and_then (get_qid S realpath) (\<lambda>qid.
     and_then
       (only_if (\<not> flags_contains (qid_typ qid) QidType_DIR)
         (and_then (nix_io (sys_open S realpath (sys_OFlag_truncate S (flags AND UNIX_FLAGS S))
            (sys_Mode_truncate S 0))) (\<lambda>fd.
          write_file fid fd))) (\<lambda>_.
     succeed (Fcall.Rlopen qid 0))))"

definition unpfs_rlcreate :: "('d, 'h, 'w) sys \<Rightarrow>
    nat Fid \<Rightarrow> string \<Rightarrow> u32 \<Rightarrow> u32 \<Rightarrow> u32 \<Rightarrow> ('h, 'w, Fcall) act" where
  "unpfs_rlcreate S fid name flags mode gid =
     and_then (read_path fid) (\<lambda>realpath.
     let path = path_push realpath name in
     and_then (nix_io (sys_open S path (sys_OFlag_truncate S (flags AND UNIX_FLAGS S))
       (sys_Mode_truncate S mode))) (\<lambda>fd.
     and_then (get_qid S path) (\<lambda>qid.
     and_then (write_path fid path) (\<lambda>_.
     and_then (write_file fid fd) (\<lambda>_.
     succeed (Fcall.Rlcreate qid 0))))))"

definition unpfs_rread :: "('d, 'h, 'w) sys \<Rightarrow> nat Fid \<Rightarrow> u64 \<Rightarrow> u32 \<Rightarrow> ('h, 'w, Fcall) act" where
  "unpfs_rread S fid offset cnt =
     and_then (open_file fid) (\<lambda>h.
     and_then (io (sys_seek S h offset)) (\<lambda>_.
     and_then (io (sys_read S h (unat cnt))) (\<lambda>buf.
     succeed (Fcall.Rread (Data buf)))))"

definition unpfs_rwrite :: "('d, 'h, 'w) sys \<Rightarrow> nat Fid \<Rightarrow> u64 \<Rightarrow> Data \<Rightarrow> ('h, 'w, Fcall) act" where
  "unpfs_rwrite S fid offset dat =
     and_then (open_file fid) (\<lambda>h.
     and_then (io (sys_seek S h offset)) (\<lambda>_.
     and_then (io (sys_write S h (case dat of Data bytes \<Rightarrow> bytes))) (\<lambda>n.
     succeed (Fcall.Rwrite (of_nat n)))))"

definition unpfs_rmkdir :: "('d, 'h, 'w) sys \<Rightarrow>
    nat Fid \<Rightarrow> string \<Rightarrow> u32 \<Rightarrow> u32 \<Rightarrow> ('h, 'w, Fcall) act" where
  "unpfs_rmkdir S dfid name mode gid =
     and_then (read_path dfid) (\<lambda>realpath.
     let path = path_push realpath name in
     and_then (io (sys_create_dir S path)) (\<lambda>_.
     and_then (get_qid S path) (\<lambda>qid.
     succeed (Fcall.Rmkdir qid))))"

definition unpfs_rrenameat :: "('d, 'h, 'w) sys \<Rightarrow>
    nat Fid \<Rightarrow> string \<Rightarrow> nat Fid \<Rightarrow> string \<Rightarrow> ('h, 'w, Fcall) act" where
  "unpfs_rrenameat S olddir oldname newdir newname =
     and_then (read_path olddir) (\<lambda>oldpath.
     and_then (read_path newdir) (\<lambda>newpath.
     and_then (io (sys_rename S (path_push oldpath oldname) (path_push newpath newname))) (\<lambda>_.
     succeed Fcall.Rrenameat)))"

definition unpfs_runlinkat :: "('d, 'h, 'w) sys \<Rightarrow>
    nat Fid \<Rightarrow> string \<Rightarrow> u32 \<Rightarrow> ('h, 'w, Fcall) act" where
  "unpfs_runlinkat S dirfid name flags =
     and_then (read_path dirfid) (\<lambda>realpath.
     let path = path_push realpath name in
     and_then (io (sys_symlink_metadata S path)) (\<lambda>attr.
     and_then (if md_is_dir attr then io (sys_remove_dir S path)
               else io (sys_remove_file S path)) (\<lambda>_.
     succeed Fcall.Runlinkat)))"

definition unpfs_rfsync :: "('d, 'h, 'w) sys \<Rightarrow> nat Fid \<Rightarrow> ('h, 'w, Fcall) act" where
  "unpfs_rfsync S fid =
     and_then (open_file fid) (\<lambda>h.
     and_then (io (sys_sync_all S h)) (\<lambda>_.
     succeed Fcall.Rfsync))"

definition unpfs_rclunk :: "nat Fid \<Rightarrow> ('h, 'w, Fcall) act" where
  "unpfs_rclunk fid = succeed Fcall.Rclunk"

definition unpfs_rstatfs :: "('d, 'h, 'w) sys \<Rightarrow> nat Fid \<Rightarrow> ('h, 'w, Fcall) act" where
  "unpfs_rstatfs S fid =
     and_then (read_path fid) (\<lambda>path.
     and_then (nix_io (sys_statvfs S path)) (\<lambda>buf.
     succeed (Fcall.Rstatfs (Statfs_from_Statvfs buf))))"

text \<open>The file system: these methods, and the defaults of the trait for the others.\<close>

definition unpfs :: "('d, 'h, 'w) sys \<Rightarrow> string \<Rightarrow> (nat, ('h, 'w) store) Filesystem" where
  "unpfs S realroot =
     (default_Filesystem UnpfsFid_default)
       \<lparr>rattach := unpfs_rattach S realroot,
        rwalk := unpfs_rwalk S,
        rgetattr := unpfs_rgetattr S,
        rsetattr := unpfs_rsetattr S,
        rreadlink := unpfs_rreadlink S,
        rreaddir := unpfs_rreaddir S,
        rlopen := unpfs_rlopen S,
        rlcreate := unpfs_rlcreate S,
        rread := unpfs_rread S,
        rwrite := unpfs_rwrite S,
        rmkdir := unpfs_rmkdir S,
        rrenameat := unpfs_rrenameat S,
        runlinkat := unpfs_runlinkat S,
        rfsync := unpfs_rfsync S,
        rclunk := unpfs_rclunk,
        rstatfs := unpfs_rstatfs S\<rparr>"

section \<open>The contract\<close>

lemma answers_succeed: "MsgType_from r = t \<Longrightarrow> answers (succeed r) t"
  by (simp add: answers_def succeed_def)

lemma answers_and_then: "(\<And>x. answers (k x) t) \<Longrightarrow> answers (and_then m k) t"
  unfolding answers_def [of "and_then m k"] and_then_def
  by (auto split: prod.split sum.split dest: answersD)

lemma answers_and_then_pair: "(\<And>x y. answers (k x y) t) \<Longrightarrow> answers (and_then m (\<lambda>(x, y). k x y)) t"
  by (rule answers_and_then) auto

lemma answers_Let: "(\<And>x. answers (k x) t) \<Longrightarrow> answers (Let x k) t"
  by (simp add: Let_def)

lemmas answers_intro =
  answers_and_then_pair answers_and_then answers_Let answers_succeed

lemmas unpfs_ops =
  unpfs_rattach_def unpfs_rwalk_def unpfs_rgetattr_def unpfs_rsetattr_def unpfs_rreadlink_def
  unpfs_rreaddir_def unpfs_rlopen_def unpfs_rlcreate_def unpfs_rread_def unpfs_rwrite_def
  unpfs_rmkdir_def unpfs_rrenameat_def unpfs_runlinkat_def unpfs_rfsync_def unpfs_rclunk_def
  unpfs_rstatfs_def

interpretation unpfs: filesystem "unpfs S realroot"
  by unfold_locales
    (simp_all add: unpfs_def default_Filesystem_def answers_unsupported answers_default_rversion,
      unfold unpfs_ops, (intro answers_intro, simp)+)

end
