(* ===== verification/Unpfs_Properties.thy ===== *)
theory Unpfs_Properties
  imports Unpfs
begin

text \<open>
  The properties of the file system: what a walk and a directory listing return, which flags
  and which attributes reach the machine, what a message leaves alone, and, over every state
  of a connection, that no two fids share a cell and that requests are answered once.
\<close>

section \<open>Walks\<close>

text \<open>The paths a walk looks up, one after the other.\<close>

fun walk_paths :: "string \<Rightarrow> string list \<Rightarrow> string list" where
  "walk_paths p [] = []"
| "walk_paths p (name # wnames) = path_push p name # walk_paths (path_push p name) wnames"

lemma get_qid_lookup:
  assumes "\<And>p. sys_symlink_metadata S p (world s) = (r p, world s)"
  shows "get_qid S p s =
    (case r p of Inl e \<Rightarrow> (Inl (Error_from_io e), s) | Inr attr \<Rightarrow> (Inr (qid_from_attr attr), s))"
  using assms [of p]
  by (auto simp: get_qid_def and_then_def io_def succeed_def split: sum.split)

lemma walk_loop_result:
  assumes "\<And>p. sys_symlink_metadata S p (world s) = (r p, world s)" "0 < i"
  shows "walk_loop S i wnames path wqids s =
    (let found = takeWhile (\<lambda>p. isl (r p) = False) (walk_paths path wnames)
     in (Inr (last (path # take (length found + 1) (walk_paths path wnames)),
          wqids @ map (\<lambda>p. qid_from_attr (projr (r p))) found), s))"
  using assms(2)
proof (induction wnames arbitrary: i path wqids)
  case (Cons name wnames)
  show ?case
    using Cons.IH [of "i + 1" "path_push path name"] Cons.prems
    by (cases "r (path_push path name)")
      (simp_all add: get_qid_lookup [OF assms(1)] Let_def)
qed simp

section \<open>Directory listings\<close>

text \<open>
  The entries of a directory in the order of its stream, each with the offset at which a
  client resumes after it, and the longest prefix that fits after \<open>used\<close> bytes.
\<close>

definition entry_at :: "('d, 'h, 'w) sys \<Rightarrow> ('d \<Rightarrow> Metadata) \<Rightarrow> 'd \<Rightarrow> nat \<Rightarrow> DirEntry" where
  "entry_at S meta d k =
     \<lparr>dirent_qid = qid_from_attr (meta d), dirent_offset = of_nat (2 + k), dirent_typ = 0,
      dirent_name = to_string_lossy (sys_entry_file_name S d)\<rparr>"

fun entries_from :: "('d, 'h, 'w) sys \<Rightarrow> ('d \<Rightarrow> Metadata) \<Rightarrow> nat \<Rightarrow> 'd list \<Rightarrow> DirEntry list" where
  "entries_from S meta k [] = []"
| "entries_from S meta k (d # ds) = entry_at S meta d k # entries_from S meta (Suc k) ds"

definition entry_bytes :: "DirEntry \<Rightarrow> nat" where
  "entry_bytes d = 24 + length (dirent_name d)"

fun take_fit :: "nat \<Rightarrow> nat \<Rightarrow> DirEntry list \<Rightarrow> DirEntry list" where
  "take_fit cnt used [] = []"
| "take_fit cnt used (d # ds) =
     (if used + entry_bytes d > cnt then [] else d # take_fit cnt (used + entry_bytes d) ds)"

definition dots :: "('d, 'h, 'w) sys \<Rightarrow> (string \<Rightarrow> Metadata) \<Rightarrow> DirEntry list" where
  "dots S attr =
     [\<lparr>dirent_qid = qid_from_attr (attr ''.''), dirent_offset = 0, dirent_typ = 0,
       dirent_name = ''.''\<rparr>,
      \<lparr>dirent_qid = qid_from_attr (attr ''..''), dirent_offset = 1, dirent_typ = 0,
       dirent_name = ''..''\<rparr>]"

text \<open>
  A quiet directory: listing it and looking at its entries succeeds and leaves the machine
  as it is. \<open>ds\<close> are the items of its stream.
\<close>

definition quiet_dir :: "('d, 'h, 'w) sys \<Rightarrow> (string \<Rightarrow> Metadata) \<Rightarrow> ('d \<Rightarrow> Metadata) \<Rightarrow>
    string \<Rightarrow> 'd list \<Rightarrow> 'w \<Rightarrow> bool" where
  "quiet_dir S attr meta path ds w \<longleftrightarrow>
     sys_read_dir S path w = (Inr (map Inr ds), w) \<and>
     (\<forall>d\<in>set ds. sys_entry_metadata S d w = (Inr (meta d), w)) \<and>
     (\<forall>p\<in>{''.'', ''..''}. sys_symlink_metadata S p w = (Inr (attr p), w))"

lemma get_dirent_quiet:
  assumes "sys_entry_metadata S d (world s) = (Inr (meta d), world s)"
  shows "get_dirent S d (of_nat (2 + k)) s = (Inr (entry_at S meta d k), s)"
  using assms by (simp add: get_dirent_def and_then_def io_def succeed_def entry_at_def)

lemma length_entries_from [simp]: "length (entries_from S meta k ds) = length ds"
  by (induction ds arbitrary: k) simp_all

lemma drop_entries_from: "drop n (entries_from S meta k ds) = entries_from S meta (k + n) (drop n ds)"
proof (induction ds arbitrary: k n)
  case (Cons d ds)
  then show ?case by (cases n) simp_all
qed simp

definition data_bytes :: "DirEntryData \<Rightarrow> nat" where
  "data_bytes v = sum_list (map entry_bytes (dirents_data v))"

lemma DirEntryData_size_nat: "DirEntryData_size v = of_nat (data_bytes v)"
  by (simp add: DirEntryData_size_eq data_bytes_def entry_bytes_def [abs_def] length_concat comp_def)

lemma DirEntry_size_nat: "DirEntry_size d = of_nat (entry_bytes d)"
  by (simp add: DirEntry_size_eq entry_bytes_def)

lemma data_bytes_push [simp]:
  "data_bytes (DirEntryData_push v d) = data_bytes v + entry_bytes d"
  by (simp add: data_bytes_def DirEntryData_push_def)

lemma of_nat_u32_gt:
  assumes "n < 2 ^ 32"
  shows "(cnt :: u32) < of_nat n \<longleftrightarrow> unat cnt < n"
  using assms by (simp add: word_less_nat_alt unat_of_nat)

definition short_names :: "('d, 'h, 'w) sys \<Rightarrow> nat \<Rightarrow> 'd list \<Rightarrow> bool" where
  "short_names S n ds \<longleftrightarrow>
     (\<forall>d\<in>set ds. n + 24 + length (to_string_lossy (sys_entry_file_name S d)) < 2 ^ 32)"

lemma short_names_mono:
  "short_names S n ds \<Longrightarrow> m \<le> n \<Longrightarrow> set ds' \<subseteq> set ds \<Longrightarrow> short_names S m ds'"
  unfolding short_names_def
  by (meson add_le_mono1 order_le_less_trans subsetD)

lemma entry_bytes_at [simp]:
  "entry_bytes (entry_at S meta d k) = 24 + length (to_string_lossy (sys_entry_file_name S d))"
  by (simp add: entry_bytes_def entry_at_def)

lemma readdir_loop_quiet:
  assumes "\<forall>d\<in>set ds. sys_entry_metadata S d (world s) = (Inr (meta d), world s)"
    and "short_names S (unat cnt) ds" "short_names S (data_bytes v) ds"
  shows "readdir_loop S cnt (map Inr ds) (of_nat k) v s =
    (Inr (v\<lparr>dirents_data := dirents_data v @
        take_fit (unat cnt) (data_bytes v) (entries_from S meta k ds)\<rparr>), s)"
  using assms
proof (induction ds arbitrary: k v)
  case (Cons d ds)
  let ?e = "entry_at S meta d k"
  have dirent: "get_dirent S d (2 + of_nat k) s = (Inr ?e, s)"
    using Cons.prems(1) get_dirent_quiet [of S d s meta k] by simp
  have "data_bytes v + entry_bytes ?e < 2 ^ 32"
    using Cons.prems(3) by (simp add: short_names_def)
  then have more: "DirEntryData_size v + DirEntry_size ?e > cnt \<longleftrightarrow>
      data_bytes v + entry_bytes ?e > unat cnt"
    using of_nat_u32_gt [of "data_bytes v + entry_bytes ?e" cnt]
    by (simp add: DirEntryData_size_nat DirEntry_size_nat)
  show ?case
  proof (cases "data_bytes v + entry_bytes ?e > unat cnt")
    case True
    with dirent more show ?thesis by simp
  next
    case False
    with Cons.prems have "short_names S (data_bytes (DirEntryData_push v ?e)) ds"
      by (auto simp: short_names_def)
    with Cons.prems have "readdir_loop S cnt (map Inr ds) (of_nat (Suc k)) (DirEntryData_push v ?e) s =
        (Inr ((DirEntryData_push v ?e)\<lparr>dirents_data := dirents_data (DirEntryData_push v ?e) @
          take_fit (unat cnt) (data_bytes (DirEntryData_push v ?e)) (entries_from S meta (Suc k) ds)\<rparr>), s)"
      by (intro Cons.IH) (auto simp: short_names_def)
    with dirent more False data_bytes_push [of v ?e] show ?thesis
      by (simp add: DirEntryData_push_def add.commute)
  qed
qed simp

lemma unpfs_rreaddir_quiet:
  assumes "quiet_dir S attr meta (ufid_path (cells s (fid_aux fid))) ds (world s)"
    and "short_names S (max (unat cnt) 51) ds"
  shows "unpfs_rreaddir S fid off cnt s =
    (Inr (Fcall.Rreaddir \<lparr>dirents_data =
        (if off = 0 then dots S attr @ take_fit (unat cnt) 51 (entries_from S meta 0 ds)
         else take_fit (unat cnt) 0 (drop (unat off - 1) (entries_from S meta 0 ds)))\<rparr>), s)"
proof -
  let ?v = "\<lparr>dirents_data = dots S attr\<rparr>"
  have dir: "sys_read_dir S (ufid_path (cells s (fid_aux fid))) (world s) = (Inr (map Inr ds), world s)"
    and ent: "\<forall>d\<in>set ds. sys_entry_metadata S d (world s) = (Inr (meta d), world s)"
    and dot: "sys_symlink_metadata S ''.'' (world s) = (Inr (attr ''.''), world s)"
      "sys_symlink_metadata S ''..'' (world s) = (Inr (attr ''..''), world s)"
    using assms(1) by (simp_all add: quiet_dir_def)
  have lossy: "to_string_lossy ''.'' = ''.''" "to_string_lossy ''..'' = ''..''"
    by (rule to_string_lossy_id, code_simp)+
  have "get_dirent_from S ''.'' 0 s = (Inr (dots S attr ! 0), s)"
    and "get_dirent_from S ''..'' 1 s = (Inr (dots S attr ! 1), s)"
    using dot by (simp_all add: get_dirent_from_def get_qid_def and_then_def io_def succeed_def
        lossy dots_def)
  note first = this [folded One_nat_def]
  have 51: "data_bytes ?v = 51" by (simp add: data_bytes_def dots_def entry_bytes_def)
  show ?thesis
  proof (cases "off = 0")
    case True
    have "readdir_loop S cnt (map Inr ds) (of_nat 0) ?v s =
        (Inr (?v\<lparr>dirents_data := dirents_data ?v @
          take_fit (unat cnt) (data_bytes ?v) (entries_from S meta 0 ds)\<rparr>), s)"
      using assms(2) by (intro readdir_loop_quiet [OF ent]) (auto simp: short_names_def 51)
    with True first dir show ?thesis
      by (simp add: unpfs_rreaddir_def and_then_def succeed_def read_path_def io_def 51
          DirEntryData_push_def DirEntryData_new_def DirEntryData_with_def)
        (simp add: dots_def succeed_def)
  next
    case False
    let ?n = "unat (off - 1)"
    have n: "?n = unat off - 1" using False by (simp add: unat_minus_one)
    have off: "of_nat ?n = off - 1" by simp
    have "readdir_loop S cnt (map Inr (drop ?n ds)) (of_nat ?n) DirEntryData_new s =
        (Inr (DirEntryData_new\<lparr>dirents_data := dirents_data DirEntryData_new @
          take_fit (unat cnt) (data_bytes DirEntryData_new) (entries_from S meta ?n (drop ?n ds))\<rparr>), s)"
      using ent by (intro readdir_loop_quiet short_names_mono [OF assms(2)])
        (auto simp: DirEntryData_new_def DirEntryData_with_def data_bytes_def dest: in_set_dropD)
    with False dir show ?thesis
      unfolding n [symmetric] off
      by (simp add: unpfs_rreaddir_def and_then_def succeed_def read_path_def io_def drop_map
          DirEntryData_new_def DirEntryData_with_def data_bytes_def drop_entries_from)
  qed
qed

text \<open>A client that lists a directory: it asks again from the offset of the last entry it got.\<close>

fun list_dir :: "('d, 'h, 'w) sys \<Rightarrow> nat Fid \<Rightarrow> u32 \<Rightarrow> nat \<Rightarrow> u64 \<Rightarrow> ('h, 'w) store \<Rightarrow>
    DirEntry list option" where
  "list_dir S fid cnt 0 off s = None"
| "list_dir S fid cnt (Suc n) off s =
     (case unpfs_rreaddir S fid off cnt s of
        (Inr (Fcall.Rreaddir v), s') \<Rightarrow>
          if dirents_data v = [] then Some []
          else map_option ((@) (dirents_data v))
            (list_dir S fid cnt n (dirent_offset (last (dirents_data v))) s')
      | _ \<Rightarrow> None)"

lemma take_fit_take:
  "\<exists>m\<le>length es. take_fit cnt used es = take m es \<and>
     (es \<noteq> [] \<longrightarrow> used + entry_bytes (hd es) \<le> cnt \<longrightarrow> 0 < m)"
proof (induction es arbitrary: used)
  case (Cons e es)
  then obtain m where "m \<le> length es" "take_fit cnt (used + entry_bytes e) es = take m es"
    by blast
  then show ?case
    by (cases "used + entry_bytes e > cnt") (auto intro!: exI [of _ "Suc m"])
qed simp

lemma nth_entries_from:
  "j < length ds \<Longrightarrow> entries_from S meta k ds ! j = entry_at S meta (ds ! j) (k + j)"
proof (induction ds arbitrary: k j)
  case (Cons d ds)
  then show ?case by (cases j) simp_all
qed simp

lemma last_take_entries_offset:
  assumes "0 < m" "k + m \<le> length ds"
  shows "dirent_offset (last (take m (drop k (entries_from S meta 0 ds)))) = of_nat (k + m + 1)"
proof -
  have "last (take m (drop k (entries_from S meta 0 ds))) = entries_from S meta 0 ds ! (k + m - 1)"
    using assms by (simp add: last_conv_nth)
  also have "\<dots> = entry_at S meta (ds ! (k + m - 1)) (k + m - 1)"
    using assms by (simp add: nth_entries_from)
  finally show ?thesis using assms by (simp add: entry_at_def)
qed

lemma list_dir_rest:
  assumes "quiet_dir S attr meta (ufid_path (cells s (fid_aux fid))) ds (world s)"
    and "short_names S (max (unat cnt) 51) ds" "length ds + 2 < 2 ^ 64"
    and "\<forall>d\<in>set ds. entry_bytes (entry_at S meta d 0) \<le> unat cnt"
    and "k \<le> length ds" "length ds - k < n"
  shows "list_dir S fid cnt n (of_nat (k + 1)) s = Some (drop k (entries_from S meta 0 ds))"
  using assms(5,6)
proof (induction n arbitrary: k)
  case (Suc n)
  let ?es = "drop k (entries_from S meta 0 ds)"
  have k: "unat (of_nat (k + 1) :: u64) = k + 1"
    using Suc.prems(1) assms(3) by (simp add: unat_of_nat del: of_nat_Suc)
  then have nz: "(of_nat (k + 1) :: u64) \<noteq> 0" by (metis add_is_0 one_neq_zero unat_0)
  have page: "unpfs_rreaddir S fid (of_nat (k + 1)) cnt s =
      (Inr (Fcall.Rreaddir \<lparr>dirents_data = take_fit (unat cnt) 0 ?es\<rparr>), s)"
    using unpfs_rreaddir_quiet [OF assms(1,2), of "of_nat (k + 1)"] nz k by simp
  obtain m where m: "m \<le> length ?es" "take_fit (unat cnt) 0 ?es = take m ?es"
    "?es \<noteq> [] \<longrightarrow> entry_bytes (hd ?es) \<le> unat cnt \<longrightarrow> 0 < m"
    using take_fit_take [of ?es "unat cnt" 0] by auto
  show ?case
  proof (cases "k = length ds")
    case True
    with page show ?thesis by simp
  next
    case False
    then have lt: "k < length ds" using Suc.prems(1) by simp
    then have "hd ?es = entry_at S meta (ds ! k) k" by (simp add: hd_drop_conv_nth nth_entries_from)
    with assms(4) lt have "entry_bytes (hd ?es) \<le> unat cnt" by simp
    with m(3) lt have "0 < m" by simp
    with m(1) lt have "list_dir S fid cnt n (of_nat ((k + m) + 1)) s = Some (drop (k + m) (entries_from S meta 0 ds))"
      using Suc.prems by (intro Suc.IH) simp_all
    moreover have "dirent_offset (last (take m ?es)) = of_nat ((k + m) + 1)"
      using \<open>0 < m\<close> m(1) lt by (intro last_take_entries_offset) simp_all
    moreover have "take m ?es \<noteq> []" using \<open>0 < m\<close> lt by simp
    moreover have "take m ?es @ drop (k + m) (entries_from S meta 0 ds) = ?es"
      by (metis add.commute append_take_drop_id drop_drop)
    ultimately show ?thesis using page m(2) by simp
  qed
qed simp

section \<open>What an operation leaves alone\<close>

text \<open>An action that allocates no cell and changes none outside \<open>H\<close>.\<close>

definition confined :: "nat set \<Rightarrow> (('h, 'w) store \<Rightarrow> 'r \<times> ('h, 'w) store) \<Rightarrow> bool" where
  "confined H m \<longleftrightarrow>
     (\<forall>s. fresh (snd (m s)) = fresh s \<and> (\<forall>h. h \<notin> H \<longrightarrow> cells (snd (m s)) h = cells s h))"

named_theorems confined_intro \<open>how actions stay within the cells of a set\<close>

lemma confinedD:
  "confined H m \<Longrightarrow> fresh (snd (m s)) = fresh s \<and> (\<forall>h. h \<notin> H \<longrightarrow> cells (snd (m s)) h = cells s h)"
  by (simp add: confined_def)

lemma confined_basic [confined_intro]:
  "confined H (succeed x)" "confined H (throw e)" "confined H (read_path f)"
  "confined H (io call)" "confined H (nix_io call')" "confined H (open_file f)"
  "confined H unsupported" "confined H (default_rversion m v)"
  by (auto simp: confined_def succeed_def throw_def read_path_def io_def nix_io_def open_file_def
      unsupported_def default_rversion_def split: prod.split sum.split option.split)

lemma confined_write [confined_intro]:
  "fid_aux f \<in> H \<Longrightarrow> confined H (write_path f p)"
  "fid_aux f \<in> H \<Longrightarrow> confined H (write_file f h)"
  by (auto simp: confined_def write_path_def write_file_def)

lemma confined_and_then:
  assumes "confined H m" "\<And>x. confined H (k x)"
  shows "confined H (and_then m k)"
proof -
  have "fresh (snd (and_then m k s)) = fresh s \<and>
      (\<forall>h. h \<notin> H \<longrightarrow> cells (snd (and_then m k s)) h = cells s h)" for s
    using confinedD [OF assms(1), of s] confinedD [OF assms(2), of _ "snd (m s)"]
    by (cases "m s"; cases "fst (m s)") (auto simp: and_then_def)
  then show ?thesis by (simp add: confined_def)
qed

lemma confined_and_then_pair:
  "confined H m \<Longrightarrow> (\<And>x y. confined H (k x y)) \<Longrightarrow> confined H (and_then m (\<lambda>(x, y). k x y))"
  by (rule confined_and_then) auto

lemma confined_only_if [confined_intro]: "confined H m \<Longrightarrow> confined H (only_if b m)"
  by (simp add: only_if_def confined_basic)

lemma confined_discard [confined_intro]: "confined H m \<Longrightarrow> confined H (discard m)"
  by (simp add: confined_def discard_def)

lemma confined_Let: "(\<And>x. confined H (k x)) \<Longrightarrow> confined H (Let x k)"
  by (simp add: Let_def)

lemma confined_if: "confined H m \<Longrightarrow> confined H m' \<Longrightarrow> confined H (if b then m else m')"
  by simp

lemmas confined_rules = confined_and_then_pair confined_and_then confined_Let confined_if

lemma confined_helpers [confined_intro]:
  "confined H (get_qid S p)" "confined H (get_dirent_from S p off)" "confined H (get_dirent S d off)"
  unfolding get_dirent_from_def get_dirent_def get_qid_def
  by (intro confined_rules confined_intro)+

lemma confined_walk_loop [confined_intro]: "confined H (walk_loop S i wnames path wqids)"
proof (induction wnames arbitrary: i path wqids)
  case (Cons name wnames)
  have "fresh (snd (walk_loop S i (name # wnames) path wqids s)) = fresh s \<and>
      (\<forall>h. h \<notin> H \<longrightarrow> cells (snd (walk_loop S i (name # wnames) path wqids s)) h = cells s h)" for s
    using confinedD [OF confined_helpers(1) [of H S "path_push path name"], of s]
      confinedD [OF Cons, of _ _ _ "snd (get_qid S (path_push path name) s)"]
    by (cases "get_qid S (path_push path name) s"; cases "fst (get_qid S (path_push path name) s)")
      (auto simp: Let_def)
  then show ?case by (simp add: confined_def)
qed (simp add: confined_def)

lemma confined_readdir_loop [confined_intro]: "confined H (readdir_loop S cnt entries i v)"
proof (induction entries arbitrary: i v)
  case (Cons item entries)
  show ?case
  proof (cases item)
    case (Inl e)
    then show ?thesis by (simp add: confined_def)
  next
    case (Inr d)
    have "fresh (snd (readdir_loop S cnt (item # entries) i v s)) = fresh s \<and>
        (\<forall>h. h \<notin> H \<longrightarrow> cells (snd (readdir_loop S cnt (item # entries) i v s)) h = cells s h)" for s
      using confinedD [OF confined_helpers(3) [of H S d "2 + i"], of s]
        confinedD [OF Cons, of _ _ "snd (get_dirent S d (2 + i) s)"] Inr
      by (cases "get_dirent S d (2 + i) s"; cases "fst (get_dirent S d (2 + i) s)") auto
    then show ?thesis by (simp add: confined_def)
  qed
qed (simp add: confined_def)

lemma confined_ops [confined_intro]:
  "fid_aux f \<in> H \<Longrightarrow> confined H (unpfs_rattach S realroot f afid uname aname n_uname)"
  "fid_aux n \<in> H \<Longrightarrow> confined H (unpfs_rwalk S f n wnames)"
  "fid_aux f \<in> H \<Longrightarrow> confined H (unpfs_rlopen S f flags)"
  "fid_aux f \<in> H \<Longrightarrow> confined H (unpfs_rlcreate S f name flags mode gid)"
  "confined H (unpfs_rgetattr S f msk)" "confined H (unpfs_rsetattr S f smsk attr)"
  "confined H (unpfs_rreadlink S f)" "confined H (unpfs_rreaddir S f off cnt)"
  "confined H (unpfs_rread S f off cnt)" "confined H (unpfs_rwrite S f off dat)"
  "confined H (unpfs_rmkdir S f name mode gid)" "confined H (unpfs_rrenameat S f name g name')"
  "confined H (unpfs_runlinkat S f name flags)" "confined H (unpfs_rfsync S f)"
  "confined H (unpfs_rclunk f)" "confined H (unpfs_rstatfs S f)"
  unfolding unpfs_ops by (intro confined_rules confined_intro; assumption?)+

text \<open>The cells a message may change: that of its new fid, and that of the file it opens.\<close>

definition opened :: "nat fid_table \<Rightarrow> Fcall \<Rightarrow> nat option" where
  "opened tbl body =
     (case body of
        Fcall.Tlopen fid flags \<Rightarrow> map_option fid_aux (tbl fid)
      | Fcall.Tlcreate fid name flags mode gid \<Rightarrow> map_option fid_aux (tbl fid)
      | _ \<Rightarrow> None)"

lemma confined_refuse [confined_intro]: "confined H (\<lambda>s. (x, s))"
  by (simp add: confined_def)

lemma confined_await: "confined H h \<Longrightarrow> confined H (await h)"
  by (simp add: confined_def await_def case_prod_beta Let_def)

lemma confined_get_fid:
  "(\<And>x. tbl f = Some x \<Longrightarrow> confined H (k x)) \<Longrightarrow> confined H (get_fid tbl f k)"
  by (cases "tbl f") (auto simp: confined_def)

lemma confined_unwrap_fid:
  "(\<And>x. nf = Some x \<Longrightarrow> confined H (k x)) \<Longrightarrow> confined H (unwrap_fid nf k)"
  by (cases nf) (auto simp: confined_def unwrap_fid_def)

lemma unpfs_simps [simp]:
  "rattach (unpfs S realroot) = unpfs_rattach S realroot" "rwalk (unpfs S realroot) = unpfs_rwalk S"
  "rgetattr (unpfs S realroot) = unpfs_rgetattr S" "rsetattr (unpfs S realroot) = unpfs_rsetattr S"
  "rreadlink (unpfs S realroot) = unpfs_rreadlink S" "rreaddir (unpfs S realroot) = unpfs_rreaddir S"
  "rlopen (unpfs S realroot) = unpfs_rlopen S" "rlcreate (unpfs S realroot) = unpfs_rlcreate S"
  "rread (unpfs S realroot) = unpfs_rread S" "rwrite (unpfs S realroot) = unpfs_rwrite S"
  "rmkdir (unpfs S realroot) = unpfs_rmkdir S" "rrenameat (unpfs S realroot) = unpfs_rrenameat S"
  "runlinkat (unpfs S realroot) = unpfs_runlinkat S" "rfsync (unpfs S realroot) = unpfs_rfsync S"
  "rclunk (unpfs S realroot) = unpfs_rclunk" "rstatfs (unpfs S realroot) = unpfs_rstatfs S"
  "fs_default (unpfs S realroot) = UnpfsFid_default"
  by (simp_all add: unpfs_def default_Filesystem_def)

lemma confined_defaults [confined_intro]:
  "confined H (rsymlink (unpfs S realroot) f name symtgt gid)"
  "confined H (rmknod (unpfs S realroot) f name mode major minor gid)"
  "confined H (rrename (unpfs S realroot) f d name)"
  "confined H (rxattrwalk (unpfs S realroot) f d name)"
  "confined H (rxattrcreate (unpfs S realroot) f name sz flags)"
  "confined H (rlock (unpfs S realroot) f lock)" "confined H (rgetlock (unpfs S realroot) f glock)"
  "confined H (rlink (unpfs S realroot) d f name)"
  "confined H (rauth (unpfs S realroot) f uname aname n_uname)"
  "confined H (rflush (unpfs S realroot) old)" "confined H (rremove (unpfs S realroot) f)"
  "confined H (rversion (unpfs S realroot) msize ver)"
  by (simp_all add: unpfs_def default_Filesystem_def confined_basic)

lemma confined_dispatch_call:
  assumes "\<And>n. nf = Some n \<Longrightarrow> fid_aux n \<in> H" "\<And>a. opened tbl body = Some a \<Longrightarrow> a \<in> H"
  shows "confined H (dispatch_call (unpfs S realroot) tbl nf body)"
  using assms
  by (cases body; simp only: dispatch_call_def Fcall.case unpfs_simps;
      intro confined_get_fid confined_unwrap_fid confined_await confined_intro;
      simp add: opened_def)

section \<open>Who holds a cell\<close>

text \<open>
  The cells in use: of the entries of the table, and of the new fids that tasks have made and
  not inserted yet. In a reachable state no two of these share a cell.
\<close>

fun pending :: "'a task \<Rightarrow> 'a Fid option" where
  "pending (Handled msg nf r) = nf"
| "pending (Dropped msg nf r) = nf"
| "pending _ = None"

fun holder :: "(nat, ('h, 'w) store) server \<Rightarrow> u32 + nat \<Rightarrow> nat option" where
  "holder c (Inl k) = map_option fid_aux (srv_fids c k)"
| "holder c (Inr i) =
     (if i < length (srv_tasks c) then map_option fid_aux (pending (srv_tasks c ! i)) else None)"

definition unshared :: "(nat, ('h, 'w) store) server \<Rightarrow> bool" where
  "unshared c \<longleftrightarrow>
     (\<forall>x a. holder c x = Some a \<longrightarrow> a < fresh (srv_fs c)) \<and>
     (\<forall>x y a. holder c x = Some a \<longrightarrow> holder c y = Some a \<longrightarrow> x = y)"

lemma unshared_sub:
  assumes "unshared c" "holder d \<subseteq>\<^sub>m holder c" "fresh (srv_fs c) \<le> fresh (srv_fs d)"
  shows "unshared d"
  using assms unfolding unshared_def map_le_def
  by (metis domI order_less_le_trans)

lemma holder_update:
  assumes "srv_tasks d = (srv_tasks c)[i := t]" "i < length (srv_tasks c)"
  shows "holder d x = (case x of
      Inl k \<Rightarrow> map_option fid_aux (srv_fids d k)
    | Inr j \<Rightarrow> if j = i then map_option fid_aux (pending t) else holder c (Inr j))"
  using assms by (cases x) auto

lemma unshared_add:
  assumes "unshared c" "holder c x = None" "holder d = (holder c)(x \<mapsto> fresh (srv_fs c))"
    and "fresh (srv_fs c) < fresh (srv_fs d)"
  shows "unshared d"
  using assms unfolding unshared_def by (auto dest: less_trans split: if_splits)

lemma unshared_move:
  assumes "unshared c" "holder c x = Some a" "holder d = (holder c)(x := None, y \<mapsto> a)"
    and "fresh (srv_fs c) \<le> fresh (srv_fs d)"
  shows "unshared d"
  using assms unfolding unshared_def by (auto split: if_splits dest: order_less_le_trans)

lemma make_newfid_unpfs:
  "make_newfid (unpfs S realroot) body s = (nf, s1) \<Longrightarrow>
     (case nf of None \<Rightarrow> s1 = s | Some n \<Rightarrow> fid_aux n = fresh s \<and> fresh s1 = fresh s + 1 \<and>
        (\<forall>h. h \<noteq> fresh s \<longrightarrow> cells s1 h = cells s h))"
  by (auto simp: make_newfid_def UnpfsFid_default_def split: option.splits prod.splits)

lemma dispatch_call_fresh:
  "dispatch_call (unpfs S realroot) tbl nf body s = (r, s') \<Longrightarrow> fresh s' = fresh s"
  using confined_dispatch_call [of nf UNIV tbl body S realroot]
  by (auto simp: confined_def dest: spec [of _ s])

lemma unshared_run:
  assumes "unshared c" "i < length (srv_tasks c)" "\<not> task_done (srv_tasks c ! i)"
  shows "unshared (run_task N (unpfs S realroot) i c)" (is "unshared ?d")
proof (cases "srv_tasks c ! i")
  case (Spawned msg)
  obtain nf s1 where nf: "make_newfid (unpfs S realroot) (msg_body msg) (srv_fs c) = (nf, s1)"
    by fastforce
  note new = make_newfid_unpfs [OF nf]
  from Spawned assms(2) have none: "holder c (Inr i) = None" by simp
  from Spawned show ?thesis
  proof (cases rule: run_task_Spawned [where fs = "unpfs S realroot" and N = N])
    case (ok nf' r s2)
    then have d: "srv_tasks ?d = (srv_tasks c)[i := Handled msg nf r]" "srv_fids ?d = srv_fids c"
      "fresh (srv_fs ?d) = fresh s1"
      using nf by (auto dest: dispatch_call_fresh)
    then have h: "holder ?d = (holder c)(Inr i := map_option fid_aux nf)"
      using assms(2) by (auto simp: fun_eq_iff holder_update split: sum.split)
    show ?thesis
    proof (cases nf)
      case None
      with h d new none show ?thesis
        by (intro unshared_sub [OF assms(1)]) (auto simp: map_le_def)
    next
      case (Some n)
      with h d new none show ?thesis
        by (intro unshared_add [OF assms(1) none]) simp_all
    qed
  next
    case (err e s2)
    have "fresh s2 = fresh s1"
      using err(2) nf by (auto simp: dispatch_once_def dest: dispatch_call_fresh
          split: prod.splits option.splits sum.splits)
    then have "fresh (srv_fs c) \<le> fresh s2" using new by (auto split: option.splits)
    moreover have "holder ?d = holder c"
      using none assms(2) err(1) by (auto simp: fun_eq_iff holder_update split: sum.split)
    ultimately show ?thesis
      using err(1) by (intro unshared_sub [OF assms(1)]) auto
  qed
next
  case (Handled msg nf r)
  then have "holder ?d \<subseteq>\<^sub>m holder c"
    using assms(2) by (auto simp: run_task_Handled map_le_def holder_update drop_clunked_def
        split: sum.splits Fcall.splits if_splits)
  then show ?thesis
    using Handled by (intro unshared_sub [OF assms(1)]) (auto simp: run_task_Handled)
next
  case (Dropped msg nf r)
  show ?thesis
  proof (cases nf)
    case None
    with Dropped assms(2) have "holder ?d \<subseteq>\<^sub>m holder c"
      by (auto simp: run_task_Dropped map_le_def holder_update insert_newfid_def
          split: sum.splits if_splits)
    with Dropped show ?thesis
      by (intro unshared_sub [OF assms(1)]) (auto simp: run_task_Dropped)
  next
    case (Some n)
    with Dropped assms(2) have "holder c (Inr i) = Some (fid_aux n)" by simp
    moreover have "holder ?d = (holder c)(Inr i := None, Inl (fid_fid n) \<mapsto> fid_aux n)"
      using Some Dropped assms(2)
      by (auto simp: fun_eq_iff run_task_Dropped holder_update insert_newfid_def split: sum.split)
    ultimately show ?thesis
      using Dropped by (intro unshared_move [OF assms(1)]) (auto simp: run_task_Dropped)
  qed
next
  case (Replying msg r)
  then have "holder ?d \<subseteq>\<^sub>m holder c"
    using assms(2)
    by (auto simp: run_task_Replying_result map_le_def holder_update split: sum.splits if_splits)
  with Replying show ?thesis
    by (intro unshared_sub [OF assms(1)]) (auto simp: run_task_Replying_result)
qed (use assms in simp_all)

lemma unshared_receive: "unshared c \<Longrightarrow> unshared (receive c)"
proof -
  have "holder (receive c) x = holder c x" for x
    by (cases x) (auto simp: receive_def nth_append less_Suc_eq split: list.split sum.split prod.split)
  moreover have "srv_fs (receive c) = srv_fs c"
    by (auto simp: receive_def split: list.split sum.split prod.split)
  ultimately show "unshared c \<Longrightarrow> unshared (receive c)" by (simp add: unshared_def)
qed

lemma unshared_step:
  assumes "serve_step N (unpfs S realroot) c d" "unshared c"
  shows "unshared d"
  using assms(1)
proof (cases rule: serve_step.cases)
  case (send_fails i msg r)
  then have "holder d \<subseteq>\<^sub>m holder c"
    by (auto simp: map_le_def holder_update split: sum.splits if_splits)
  with send_fails show ?thesis by (intro unshared_sub [OF assms(2)]) auto
qed (use assms(2) in \<open>simp_all add: unshared_receive unshared_run\<close>)

lemma unshared_init: "unshared (serve_init frames s)"
proof -
  have "holder (serve_init frames s) x = None" for x by (cases x) (simp_all add: serve_init_def)
  then show ?thesis by (simp add: unshared_def)
qed

lemma unshared_reachable:
  "serves N (unpfs S realroot) (serve_init frames s) c \<Longrightarrow> unshared c"
  by (erule serves_invariant [where P = unshared], rule unshared_init, rule unshared_step)

section \<open>Masks\<close>

lemma flags_masked:
  "M AND m = m \<Longrightarrow> flags_contains (v AND M) m = flags_contains v m"
  "M AND m = m \<Longrightarrow> flags_intersects (v AND M) m = flags_intersects v m"
  by (simp_all add: flags_contains_def flags_intersects_def and.assoc)

text \<open>The bits of a Tsetattr that the file system acts on.\<close>

definition acted_bits :: SetattrMask where
  "acted_bits = 0x18F"

lemma acted_masked:
  "flags_contains (v AND acted_bits) SetattrMask_MODE = flags_contains v SetattrMask_MODE"
  "flags_contains (v AND acted_bits) SetattrMask_UID = flags_contains v SetattrMask_UID"
  "flags_contains (v AND acted_bits) SetattrMask_GID = flags_contains v SetattrMask_GID"
  "flags_contains (v AND acted_bits) SetattrMask_SIZE = flags_contains v SetattrMask_SIZE"
  "flags_contains (v AND acted_bits) SetattrMask_ATIME_SET = flags_contains v SetattrMask_ATIME_SET"
  "flags_contains (v AND acted_bits) SetattrMask_MTIME_SET = flags_contains v SetattrMask_MTIME_SET"
  "flags_intersects (v AND acted_bits) (SetattrMask_UID OR SetattrMask_GID) =
     flags_intersects v (SetattrMask_UID OR SetattrMask_GID)"
  "flags_intersects (v AND acted_bits) (SetattrMask_ATIME_SET OR SetattrMask_MTIME_SET) =
     flags_intersects v (SetattrMask_ATIME_SET OR SetattrMask_MTIME_SET)"
  by (rule flags_masked; simp add: acted_bits_def SetattrMask_MODE_def SetattrMask_UID_def
      SetattrMask_GID_def SetattrMask_SIZE_def SetattrMask_ATIME_SET_def SetattrMask_MTIME_SET_def)+

lemma unpfs_rsetattr_masked:
  "unpfs_rsetattr S fid (valid AND acted_bits) stat = unpfs_rsetattr S fid valid stat"
  by (simp add: unpfs_rsetattr_def acted_masked)

lemma unpfs_rsetattr_zero: "unpfs_rsetattr S fid 0 stat s = (Inr Fcall.Rsetattr, s)"
  by (simp add: unpfs_rsetattr_def and_then_def read_path_def only_if_def succeed_def
      flags_contains_def flags_intersects_def SetattrMask_MODE_def SetattrMask_SIZE_def)

section \<open>A small machine\<close>

text \<open>A machine with the files of the witnesses below: a directory with two entries.\<close>

definition sample_md :: "bool \<Rightarrow> u64 \<Rightarrow> Metadata" where
  "sample_md dir ino =
     \<lparr>md_is_dir = dir, md_is_symlink = False, md_ino = ino, md_mode = 0, md_uid = 0, md_gid = 0,
      md_nlink = 1, md_rdev = 0, md_size = 0, md_blksize = 512, md_blocks = 0, md_atime = 0,
      md_atime_nsec = 0, md_mtime = 0, md_mtime_nsec = 0, md_ctime = 0, md_ctime_nsec = 0\<rparr>"

definition sample_lookup :: "string \<Rightarrow> io_error + Metadata" where
  "sample_lookup p =
     (if p = ''/srv'' \<or> p = ''.'' \<or> p = ''..'' then Inr (sample_md True 2)
      else if p = ''/srv/a'' \<or> p = ''/srv/b'' then Inr (sample_md False 3)
      else Inl (Os 2 NotFound))"

definition sample_sys :: "(string, nat, nat) sys" where
  "sample_sys =
     \<lparr>sys_symlink_metadata = (\<lambda>p w. (sample_lookup p, w)),
      sys_metadata = (\<lambda>p w. (sample_lookup p, w)),
      sys_set_permissions = (\<lambda>p m w. (Inr (), w + 1)),
      sys_chown = (\<lambda>p u g w. (Inl EPERM, w)),
      sys_open_write = (\<lambda>p w. (Inr 0, w)),
      sys_set_len = (\<lambda>h n w. (Inr (), w)),
      sys_set_file_times = (\<lambda>p a m w. (Inr (), w)),
      sys_read_link = (\<lambda>p w. (Inl (Os 22 InvalidInput), w)),
      sys_read_dir = (\<lambda>p w. (Inr [Inr ''a'', Inr ''b''], w)),
      sys_entry_metadata = (\<lambda>d w. (Inr (sample_md False 3), w)),
      sys_entry_file_name = (\<lambda>d. d),
      sys_open = (\<lambda>p fl m w. (Inr 0, w)),
      sys_seek = (\<lambda>h off w. (Inr off, w)),
      sys_read = (\<lambda>h n w. (Inr [], w)),
      sys_write = (\<lambda>h bs w. (Inr (length bs), w)),
      sys_sync_all = (\<lambda>h w. (Inr (), w)),
      sys_create_dir = (\<lambda>p w. (Inr (), w)),
      sys_rename = (\<lambda>p q w. (Inr (), w)),
      sys_remove_dir = (\<lambda>p w. (Inr (), w)),
      sys_remove_file = (\<lambda>p w. (Inr (), w)),
      sys_statvfs = (\<lambda>p w. (Inl EIO, w)),
      sys_O_WRONLY = 1, sys_O_RDONLY = 0, sys_O_RDWR = 2, sys_O_CREAT = 64, sys_O_TRUNC = 512,
      sys_OFlag_truncate = (\<lambda>x. x), sys_Mode_truncate = (\<lambda>x. x)\<rparr>"

definition sample_store :: "(nat, nat) store" where
  "sample_store =
     \<lparr>cells = (\<lambda>h. \<lparr>ufid_path = (if h = 0 then ''/srv'' else []), ufid_file = None\<rparr>),
      fresh = 2, world = 7\<rparr>"

text \<open>A run: a client attaches twice.\<close>

definition attach_msg' :: Msg where
  "attach_msg' = \<lparr>msg_tag = 3, msg_body = Fcall.Tattach 5 6 ''u'' ''/'' 0\<rparr>"

definition two_attaches :: "(io_error + u8 list) list" where
  "two_attaches = attach_frames @
     [Inr [104, 3, 0, 5, 0, 0, 0, 6, 0, 0, 0, 1, 0, 117, 1, 0, 47, 0, 0, 0, 0]]"

definition attach_frame :: "u8 list" where
  "attach_frame = [105, 2, 0, 128, 0, 0, 0, 0, 2, 0, 0, 0, 0, 0, 0, 0]"

definition attach_frame' :: "u8 list" where
  "attach_frame' = [105, 3, 0, 128, 0, 0, 0, 0, 2, 0, 0, 0, 0, 0, 0, 0]"

lemma attach_read':
  "read_msg [104, 3, 0, 5, 0, 0, 0, 6, 0, 0, 0, 1, 0, 117, 1, 0, 47, 0, 0, 0, 0] =
     Inr (attach_msg', [])"
  by code_simp

lemma attach_reply':
  "reply_frame attach_msg' (Fcall.Rattach \<lparr>qid_typ = 128, qid_version = 0, qid_path = 2\<rparr>) =
     Some attach_frame'"
  by code_simp

lemma two_attaches_requests: "requests two_attaches = [attach_msg, attach_msg']"
  by (simp add: two_attaches_def attach_frames_def attach_read attach_read')

lemma sample_attach:
  assumes "fresh s = h" "world s = 7"
  shows "\<exists>s'. dispatch_once (unpfs sample_sys ''/srv'')
       \<lparr>msg_tag = t, msg_body = Fcall.Tattach k 6 ''u'' ''/'' 0\<rparr> tbl s =
     (Some (Inr (Fcall.Rattach \<lparr>qid_typ = 128, qid_version = 0, qid_path = 2\<rparr>)),
      tbl(k \<mapsto> \<lparr>fid_fid = k, fid_aux = h\<rparr>), s') \<and> fresh s' = h + 1 \<and> world s' = 7"
  using assms
  by (simp add: dispatch_once_def make_newfid_def newfid_def dispatch_call_def await_def
      unpfs_rattach_def and_then_def write_path_def get_qid_def io_def succeed_def
      UnpfsFid_default_def sample_sys_def sample_lookup_def qid_from_attr_def sample_md_def
      QidType_from_FileType_def insert_newfid_def drop_clunked_def flags_insert_def
      QidType_FILE_def QidType_DIR_def Let_def)

lemma sample_attached:
  "\<exists>c f g. serves sample_nix (unpfs sample_sys ''/srv'') (serve_init two_attaches sample_store) c \<and>
     srv_fids c 4 = Some f \<and> srv_fids c 5 = Some g \<and> srv_out c = [attach_frame, attach_frame'] \<and>
     srv_conn c = Reading \<and> srv_in c = [] \<and> srv_tasks c = [Finished attach_msg, Finished attach_msg']"
proof -
  let ?fs = "unpfs sample_sys ''/srv''" and
    ?init = "serve_init two_attaches sample_store :: (nat, (nat, nat) store) server"
  have init: "srv_conn ?init = Reading" "srv_fids ?init = Map.empty" "fresh (srv_fs ?init) = 2"
      "world (srv_fs ?init) = 7" "srv_out ?init = []" "srv_in ?init = two_attaches" "srv_tasks ?init = []"
    by (simp_all add: serve_init_def sample_store_def)
  obtain s where s: "dispatch_once ?fs attach_msg (srv_fids ?init) (srv_fs ?init) =
      (Some (Inr (Fcall.Rattach \<lparr>qid_typ = 128, qid_version = 0, qid_path = 2\<rparr>)),
       (srv_fids ?init)(4 \<mapsto> \<lparr>fid_fid = 4, fid_aux = 2\<rparr>), s)" "fresh s = 3" "world s = 7"
    using sample_attach [OF init(3,4), of 2 4 "srv_fids ?init"] by (auto simp: attach_msg_def)
  obtain c where c: "serves sample_nix ?fs ?init c" "srv_conn c = Reading"
      "srv_in c = [Inr [104, 3, 0, 5, 0, 0, 0, 6, 0, 0, 0, 1, 0, 117, 1, 0, 47, 0, 0, 0, 0]]"
      "srv_fids c 4 = Some \<lparr>fid_fid = 4, fid_aux = 2\<rparr>" "srv_fs c = s" "srv_out c = [attach_frame]"
      "srv_tasks c = [Finished attach_msg]"
    using serves_message [OF serves.start init(1) _ attach_read s(1) _ attach_reply, of _ sample_nix] init
    by (fastforce simp: two_attaches_def attach_frames_def MsgType_is_r_def attach_frame_def)
  obtain s' where s': "dispatch_once ?fs attach_msg' (srv_fids c) (srv_fs c) =
      (Some (Inr (Fcall.Rattach \<lparr>qid_typ = 128, qid_version = 0, qid_path = 2\<rparr>)),
       (srv_fids c)(5 \<mapsto> \<lparr>fid_fid = 5, fid_aux = 3\<rparr>), s')"
    using sample_attach [OF s(2,3), of 3 5 "srv_fids c"] c(5) by (auto simp: attach_msg'_def)
  show ?thesis
    using serves_message [OF c(1,2,3) attach_read' s' _ attach_reply'] c
    by (fastforce simp: MsgType_is_r_def)
qed

section \<open>Properties\<close>

text \<open>
  C19. A walk, on a machine whose lookups answer \<open>r\<close> and change nothing: the qids are those of
  the paths up to the first that does not exist; the walk fails exactly when already the first
  does not, with the error of that lookup. The path given to the new fid is that of the last
  lookup made: when the walk stops half way it is the path that was not found, one element
  beyond the qids returned.
\<close>

theorem unpfs_rwalk_result:
  assumes "\<And>p. sys_symlink_metadata S p (world s) = (r p, world s)"
  shows "unpfs_rwalk S fid nfid wnames s =
    (let path = ufid_path (cells s (fid_aux fid));
         ps = walk_paths path wnames;
         found = takeWhile (\<lambda>p. isl (r p) = False) ps
     in if found = [] \<and> ps \<noteq> [] then (Inl (Io (projl (r (hd ps)))), s)
        else (Inr (Fcall.Rwalk (map (\<lambda>p. qid_from_attr (projr (r p))) found)),
              snd (write_path nfid (last (path # take (length found + 1) ps)) s)))"
proof (cases wnames)
  case Nil
  then show ?thesis
    by (simp add: unpfs_rwalk_def and_then_def read_path_def write_path_def succeed_def)
next
  case (Cons name names)
  let ?p = "path_push (ufid_path (cells s (fid_aux fid))) name"
  show ?thesis
    using walk_loop_result [OF assms, of 1 names ?p] get_qid_lookup [of S s r ?p, OF assms]
    by (cases "r ?p")
      (simp_all add: Cons unpfs_rwalk_def and_then_def read_path_def write_path_def succeed_def
        Error_from_io_def Let_def)
qed

theorem unpfs_rwalk_result_witness:
  "unpfs_rwalk sample_sys \<lparr>fid_fid = 1, fid_aux = 0\<rparr> \<lparr>fid_fid = 2, fid_aux = 1\<rparr> [''a'', ''x'', ''y'']
     sample_store =
   (Inr (Fcall.Rwalk [\<lparr>qid_typ = 0, qid_version = 0, qid_path = 3\<rparr>]),
    snd (write_path \<lparr>fid_fid = 2, fid_aux = 1\<rparr> ''/srv/a/x'' sample_store))"
  using unpfs_rwalk_result [of sample_sys sample_store sample_lookup "\<lparr>fid_fid = 1, fid_aux = 0\<rparr>"
      "\<lparr>fid_fid = 2, fid_aux = 1\<rparr>" "[''a'', ''x'', ''y'']"]
  by (simp add: sample_sys_def sample_store_def sample_lookup_def path_push_def
      path_is_absolute_def qid_from_attr_def sample_md_def QidType_from_FileType_def Let_def
      QidType_FILE_def)

text \<open>
  C15. Listing a directory in pages is complete: in a directory that does not change, and when
  every entry fits in the \<open>count\<close> of the client, a client that asks again from the offset of
  the last entry it got, until an answer is empty, receives the two dot entries and then every
  entry of the directory stream, in order, each once. (Names are short enough for the \<open>u32\<close>
  sizes not to wrap.)
\<close>

theorem unpfs_list_dir_complete:
  assumes "quiet_dir S attr meta (ufid_path (cells s (fid_aux fid))) ds (world s)"
    and "short_names S (max (unat cnt) 51) ds" "length ds + 2 < 2 ^ 64"
    and "\<forall>d\<in>set ds. 24 + length (to_string_lossy (sys_entry_file_name S d)) \<le> unat cnt"
    and "length ds + 2 \<le> n"
  shows "list_dir S fid cnt n 0 s = Some (dots S attr @ entries_from S meta 0 ds)"
proof -
  let ?es = "entries_from S meta 0 ds"
  obtain m where m: "m \<le> length ?es" "take_fit (unat cnt) 51 ?es = take m ?es"
    using take_fit_take by blast
  obtain n' where n: "n = Suc n'" "length ds < n'" using assms(5) by (cases n) auto
  have "dirent_offset (last (dots S attr @ take m ?es)) = of_nat (m + 1)"
    using last_take_entries_offset [of m 0 ds S meta] m(1)
    by (cases "m = 0"; cases ds) (simp_all add: dots_def)
  moreover have "list_dir S fid cnt n' (of_nat (m + 1)) s = Some (drop m ?es)"
    using m(1) n(2) assms(4) by (intro list_dir_rest [OF assms(1-3)]) simp_all
  ultimately show ?thesis
    using unpfs_rreaddir_quiet [OF assms(1,2), of 0] m(2) n(1)
    by (simp add: dots_def)
qed

theorem unpfs_list_dir_complete_witness:
  "list_dir sample_sys \<lparr>fid_fid = 1, fid_aux = 0\<rparr> 30 4 0 sample_store =
     Some (dots sample_sys (\<lambda>_. sample_md True 2) @
       [entry_at sample_sys (\<lambda>_. sample_md False 3) ''a'' 0,
        entry_at sample_sys (\<lambda>_. sample_md False 3) ''b'' 1])"
proof -
  have "to_string_lossy ''a'' = ''a''" "to_string_lossy ''b'' = ''b''"
    by (rule to_string_lossy_id, code_simp)+
  then show ?thesis
    using unpfs_list_dir_complete [of sample_sys "\<lambda>_. sample_md True 2" "\<lambda>_. sample_md False 3"
        sample_store "\<lparr>fid_fid = 1, fid_aux = 0\<rparr>" "[''a'', ''b'']" 30 4]
    by (simp add: quiet_dir_def short_names_def sample_sys_def sample_store_def sample_lookup_def)
qed

text \<open>
  Flags a client sets beyond those the server supports (O_DIRECT, say) never reach the
  machine: opening and creating with them is opening and creating without them.
\<close>

theorem unpfs_open_flags:
  assumes "extra AND UNIX_FLAGS S = 0"
  shows "unpfs_rlopen S fid (flags OR extra) = unpfs_rlopen S fid flags \<and>
    unpfs_rlcreate S fid name (flags OR extra) mode gid = unpfs_rlcreate S fid name flags mode gid"
proof -
  have "(flags OR extra) AND UNIX_FLAGS S = flags AND UNIX_FLAGS S"
    using assms by (simp add: bit.conj_disj_distrib2)
  then show ?thesis by (simp add: unpfs_rlopen_def unpfs_rlcreate_def)
qed

theorem unpfs_open_flags_witness:
  "unpfs_rlopen sample_sys \<lparr>fid_fid = 1, fid_aux = 0\<rparr> (2 OR 0x4000) =
   unpfs_rlopen sample_sys \<lparr>fid_fid = 1, fid_aux = 0\<rparr> 2"
  using unpfs_open_flags [where extra = "0x4000" and S = sample_sys and flags = 2 and
      fid = "\<lparr>fid_fid = 1, fid_aux = 0\<rparr>"]
  by (simp add: UNIX_FLAGS_def sample_sys_def)

text \<open>
  Reading, writing and syncing through a fid that was not opened is refused, EINVAL on
  the wire, without touching the machine.
\<close>

theorem unpfs_not_open:
  assumes "ufid_file (cells s (fid_aux fid)) = None"
  shows "\<forall>op\<in>{unpfs_rread S fid off cnt, unpfs_rwrite S fid off dat, unpfs_rfsync S fid}.
    \<exists>e. op s = (Inl e, s) \<and> errno N e = EINVAL"
  using assms
  by (simp add: unpfs_rread_def unpfs_rwrite_def unpfs_rfsync_def and_then_def open_file_def
      Error_from_io_def INVALID_FID_def errno_of_kind_def)

theorem unpfs_not_open_witness:
  "\<exists>e. unpfs_rread sample_sys \<lparr>fid_fid = 1, fid_aux = 0\<rparr> 0 100 sample_store = (Inl e, sample_store) \<and>
     errno sample_nix e = EINVAL"
  using unpfs_not_open [where s = sample_store and fid = "\<lparr>fid_fid = 1, fid_aux = 0\<rparr>" and
      S = sample_sys and off = 0 and cnt = 100 and N = sample_nix]
  by (simp add: sample_store_def)

text \<open>
  Of the mask of a Tsetattr only the bits for mode, owner, group, size and the two explicit
  times matter, and a message with none of them succeeds without a call to the machine. So
  ATIME or MTIME alone, which asks for the current time of the server, does nothing.
\<close>

theorem unpfs_rsetattr_bits:
  assumes "valid AND 0x18F = valid' AND 0x18F"
  shows "unpfs_rsetattr S fid valid stat = unpfs_rsetattr S fid valid' stat \<and>
    unpfs_rsetattr S fid (SetattrMask_ATIME OR SetattrMask_MTIME OR SetattrMask_CTIME) stat s =
      (Inr Fcall.Rsetattr, s)"
proof -
  have "(SetattrMask_ATIME OR SetattrMask_MTIME OR SetattrMask_CTIME) AND acted_bits = 0"
    by (simp add: SetattrMask_ATIME_def SetattrMask_MTIME_def SetattrMask_CTIME_def acted_bits_def)
  then show ?thesis
    using assms unpfs_rsetattr_masked unpfs_rsetattr_zero by (metis acted_bits_def)
qed

theorem unpfs_rsetattr_bits_witness:
  "unpfs_rsetattr sample_sys \<lparr>fid_fid = 1, fid_aux = 0\<rparr> 0x71 =
     unpfs_rsetattr sample_sys \<lparr>fid_fid = 1, fid_aux = 0\<rparr> 1"
  by (rule ext, rule conjunct1 [OF unpfs_rsetattr_bits]) simp

text \<open>
  A Tsetattr is not atomic: the attributes are set in the order mode, owner, size, times,
  and when one fails the earlier ones stay, with the error of the one that failed.
\<close>

theorem unpfs_rsetattr_order:
  assumes "flags_contains valid SetattrMask_MODE"
    and "flags_intersects valid (SetattrMask_UID OR SetattrMask_GID)"
    and "sys_set_permissions S (ufid_path (cells s (fid_aux fid))) (setattr_mode stat) (world s) = (Inr (), w1)"
    and "\<And>u g. sys_chown S (ufid_path (cells s (fid_aux fid))) u g w1 = (Inl e, w2)"
  shows "unpfs_rsetattr S fid valid stat s = (Inl (No e), s\<lparr>world := w2\<rparr>)"
  using assms
  by (simp add: unpfs_rsetattr_def and_then_def read_path_def only_if_def io_def nix_io_def
      Error_from_nix_def)

theorem unpfs_rsetattr_order_witness:
  "unpfs_rsetattr sample_sys \<lparr>fid_fid = 1, fid_aux = 0\<rparr> 3
     \<lparr>setattr_mode = 0, setattr_uid = 0, setattr_gid = 0, setattr_size = 0,
      setattr_atime = \<lparr>time_sec = 0, time_nsec = 0\<rparr>,
      setattr_mtime = \<lparr>time_sec = 0, time_nsec = 0\<rparr>\<rparr> sample_store =
   (Inl (No EPERM), sample_store\<lparr>world := 8\<rparr>)"
  by (rule unpfs_rsetattr_order [where ?w1.0 = 8])
    (simp_all add: sample_sys_def sample_store_def flags_contains_def flags_intersects_def
      SetattrMask_MODE_def SetattrMask_UID_def SetattrMask_GID_def)

text \<open>
  What a message leaves alone: handling it changes no cell but the one made for its new
  fid and, for Tlopen and Tlcreate, that of its fid; so the path and the open file of every
  other fid stay as they are.
\<close>

theorem unpfs_frame:
  assumes "h \<noteq> fresh s" "opened tbl (msg_body msg) \<noteq> Some h"
  shows "cells (snd (snd (dispatch_once (unpfs S realroot) msg tbl s))) h = cells s h"
proof -
  obtain nf s1 where nf: "make_newfid (unpfs S realroot) (msg_body msg) s = (nf, s1)" by fastforce
  note new = make_newfid_unpfs [OF nf]
  let ?H = "{a. (\<exists>n. nf = Some n \<and> a = fid_aux n) \<or> opened tbl (msg_body msg) = Some a}"
  have "h \<notin> ?H" using assms new by (auto split: option.splits)
  moreover have "confined ?H (dispatch_call (unpfs S realroot) tbl nf (msg_body msg))"
    by (rule confined_dispatch_call) auto
  ultimately have "cells (snd (dispatch_call (unpfs S realroot) tbl nf (msg_body msg) s1)) h = cells s1 h"
    using confinedD by blast
  moreover have "cells s1 h = cells s h" using assms(1) new by (auto split: option.splits)
  ultimately show ?thesis
    using nf by (auto simp: dispatch_once_def split: prod.split option.split sum.split)
qed

theorem unpfs_frame_witness:
  "cells (snd (snd (dispatch_once (unpfs sample_sys ''/srv'')
      \<lparr>msg_tag = 1, msg_body = Fcall.Twalk 4 5 [''a'']\<rparr> [4 \<mapsto> \<lparr>fid_fid = 4, fid_aux = 0\<rparr>] sample_store))) 0 =
   cells sample_store 0"
  by (rule unpfs_frame) (simp_all add: sample_store_def opened_def)

text \<open>
  C8. No aliasing: in every state that a connection on this file system reaches, two different
  fids of the table have different cells. With the frame property, what a client does to one
  fid is never seen through another.
\<close>

theorem unpfs_no_alias:
  assumes "serves N (unpfs S realroot) (serve_init frames s) c"
    and "srv_fids c k = Some f" "srv_fids c k' = Some f'" "k \<noteq> k'"
  shows "fid_aux f \<noteq> fid_aux f'"
proof
  assume "fid_aux f = fid_aux f'"
  with assms(2,3) have "holder c (Inl k) = Some (fid_aux f)" "holder c (Inl k') = Some (fid_aux f)"
    by simp_all
  with unshared_reachable [OF assms(1)] have "Inl k = (Inl k' :: u32 + nat)"
    unfolding unshared_def by blast
  with assms(4) show False by simp
qed

theorem unpfs_no_alias_witness:
  "\<exists>c f g. serves sample_nix (unpfs sample_sys ''/srv'') (serve_init two_attaches sample_store) c \<and>
     srv_fids c 4 = Some f \<and> srv_fids c 5 = Some g \<and> fid_aux f \<noteq> fid_aux g"
proof -
  obtain c f g where c: "serves sample_nix (unpfs sample_sys ''/srv'') (serve_init two_attaches sample_store) c"
    "srv_fids c 4 = Some f" "srv_fids c 5 = Some g"
    using sample_attached by blast
  from c unpfs_no_alias [OF c] show ?thesis by auto
qed

text \<open>
  C22. On this file system too no request is answered twice: at every moment the frames sent
  are, in some order, one answer each for messages that were read, of their tag and type.
\<close>

theorem unpfs_answers_once:
  assumes "serves N (unpfs S realroot) (serve_init frames s) c"
  shows "\<exists>ms. mset ms \<subseteq># mset (requests frames) \<and> list_all2 frame_answers ms (srv_out c)"
proof -
  have "replied c" using assms by (rule unpfs.replied_reachable)
  then obtain ms where ms: "mset ms = finished_msgs (srv_tasks c)"
    and out: "list_all2 frame_answers ms (srv_out c)"
    by (auto simp: replied_def)
  have "finished_msgs (srv_tasks c) \<subseteq># mset (map task_msg (srv_tasks c))"
    by (simp add: finished_msgs_def image_mset_subseteq_mono)
  also have "\<dots> \<subseteq># mset (requests frames)"
    using received_reachable [OF assms] by (simp add: received_def)
  finally show ?thesis using ms out by metis
qed

theorem unpfs_answers_once_witness:
  "\<exists>ms. mset ms \<subseteq># mset [attach_msg, attach_msg'] \<and>
     list_all2 frame_answers ms [attach_frame, attach_frame']"
  using sample_attached unpfs_answers_once [of sample_nix sample_sys "''/srv''" two_attaches sample_store]
  by (fastforce simp: two_attaches_requests)

end
