(* ===== verification/Unpfs_Spec.thy ===== *)
theory Unpfs_Spec
  imports Unpfs_Properties
begin

text \<open>
  What a connection on the file system promises, without the store of cells: a fid is the
  value it stands for, a path with the file opened on it, and a message is a function of the
  table of these values and of the machine. \<open>spec_call\<close> says what a message does,
  \<open>spec_message\<close> is the message handled alone, and \<open>spec_step\<close> is a connection on which the
  phases of the tasks interleave. The theory \<open>Unpfs_Refinement\<close> shows that the code, whose fids
  are shared cells behind locks, refines this specification.
\<close>

section \<open>Calls of the machine\<close>

type_synonym ('w, 'x) act_on = "('w, Error, 'x) action"

definition call_io :: "('w \<Rightarrow> (io_error + 'x) \<times> 'w) \<Rightarrow> ('w, 'x) act_on" where
  "call_io call = map_err Error_from_io call"

definition call_nix :: "('w \<Rightarrow> (Errno + 'x) \<times> 'w) \<Rightarrow> ('w, 'x) act_on" where
  "call_nix call = map_err Error_from_nix call"

definition qid_of :: "('d, 'h, 'w) sys \<Rightarrow> string \<Rightarrow> ('w, Qid) act_on" where
  "qid_of S path =
     and_then (call_io (sys_symlink_metadata S path)) (\<lambda>attr. succeed (qid_from_attr attr))"

definition opened_file :: "'h UnpfsFid \<Rightarrow> ('w, 'h) act_on" where
  "opened_file x = (case ufid_file x of None \<Rightarrow> throw (Error_from_io INVALID_FID) | Some h \<Rightarrow> succeed h)"

definition open_at :: "('d, 'h, 'w) sys \<Rightarrow> string \<Rightarrow> u32 \<Rightarrow> u32 \<Rightarrow> ('w, 'h) act_on" where
  "open_at S path flags mode =
     call_nix (sys_open S path (sys_OFlag_truncate S (flags AND UNIX_FLAGS S)) (sys_Mode_truncate S mode))"

text \<open>
  A walk looks names up one below the other until one is missing. It ends at the last path it
  looked up, with the qids of those found and the error of the one that is missing.
\<close>

fun walk_from :: "('d, 'h, 'w) sys \<Rightarrow> string list \<Rightarrow> string \<Rightarrow> 'w \<Rightarrow>
    (string \<times> Qid list \<times> Error option) \<times> 'w" where
  "walk_from S [] p w = ((p, [], None), w)"
| "walk_from S (name # names) p w =
     (case qid_of S (path_push p name) w of
        (Inl e, w') \<Rightarrow> ((path_push p name, [], Some e), w')
      | (Inr q, w') \<Rightarrow>
          (let ((p', qs, e), w'') = walk_from S names (path_push p name) w'
           in ((p', q # qs, e), w'')))"

definition walk_to :: "('d, 'h, 'w) sys \<Rightarrow> string list \<Rightarrow> string \<Rightarrow> ('w, string \<times> Qid list) act_on" where
  "walk_to S names p w =
     (case walk_from S names p w of
        ((p', [], Some e), w') \<Rightarrow> (Inl e, w')
      | ((p', qs, e), w') \<Rightarrow> (Inr (p', qs), w'))"

text \<open>
  The entries of a directory stream that fit into \<open>cnt\<close> bytes after \<open>used\<close> ones, the first
  of them with the cookie \<open>off\<close>.
\<close>

fun entries_fit :: "('d, 'h, 'w) sys \<Rightarrow> u32 \<Rightarrow> u64 \<Rightarrow> u32 \<Rightarrow> (io_error + 'd) list \<Rightarrow>
    ('w, DirEntry list) act_on" where
  "entries_fit S cnt off used [] = succeed []"
| "entries_fit S cnt off used (Inl e # items) = throw (Error_from_io e)"
| "entries_fit S cnt off used (Inr item # items) =
     and_then (call_io (sys_entry_metadata S item)) (\<lambda>attr.
     let d = \<lparr>dirent_qid = qid_from_attr attr, dirent_offset = off, dirent_typ = 0,
              dirent_name = to_string_lossy (sys_entry_file_name S item)\<rparr>;
         used' = used + DirEntry_size d
     in if used' > cnt then succeed []
        else and_then (entries_fit S cnt (off + 1) used' items) (\<lambda>ds. succeed (d # ds)))"

definition dot_entry :: "('d, 'h, 'w) sys \<Rightarrow> string \<Rightarrow> u64 \<Rightarrow> ('w, DirEntry) act_on" where
  "dot_entry S name off = and_then (qid_of S name) (\<lambda>q. succeed
     \<lparr>dirent_qid = q, dirent_offset = off, dirent_typ = 0, dirent_name = to_string_lossy name\<rparr>)"

definition list_at :: "('d, 'h, 'w) sys \<Rightarrow> string \<Rightarrow> u64 \<Rightarrow> u32 \<Rightarrow> ('w, DirEntry list) act_on" where
  "list_at S path off cnt =
     (if off = 0 then
        and_then (dot_entry S ''.'' 0) (\<lambda>d0.
        and_then (dot_entry S ''..'' 1) (\<lambda>d1.
        and_then (call_io (sys_read_dir S path)) (\<lambda>items.
        and_then (entries_fit S cnt 2 (DirEntry_size d0 + DirEntry_size d1) items) (\<lambda>ds.
        succeed (d0 # d1 # ds)))))
      else
        and_then (call_io (sys_read_dir S path)) (\<lambda>items.
        entries_fit S cnt (off + 1) 0 (drop (unat (off - 1)) items)))"

definition set_attributes :: "('d, 'h, 'w) sys \<Rightarrow> string \<Rightarrow> SetattrMask \<Rightarrow> SetAttr \<Rightarrow> ('w, unit) act_on" where
  "set_attributes S path valid attr =
     for_each (\<lambda>m. m)
       [only_if (flags_contains valid SetattrMask_MODE)
          (call_io (sys_set_permissions S path (setattr_mode attr))),
        only_if (flags_intersects valid (SetattrMask_UID OR SetattrMask_GID))
          (call_nix (sys_chown S path
            (if flags_contains valid SetattrMask_UID then Some (setattr_uid attr) else None)
            (if flags_contains valid SetattrMask_GID then Some (setattr_gid attr) else None))),
        only_if (flags_contains valid SetattrMask_SIZE)
          (and_then (call_io (sys_open_write S path)) (\<lambda>h.
           call_io (sys_set_len S h (setattr_size attr)))),
        only_if (flags_intersects valid (SetattrMask_ATIME_SET OR SetattrMask_MTIME_SET))
          (and_then (call_io (sys_metadata S path)) (\<lambda>md.
           discard (call_io (sys_set_file_times S path
             (if flags_contains valid SetattrMask_ATIME_SET
              then from_unix_time (time_sec (setattr_atime attr)) (ucast (time_nsec (setattr_atime attr)))
              else from_last_access_time md)
             (if flags_contains valid SetattrMask_MTIME_SET
              then from_unix_time (time_sec (setattr_mtime attr)) (ucast (time_nsec (setattr_mtime attr)))
              else from_last_modification_time md)))))]"

section \<open>What a message does\<close>

text \<open>
  The messages that only read the fids they name: the reply, and the effect on the machine.
  \<open>F\<close> is the table; \<open>on_fid\<close> looks a fid up in it.
\<close>

definition on_fid :: "'h UnpfsFid fid_table \<Rightarrow> u32 \<Rightarrow> ('h UnpfsFid \<Rightarrow> ('w, 'x) act_on) \<Rightarrow> ('w, 'x) act_on" where
  "on_fid F fid k = (case F fid of None \<Rightarrow> throw (No EBADF) | Some f \<Rightarrow> k (fid_aux f))"

definition spec_reply :: "('d, 'h, 'w) sys \<Rightarrow> 'h UnpfsFid fid_table \<Rightarrow> Fcall \<Rightarrow> ('w, Fcall) act_on" where
  "spec_reply S F body =
     (case body of
        Fcall.Tstatfs fid \<Rightarrow> on_fid F fid (\<lambda>x.
          and_then (call_nix (sys_statvfs S (ufid_path x))) (\<lambda>b.
          succeed (Fcall.Rstatfs (Statfs_from_Statvfs b))))
      | Fcall.Treadlink fid \<Rightarrow> on_fid F fid (\<lambda>x.
          and_then (call_io (sys_read_link S (ufid_path x))) (\<lambda>link.
          succeed (Fcall.Rreadlink (to_string_lossy link))))
      | Fcall.Tgetattr fid req_mask \<Rightarrow> on_fid F fid (\<lambda>x.
          and_then (call_io (sys_symlink_metadata S (ufid_path x))) (\<lambda>md.
          succeed (Fcall.Rgetattr req_mask (qid_from_attr md) (Stat_from_Metadata md))))
      | Fcall.Tsetattr fid valid attr \<Rightarrow> on_fid F fid (\<lambda>x.
          and_then (set_attributes S (ufid_path x) valid attr) (\<lambda>_. succeed Fcall.Rsetattr))
      | Fcall.Treaddir fid off cnt \<Rightarrow> on_fid F fid (\<lambda>x.
          and_then (list_at S (ufid_path x) off cnt) (\<lambda>ds.
          succeed (Fcall.Rreaddir \<lparr>dirents_data = ds\<rparr>)))
      | Fcall.Tfsync fid \<Rightarrow> on_fid F fid (\<lambda>x.
          and_then (opened_file x) (\<lambda>h.
          and_then (call_io (sys_sync_all S h)) (\<lambda>_. succeed Fcall.Rfsync)))
      | Fcall.Tread fid off cnt \<Rightarrow> on_fid F fid (\<lambda>x.
          and_then (opened_file x) (\<lambda>h.
          and_then (call_io (sys_seek S h off)) (\<lambda>_.
          and_then (call_io (sys_read S h (unat cnt))) (\<lambda>bs. succeed (Fcall.Rread (Data bs))))))
      | Fcall.Twrite fid off dat \<Rightarrow> on_fid F fid (\<lambda>x.
          and_then (opened_file x) (\<lambda>h.
          and_then (call_io (sys_seek S h off)) (\<lambda>_.
          and_then (call_io (sys_write S h (case dat of Data bs \<Rightarrow> bs))) (\<lambda>n.
          succeed (Fcall.Rwrite (of_nat n))))))
      | Fcall.Tmkdir dfid name mode gid \<Rightarrow> on_fid F dfid (\<lambda>x.
          let path = path_push (ufid_path x) name in
          and_then (call_io (sys_create_dir S path)) (\<lambda>_.
          and_then (qid_of S path) (\<lambda>q. succeed (Fcall.Rmkdir q))))
      | Fcall.Trenameat oldfid oldname nfid newname \<Rightarrow> on_fid F oldfid (\<lambda>x. on_fid F nfid (\<lambda>y.
          and_then (call_io (sys_rename S (path_push (ufid_path x) oldname)
            (path_push (ufid_path y) newname))) (\<lambda>_. succeed Fcall.Rrenameat)))
      | Fcall.Tunlinkat dirfd name flags \<Rightarrow> on_fid F dirfd (\<lambda>x.
          let path = path_push (ufid_path x) name in
          and_then (call_io (sys_symlink_metadata S path)) (\<lambda>md.
          and_then (if md_is_dir md then call_io (sys_remove_dir S path)
                    else call_io (sys_remove_file S path)) (\<lambda>_.
          succeed Fcall.Runlinkat)))
      | Fcall.Tclunk fid \<Rightarrow> on_fid F fid (\<lambda>x. succeed Fcall.Rclunk)
      | Fcall.Tversion msize ver \<Rightarrow>
          succeed (Fcall.Rversion msize (if ver = P92000L then ver else VERSION_UNKNOWN))
      | _ \<Rightarrow> (if list_all (\<lambda>f. F f \<noteq> None) (fids body) then throw (No EOPNOTSUPP)
              else throw (No EBADF)))"

text \<open>
  A message: its reply, the table with what it opened, and the value of its new fid. Walking
  and attaching make a new value; opening and creating change the value of the fid they name.
\<close>

definition set_fid :: "'h UnpfsFid fid_table \<Rightarrow> u32 \<Rightarrow> 'h UnpfsFid \<Rightarrow> 'h UnpfsFid fid_table" where
  "set_fid F fid x = F(fid := map_option (\<lambda>f. f\<lparr>fid_aux := x\<rparr>) (F fid))"

definition spec_call :: "('d, 'h, 'w) sys \<Rightarrow> string \<Rightarrow> 'h UnpfsFid fid_table \<Rightarrow> Fcall \<Rightarrow>
    ('w, Fcall \<times> 'h UnpfsFid fid_table \<times> 'h UnpfsFid Fid option) act_on" where
  "spec_call S realroot F body =
     (case body of
        Fcall.Tattach nfid afid uname aname n_uname \<Rightarrow>
          and_then (qid_of S realroot) (\<lambda>q. succeed (Fcall.Rattach q, F,
            Some \<lparr>fid_fid = nfid, fid_aux = \<lparr>ufid_path = realroot, ufid_file = None\<rparr>\<rparr>))
      | Fcall.Twalk fid nfid names \<Rightarrow> on_fid F fid (\<lambda>x.
          and_then (walk_to S names (ufid_path x)) (\<lambda>(p, qs). succeed (Fcall.Rwalk qs, F,
            Some \<lparr>fid_fid = nfid, fid_aux = \<lparr>ufid_path = p, ufid_file = None\<rparr>\<rparr>)))
      | Fcall.Tlopen fid flags \<Rightarrow> on_fid F fid (\<lambda>x.
          and_then (qid_of S (ufid_path x)) (\<lambda>q.
          if flags_contains (qid_typ q) QidType_DIR then succeed (Fcall.Rlopen q 0, F, None)
          else and_then (open_at S (ufid_path x) flags 0) (\<lambda>h.
            succeed (Fcall.Rlopen q 0, set_fid F fid (x\<lparr>ufid_file := Some h\<rparr>), None))))
      | Fcall.Tlcreate fid name flags mode gid \<Rightarrow> on_fid F fid (\<lambda>x.
          let path = path_push (ufid_path x) name in
          and_then (open_at S path flags mode) (\<lambda>h.
          and_then (qid_of S path) (\<lambda>q.
          succeed (Fcall.Rlcreate q 0,
            set_fid F fid \<lparr>ufid_path = path, ufid_file = Some h\<rparr>, None))))
      | _ \<Rightarrow> and_then (spec_reply S F body) (\<lambda>r. succeed (r, F, None)))"

text \<open>A message handled alone: an error leaves the table as it is.\<close>

definition spec_message :: "('d, 'h, 'w) sys \<Rightarrow> string \<Rightarrow> Fcall \<Rightarrow> 'h UnpfsFid fid_table \<Rightarrow> 'w \<Rightarrow>
    (Error + Fcall) \<times> 'h UnpfsFid fid_table \<times> 'w" where
  "spec_message S realroot body F w =
     (case spec_call S realroot F body w of
        (Inl e, w') \<Rightarrow> (Inl e, F, w')
      | (Inr (r, F', nf), w') \<Rightarrow> (Inr r, insert_newfid nf (drop_clunked body F'), w'))"

text \<open>Messages handled one after the other, each answered before the next is read.\<close>

fun spec_session :: "('d, 'h, 'w) sys \<Rightarrow> string \<Rightarrow> Msg list \<Rightarrow> 'h UnpfsFid fid_table \<Rightarrow> 'w \<Rightarrow>
    (Error + Fcall) list" where
  "spec_session S realroot [] F w = []"
| "spec_session S realroot (msg # msgs) F w =
     (let (r, F', w') = spec_message S realroot (msg_body msg) F w
      in r # spec_session S realroot msgs F' w')"

fun handle_session :: "('a, 's) Filesystem \<Rightarrow> Msg list \<Rightarrow> 'a fid_table \<Rightarrow> 's \<Rightarrow>
    (Error + Fcall) option list" where
  "handle_session fs [] tbl s = []"
| "handle_session fs (msg # msgs) tbl s =
     (let (r, tbl', s') = dispatch_once fs msg tbl s in r # handle_session fs msgs tbl' s')"

section \<open>Connections\<close>

text \<open>
  A connection on values: the states are those of the server, the table and the new fids of
  the tasks hold values, and the file system is the machine. The first phase of a task is
  \<open>spec_call\<close>; the others are those of the code.
\<close>

definition spec_task :: "nix \<Rightarrow> ('d, 'h, 'w) sys \<Rightarrow> string \<Rightarrow> nat \<Rightarrow>
    ('h UnpfsFid, 'w) server \<Rightarrow> ('h UnpfsFid, 'w) server" where
  "spec_task N S realroot i c =
     (case srv_tasks c ! i of
        Spawned msg \<Rightarrow>
          (case spec_call S realroot (srv_fids c) (msg_body msg) (srv_fs c) of
             (Inr (r, F, nf), w) \<Rightarrow>
               c\<lparr>srv_tasks := (srv_tasks c)[i := Handled msg nf r], srv_fids := F, srv_fs := w\<rparr>
           | (Inl e, w) \<Rightarrow>
               c\<lparr>srv_tasks := (srv_tasks c)[i := Replying msg (error_reply N e)], srv_fs := w\<rparr>)
      | Handled msg nf r \<Rightarrow>
          c\<lparr>srv_tasks := (srv_tasks c)[i := Dropped msg nf r],
            srv_fids := drop_clunked (msg_body msg) (srv_fids c)\<rparr>
      | Dropped msg nf r \<Rightarrow>
          c\<lparr>srv_tasks := (srv_tasks c)[i := Replying msg r], srv_fids := insert_newfid nf (srv_fids c)\<rparr>
      | Replying msg r \<Rightarrow>
          c\<lparr>srv_tasks := (srv_tasks c)[i := Finished msg],
            srv_out := srv_out c @
              (if MsgType_is_r (MsgType_from r) then [the (reply_frame msg r)] else [])\<rparr>
      | Finished msg \<Rightarrow> c
      | Panicked msg \<Rightarrow> c)"

inductive spec_step :: "nix \<Rightarrow> ('d, 'h, 'w) sys \<Rightarrow> string \<Rightarrow>
    ('h UnpfsFid, 'w) server \<Rightarrow> ('h UnpfsFid, 'w) server \<Rightarrow> bool" for N S realroot where
  receive: "srv_conn c = Reading \<Longrightarrow> spec_step N S realroot c (receive c)"
| run: "i < length (srv_tasks c) \<Longrightarrow> \<not> task_done (srv_tasks c ! i) \<Longrightarrow>
    spec_step N S realroot c (spec_task N S realroot i c)"
| send_fails: "i < length (srv_tasks c) \<Longrightarrow> srv_tasks c ! i = Replying msg response \<Longrightarrow>
    spec_step N S realroot c (c\<lparr>srv_tasks := (srv_tasks c)[i := Panicked msg]\<rparr>)"

end
