(* ===== verification/Unpfs_Refinement.thy ===== *)
theory Unpfs_Refinement
  imports Unpfs_Spec
begin

text \<open>
  The file system of the code, whose fids are cells of a store shared by the tasks of a
  connection, refines the specification on values: each handler does on the cells what
  \<open>spec_call\<close> does on the values (\<open>call_refines\<close>), as long as no two fids share a cell; so does
  a message handled alone, and, by a forward simulation, a connection in every interleaving.
\<close>

section \<open>Operations on the store that only use the machine\<close>

text \<open>How an action on the machine acts on the store.\<close>

definition on_world :: "('w, 'x) act_on \<Rightarrow> ('h, 'w) store \<Rightarrow> (Error + 'x) \<times> ('h, 'w) store" where
  "on_world a s = (let (r, w) = a (world s) in (r, s\<lparr>world := w\<rparr>))"

lemma on_world_basic:
  "on_world (call_io call) = io call" "on_world (call_nix call') = nix_io call'"
  "on_world (succeed x) = succeed x" "on_world (throw e) = throw e"
  by (auto simp: on_world_def call_io_def call_nix_def map_err_def io_def nix_io_def fun_eq_iff
      split: prod.split sum.split)

lemma on_world_Pair: "on_world (Pair r) = Pair r"
  by (simp add: on_world_def fun_eq_iff)

lemma on_world_and_then: "on_world (and_then a k) = and_then (on_world a) (\<lambda>x. on_world (k x))"
  by (auto simp: on_world_def and_then_def fun_eq_iff split: prod.split sum.split)

lemma on_world_only_if: "on_world (only_if b a) = only_if b (on_world a)"
  by (simp add: only_if_def on_world_basic)

lemma on_world_discard: "on_world (discard a) = discard (on_world a)"
  by (auto simp: on_world_def discard_def fun_eq_iff split: prod.split)

lemma on_world_Let: "on_world (let x = e in a x) = (let x = e in on_world (a x))"
  by (simp add: Let_def)

lemma on_world_if: "on_world (if b then a else a') = (if b then on_world a else on_world a')"
  by simp

lemma on_world_qid_of: "on_world (qid_of S p) = get_qid S p"
  by (simp add: qid_of_def get_qid_def on_world_basic on_world_and_then)

lemma on_world_open_at: "on_world (open_at S path flags mode) =
   nix_io (sys_open S path (sys_OFlag_truncate S (flags AND UNIX_FLAGS S)) (sys_Mode_truncate S mode))"
  by (simp add: open_at_def on_world_basic)


lemmas on_world_simps = on_world_Pair on_world_basic on_world_and_then on_world_only_if on_world_discard
  on_world_Let on_world_if on_world_qid_of on_world_open_at

lemma and_then_read_path: "and_then (read_path f) k s = k (ufid_path (cells s (fid_aux f))) s"
  by (simp add: and_then_def read_path_def)

lemma and_then_open_file:
  "and_then (open_file f) k s = and_then (on_world (opened_file (cells s (fid_aux f)))) k s"
  by (simp add: and_then_def open_file_def opened_file_def on_world_basic split: option.split)

lemma unpfs_rsetattr_on_world:
  "unpfs_rsetattr S f valid attr s =
     on_world (and_then (set_attributes S (ufid_path (cells s (fid_aux f))) valid attr)
       (\<lambda>_. succeed Fcall.Rsetattr)) s"
  by (simp add: unpfs_rsetattr_def set_attributes_def on_world_simps and_then_assoc
      and_then_read_path and_then_succeed del: succeed_apply)

lemma walk_loop_on_world:
  "walk_loop S i names p qs s =
     (case walk_from S names p (world s) of
        ((p', qs', e), w) \<Rightarrow>
          ((if i = 0 \<and> qs' = [] \<and> e \<noteq> None then Inl (the e) else Inr (p', qs @ qs')), s\<lparr>world := w\<rparr>))"
proof (induction names arbitrary: i p qs s)
  case (Cons name names)
  show ?case
    by (auto simp: on_world_qid_of [symmetric] on_world_def Cons.IH Let_def split: prod.splits sum.splits)
qed simp

lemma walk_to_on_world: "walk_loop S 0 names p [] = on_world (walk_to S names p)"
  by (auto simp: fun_eq_iff walk_loop_on_world on_world_def walk_to_def split: prod.splits list.splits option.splits)

lemma readdir_loop_on_world:
  "readdir_loop S cnt items i v s =
     on_world (and_then (entries_fit S cnt (2 + i) (DirEntryData_size v) items)
       (\<lambda>ds. succeed \<lparr>dirents_data = dirents_data v @ ds\<rparr>)) s"
proof (induction S cnt items i v s rule: readdir_loop.induct)
  case (1 S cnt i dirents s)
  then show ?case by (simp add: on_world_simps and_then_succeed)
next
  case (2 S cnt e entries i dirents s)
  then show ?case by (simp add: on_world_simps and_then_succeed Error_from_io_def)
next
  case (3 S cnt entry entries i v s)
  have push: "DirEntryData_size (DirEntryData_push v d) = DirEntryData_size v + DirEntry_size d" for d
    by (simp add: DirEntryData_size_nat DirEntry_size_nat)
  let ?d = "\<lambda>attr. \<lparr>dirent_qid = qid_from_attr attr, dirent_offset = 2 + i, dirent_typ = 0,
    dirent_name = to_string_lossy (sys_entry_file_name S entry)\<rparr>"
  obtain r w where r: "sys_entry_metadata S entry (world s) = (r, w)" by fastforce
  show ?case
  proof (cases r)
    case (Inl e)
    with r show ?thesis
      by (simp add: get_dirent_def io_def and_then_def on_world_def call_io_def map_err_def)
  next
    case (Inr attr)
    let ?s = "s\<lparr>world := w\<rparr>"
    from Inr r have d: "get_dirent S entry (2 + i) s = (Inr (?d attr), ?s)"
      by (simp add: get_dirent_def io_def and_then_def)
    show ?thesis
    proof (cases "cnt < DirEntryData_size v + DirEntry_size (?d attr)")
      case True
      with d r Inr show ?thesis
        by (simp add: on_world_def call_io_def map_err_def and_then_def Let_def)
    next
      case False
      with d have "readdir_loop S cnt (Inr entry # entries) i v s =
          readdir_loop S cnt entries (i + 1) (DirEntryData_push v (?d attr)) ?s"
        by simp
      also have "\<dots> = on_world (and_then (entries_fit S cnt (2 + (i + 1))
          (DirEntryData_size v + DirEntry_size (?d attr)) entries)
          (\<lambda>ds. succeed \<lparr>dirents_data = dirents_data v @ ?d attr # ds\<rparr>)) ?s"
        using 3 [OF d [symmetric] refl] False push by (simp add: DirEntryData_push_def del: succeed_apply)
      also have "\<dots> = on_world (and_then (entries_fit S cnt (2 + i) (DirEntryData_size v)
          (Inr entry # entries)) (\<lambda>ds. succeed \<lparr>dirents_data = dirents_data v @ ds\<rparr>)) s"
        using False r Inr
        by (simp add: on_world_def call_io_def map_err_def and_then_def Let_def add.assoc
            split: prod.split sum.split)
      finally show ?thesis .
    qed
  qed
qed

lemma dot_entry_on_world: "get_dirent_from S p off = on_world (dot_entry S p off)"
  by (simp add: get_dirent_from_def dot_entry_def on_world_simps)


lemma DirEntryData_size_new: "DirEntryData_size DirEntryData_new = 0"
  by (simp add: DirEntryData_size_nat data_bytes_def DirEntryData_new_def DirEntryData_with_def)

lemma dirents_data_new: "dirents_data DirEntryData_new = []"
  by (simp add: DirEntryData_new_def DirEntryData_with_def)

lemma DirEntryData_size_two:
  "DirEntryData_size (DirEntryData_push (DirEntryData_push DirEntryData_new d) d') =
     DirEntry_size d + DirEntry_size d'"
  by (simp add: DirEntryData_size_nat DirEntry_size_nat)
    (simp add: data_bytes_def DirEntryData_new_def DirEntryData_with_def)

lemma dirents_data_two:
  "dirents_data (DirEntryData_push (DirEntryData_push DirEntryData_new d) d') = [d, d']"
  by (simp add: DirEntryData_push_def DirEntryData_new_def DirEntryData_with_def)

lemma and_then_cong: "(\<And>s. m s = m' s) \<Longrightarrow> (\<And>x s. k x s = k' x s) \<Longrightarrow> and_then m k s = and_then m' k' s"
  by (simp add: and_then_def split: prod.split sum.split)

lemma and_then_readdir_loop:
  "and_then (readdir_loop S cnt items i v) k s =
     and_then (on_world (entries_fit S cnt (2 + i) (DirEntryData_size v) items))
       (\<lambda>ds. k \<lparr>dirents_data = dirents_data v @ ds\<rparr>) s"
  by (simp add: and_then_def readdir_loop_on_world on_world_def split: prod.split sum.split)

lemma unpfs_rreaddir_on_world:
  "unpfs_rreaddir S f off cnt s =
     on_world (and_then (list_at S (ufid_path (cells s (fid_aux f))) off cnt)
       (\<lambda>ds. succeed (Fcall.Rreaddir \<lparr>dirents_data = ds\<rparr>))) s"
proof (cases "off = 0")
  case True
  obtain r0 w0 r1 w1 where r0: "dot_entry S ''.'' 0 (world s) = (r0, w0)"
    and r1: "dot_entry S ''..'' 1 w0 = (r1, w1)"
    by fastforce
  show ?thesis
  proof (cases "\<exists>d0 d1. r0 = Inr d0 \<and> r1 = Inr d1")
    case both: True
    then obtain d0 d1 where d: "r0 = Inr d0" "r1 = Inr d1" by blast
    let ?p = "ufid_path (cells s (fid_aux f))" and ?s = "s\<lparr>world := w1\<rparr>"
    have "unpfs_rreaddir S f off cnt s =
        and_then (io (sys_read_dir S ?p)) (\<lambda>items.
        and_then (readdir_loop S cnt items 0 (DirEntryData_push (DirEntryData_push DirEntryData_new d0) d1))
          (\<lambda>v. succeed (Fcall.Rreaddir v))) ?s"
      using r0 r1 d True
      by (simp add: unpfs_rreaddir_def dot_entry_on_world and_then_def on_world_def read_path_def)
    also have "\<dots> = and_then (io (sys_read_dir S ?p)) (\<lambda>items.
        and_then (on_world (entries_fit S cnt 2 (DirEntry_size d0 + DirEntry_size d1) items))
          (\<lambda>ds. succeed (Fcall.Rreaddir \<lparr>dirents_data = d0 # d1 # ds\<rparr>))) ?s"
      by (intro and_then_cong refl)
        (simp add: and_then_readdir_loop DirEntryData_size_two dirents_data_two)
    also have "\<dots> = on_world (and_then (call_io (sys_read_dir S ?p)) (\<lambda>items.
        and_then (entries_fit S cnt 2 (DirEntry_size d0 + DirEntry_size d1) items)
          (\<lambda>ds. succeed (Fcall.Rreaddir \<lparr>dirents_data = d0 # d1 # ds\<rparr>)))) ?s"
      by (simp add: on_world_simps del: succeed_apply)
    also have "\<dots> = on_world (and_then (list_at S ?p off cnt)
        (\<lambda>ds. succeed (Fcall.Rreaddir \<lparr>dirents_data = ds\<rparr>))) s"
      using r0 r1 d True
      by (simp add: list_at_def and_then_assoc and_then_succeed on_world_def del: succeed_apply)
        (simp add: and_then_def)
    finally show ?thesis .
  next
    case False
    with r0 r1 True show ?thesis
      by (cases r0; cases r1)
        (auto simp: unpfs_rreaddir_def list_at_def dot_entry_on_world and_then_def on_world_def)
  qed
next
  case False
  show ?thesis
    by (simp add: False unpfs_rreaddir_def list_at_def and_then_assoc and_then_succeed
        on_world_simps and_then_read_path del: succeed_apply)
      (intro and_then_cong refl, simp add: and_then_readdir_loop DirEntryData_size_new
        dirents_data_new add.commute)
qed


definition value_of :: "('h, 'w) store \<Rightarrow> nat Fid \<Rightarrow> 'h UnpfsFid Fid" where
  "value_of s f = \<lparr>fid_fid = fid_fid f, fid_aux = cells s (fid_aux f)\<rparr>"

definition values_of :: "('h, 'w) store \<Rightarrow> nat fid_table \<Rightarrow> 'h UnpfsFid fid_table" where
  "values_of s tbl k = map_option (value_of s) (tbl k)"

definition settled :: "('w, Fcall) act_on \<Rightarrow> ('h, 'w) store outcome" where
  "settled a s = (let (r, w) = a (world s) in (Some r, s\<lparr>world := w\<rparr>))"

lemma await_on_world: "h s = on_world a s \<Longrightarrow> await h s = settled a s"
  by (simp add: await_def settled_def on_world_def Let_def split: prod.splits)

lemma settled_throw:
  "settled (throw e) s = (Some (Inl e), s)" "settled (succeed r) s = (Some (Inr r), s)"
  by (simp_all add: settled_def)

lemma get_fid_settled:
  assumes "\<And>f. tbl fid = Some f \<Longrightarrow> m f s = settled (k (cells s (fid_aux f))) s"
  shows "get_fid tbl fid m s = settled (on_fid (values_of s tbl) fid k) s"
  using assms by (cases "tbl fid") (auto simp: on_fid_def values_of_def value_of_def settled_throw)

lemma get_fid_unsupported:
  assumes "\<And>f. tbl fid = Some f \<Longrightarrow> m f s = (Some (Inl (No EOPNOTSUPP)), s)"
  shows "get_fid tbl fid m s = settled (if values_of s tbl fid \<noteq> None then throw (No EOPNOTSUPP) else throw (No EBADF)) s"
  using assms by (cases "tbl fid") (auto simp: values_of_def settled_throw)

lemma await_default [simp]:
  "await (rsymlink (unpfs S realroot) f name symtgt gid) s = (Some (Inl (No EOPNOTSUPP)), s)"
  "await (rmknod (unpfs S realroot) f name' mode major minor gid) s = (Some (Inl (No EOPNOTSUPP)), s)"
  "await (rrename (unpfs S realroot) f d name) s = (Some (Inl (No EOPNOTSUPP)), s)"
  "await (rxattrwalk (unpfs S realroot) f d name) s = (Some (Inl (No EOPNOTSUPP)), s)"
  "await (rxattrcreate (unpfs S realroot) f name sz flags) s = (Some (Inl (No EOPNOTSUPP)), s)"
  "await (rlock (unpfs S realroot) f lock) s = (Some (Inl (No EOPNOTSUPP)), s)"
  "await (rgetlock (unpfs S realroot) f glock) s = (Some (Inl (No EOPNOTSUPP)), s)"
  "await (rlink (unpfs S realroot) d f name) s = (Some (Inl (No EOPNOTSUPP)), s)"
  "await (rauth (unpfs S realroot) f uname aname n_uname) s = (Some (Inl (No EOPNOTSUPP)), s)"
  "await (rflush (unpfs S realroot) old) s = (Some (Inl (No EOPNOTSUPP)), s)"
  "await (rremove (unpfs S realroot) f) s = (Some (Inl (No EOPNOTSUPP)), s)"
  "await (rversion (unpfs S realroot) msize ver) s =
     (Some (Inr (Fcall.Rversion msize (if ver = P92000L then ver else VERSION_UNKNOWN))), s)"
  by (simp_all add: unpfs_def default_Filesystem_def await_def unsupported_def default_rversion_def)

definition changes_fids :: "Fcall \<Rightarrow> bool" where
  "changes_fids body = (case body of Fcall.Tattach _ _ _ _ _ \<Rightarrow> True | Fcall.Twalk _ _ _ \<Rightarrow> True
     | Fcall.Tlopen _ _ \<Rightarrow> True | Fcall.Tlcreate _ _ _ _ _ \<Rightarrow> True | _ \<Rightarrow> False)"

lemmas unpfs_reads = unpfs_rstatfs_def unpfs_rreadlink_def unpfs_rgetattr_def unpfs_rfsync_def
  unpfs_rread_def unpfs_rwrite_def unpfs_rmkdir_def unpfs_rrenameat_def unpfs_runlinkat_def
  unpfs_rclunk_def unpfs_rsetattr_on_world unpfs_rreaddir_on_world

lemma dispatch_call_reads:
  assumes "\<not> changes_fids body" "newfid body = None \<longleftrightarrow> nf = None"
  shows "dispatch_call (unpfs S realroot) tbl nf body s =
    settled (spec_reply S (values_of s tbl) body) s"
proof (cases body)
  case (Trename fid dfid name)
  then show ?thesis
    by (cases "tbl fid"; cases "tbl dfid")
      (simp_all add: dispatch_call_def spec_reply_def fids_def values_of_def settled_throw)
next
  case (Tlink dfid fid name)
  then show ?thesis
    by (cases "tbl fid"; cases "tbl dfid")
      (simp_all add: dispatch_call_def spec_reply_def fids_def values_of_def settled_throw)
next
  case (Txattrwalk fid nfid name)
  with assms(2) obtain n where "nf = Some n" by (auto simp: newfid_def)
  with Txattrwalk show ?thesis
    by (cases "tbl fid") (simp_all add: dispatch_call_def spec_reply_def fids_def values_of_def settled_throw)
next
  case (Tauth afid uname aname n_uname)
  with assms(2) obtain n where "nf = Some n" by (auto simp: newfid_def)
  with Tauth show ?thesis
    by (simp add: dispatch_call_def spec_reply_def fids_def settled_throw)
qed (use assms(1) in \<open>auto simp: dispatch_call_def spec_reply_def fids_def changes_fids_def
    settled_throw get_fid_unsupported unpfs_reads on_world_simps and_then_read_path and_then_open_file
    simp del: succeed_apply intro!: get_fid_settled await_on_world cong: if_cong\<close>)


text \<open>No two fids of the table share a cell, and none has the cell \<open>a\<close>.\<close>

definition apart :: "nat fid_table \<Rightarrow> bool" where
  "apart tbl \<longleftrightarrow> (\<forall>k k' f f'. tbl k = Some f \<longrightarrow> tbl k' = Some f' \<longrightarrow> k \<noteq> k' \<longrightarrow> fid_aux f \<noteq> fid_aux f')"

definition unused :: "nat fid_table \<Rightarrow> nat \<Rightarrow> bool" where
  "unused tbl a \<longleftrightarrow> (\<forall>k f. tbl k = Some f \<longrightarrow> fid_aux f \<noteq> a)"

lemma values_of_cong:
  "(\<And>k f. tbl k = Some f \<Longrightarrow> cells s (fid_aux f) = cells s' (fid_aux f)) \<Longrightarrow> values_of s tbl = values_of s' tbl"
  by (auto simp: values_of_def value_of_def fun_eq_iff map_option_case split: option.split)

lemma values_of_unused:
  assumes "unused tbl a"
  shows "values_of (s\<lparr>world := w, cells := (cells s)(a := x)\<rparr>) tbl = values_of s tbl"
    and "values_of (s\<lparr>cells := (cells s)(a := x)\<rparr>) tbl = values_of s tbl"
  using assms by (auto simp: unused_def intro!: values_of_cong)

lemma UnpfsFid_both [simp]:
  "(x :: 'h UnpfsFid)\<lparr>ufid_path := p, ufid_file := h\<rparr> = \<lparr>ufid_path = p, ufid_file = h\<rparr>"
  by (cases x) simp

lemma values_of_set:
  assumes "apart tbl" "tbl fid = Some f"
  shows "values_of (s\<lparr>world := w, cells := (cells s)(fid_aux f := x)\<rparr>) tbl = set_fid (values_of s tbl) fid x"
  using assms
  by (auto simp: values_of_def value_of_def set_fid_def fun_eq_iff map_option_case apart_def
      split: option.split)

lemma value_of_world [simp]: "value_of (s\<lparr>world := w\<rparr>) f = value_of s f"
  by (simp add: value_of_def)

lemma values_of_world [simp]: "values_of (s\<lparr>world := w\<rparr>) tbl = values_of s tbl"
  by (rule values_of_cong) simp

lemma spec_call_reads:
  "\<not> changes_fids body \<Longrightarrow>
     spec_call S realroot F body = and_then (spec_reply S F body) (\<lambda>r. succeed (r, F, None))"
  by (cases body) (simp_all add: spec_call_def changes_fids_def)

text \<open>What the handler does, on the values: its reply, and the new table and fid.\<close>

definition outcome_values :: "nat fid_table \<Rightarrow> nat Fid option \<Rightarrow> (Error + Fcall) option \<times> ('h, 'w) store \<Rightarrow>
    (Error + Fcall \<times> 'h UnpfsFid fid_table \<times> 'h UnpfsFid Fid option) \<times> 'w" where
  "outcome_values tbl nf res =
     (case res of
        (Some (Inr r), s') \<Rightarrow> (Inr (r, values_of s' tbl, map_option (value_of s') nf), world s')
      | (Some (Inl e), s') \<Rightarrow> (Inl e, world s')
      | (None, s') \<Rightarrow> (Inl (No EOPNOTSUPP), world s'))"

lemma call_refines_new:
  assumes "unused tbl (fid_aux n)" "cells s (fid_aux n) = \<lparr>ufid_path = [], ufid_file = None\<rparr>"
  shows "spec_call S realroot (values_of s tbl) (Fcall.Twalk fid (fid_fid n) names) (world s) =
      outcome_values tbl (Some n)
        (dispatch_call (unpfs S realroot) tbl (Some n) (Fcall.Twalk fid (fid_fid n) names) s)" (is ?walk)
    and "spec_call S realroot (values_of s tbl) (Fcall.Tattach (fid_fid n) afid uname aname n_uname) (world s) =
      outcome_values tbl (Some n)
        (dispatch_call (unpfs S realroot) tbl (Some n) (Fcall.Tattach (fid_fid n) afid uname aname n_uname) s)"
      (is ?attach)
proof -
  show ?walk
    using assms
    by (cases "tbl fid")
      (auto simp: spec_call_def dispatch_call_def on_fid_def values_of_def [of s tbl fid] outcome_values_def
        value_of_def await_def unpfs_rwalk_def read_path_def walk_to_on_world on_world_def
        write_path_def values_of_unused and_then_def split: prod.split sum.split)
  show ?attach
    using assms
    by (auto simp: spec_call_def dispatch_call_def outcome_values_def value_of_def await_def
        unpfs_rattach_def on_world_qid_of [symmetric] and_then_def on_world_def write_path_def
        values_of_unused split: prod.split sum.split)
qed

lemma call_refines_open:
  assumes "apart tbl"
  shows "spec_call S realroot (values_of s tbl) (Fcall.Tlopen fid flags) (world s) =
      outcome_values tbl None (dispatch_call (unpfs S realroot) tbl None (Fcall.Tlopen fid flags) s)"
      (is ?lopen)
    and "spec_call S realroot (values_of s tbl) (Fcall.Tlcreate fid name flags' mode gid) (world s) =
      outcome_values tbl None
        (dispatch_call (unpfs S realroot) tbl None (Fcall.Tlcreate fid name flags' mode gid) s)"
      (is ?lcreate)
proof -
  show ?lopen
    using assms
    by (cases "tbl fid")
      (auto simp: spec_call_def dispatch_call_def on_fid_def values_of_def [of s tbl fid] outcome_values_def
        value_of_def await_def unpfs_rlopen_def read_path_def on_world_qid_of [symmetric]
        on_world_open_at [symmetric] on_world_def only_if_def
        write_file_def values_of_set and_then_def split: prod.split sum.split)
  show ?lcreate
    using assms
    by (cases "tbl fid")
      (auto simp: spec_call_def dispatch_call_def on_fid_def values_of_def [of s tbl fid] outcome_values_def
        value_of_def await_def unpfs_rlcreate_def read_path_def on_world_qid_of [symmetric]
        on_world_open_at [symmetric] on_world_def Let_def
        write_file_def write_path_def values_of_set and_then_def split: prod.split sum.split)
qed


lemma spec_reply_newfid: "newfid body \<noteq> None \<Longrightarrow> \<not> changes_fids body \<Longrightarrow> \<exists>e. spec_reply S F body = throw e"
  by (cases body) (auto simp: newfid_def changes_fids_def spec_reply_def)

text \<open>A new fid of a message: its number, and a cell that no fid has and that is empty.\<close>

definition new_cell :: "nat fid_table \<Rightarrow> Fcall \<Rightarrow> nat Fid option \<Rightarrow> ('h, 'w) store \<Rightarrow> bool" where
  "new_cell tbl body nf s \<longleftrightarrow> map_option fid_fid nf = newfid body \<and>
     (\<forall>n. nf = Some n \<longrightarrow> unused tbl (fid_aux n) \<and>
        cells s (fid_aux n) = \<lparr>ufid_path = [], ufid_file = None\<rparr>)"

lemma changes_cases:
  assumes "changes_fids body" "new_cell tbl body nf s"
  obtains (attach) n afid uname aname n_uname where "body = Fcall.Tattach (fid_fid n) afid uname aname n_uname"
      "nf = Some n" "unused tbl (fid_aux n)" "cells s (fid_aux n) = \<lparr>ufid_path = [], ufid_file = None\<rparr>"
  | (walk) n fid names where "body = Fcall.Twalk fid (fid_fid n) names"
      "nf = Some n" "unused tbl (fid_aux n)" "cells s (fid_aux n) = \<lparr>ufid_path = [], ufid_file = None\<rparr>"
  | (lopen) fid flags where "body = Fcall.Tlopen fid flags" "nf = None"
  | (lcreate) fid name flags mode gid where "body = Fcall.Tlcreate fid name flags mode gid" "nf = None"
  using assms by (cases body) (auto simp: changes_fids_def new_cell_def newfid_def)

lemma call_refines:
  assumes "apart tbl" "new_cell tbl body nf s"
  shows "spec_call S realroot (values_of s tbl) body (world s) =
    outcome_values tbl nf (dispatch_call (unpfs S realroot) tbl nf body s)"
proof (cases "changes_fids body")
  case True
  from this assms(2) show ?thesis
    by (cases rule: changes_cases) (simp_all add: call_refines_new call_refines_open [OF assms(1)])
next
  case False
  from assms(2) have nf: "newfid body = None \<longleftrightarrow> nf = None"
    by (auto simp: new_cell_def)
  show ?thesis
  proof (cases nf)
    case None
    then show ?thesis
      unfolding dispatch_call_reads [OF False nf] spec_call_reads [OF False]
      by (auto simp: outcome_values_def
          settled_def and_then_def split: prod.split sum.split)
  next
    case (Some n)
    with nf False obtain e where "spec_reply S (values_of s tbl) body = throw e"
      using spec_reply_newfid by blast
    then show ?thesis
      unfolding dispatch_call_reads [OF False nf] spec_call_reads [OF False]
      by (simp add: outcome_values_def
          settled_throw and_then_def)
  qed
qed

lemma call_error_values:
  assumes "apart tbl" "new_cell tbl body nf s"
    and "dispatch_call (unpfs S realroot) tbl nf body s = (Some (Inl e), s')"
  shows "values_of s' tbl = values_of s tbl"
proof (cases "changes_fids body")
  case True
  from this assms(2) show ?thesis
  proof (cases rule: changes_cases)
    case (attach n afid uname aname n_uname)
    with assms(3) show ?thesis
      by (auto simp: dispatch_call_def await_def unpfs_rattach_def on_world_qid_of [symmetric]
          and_then_def on_world_def write_path_def values_of_unused split: prod.splits sum.splits)
  next
    case (walk n fid names)
    with assms(3) show ?thesis
      by (cases "tbl fid")
        (auto simp: dispatch_call_def await_def unpfs_rwalk_def walk_to_on_world read_path_def
          and_then_def on_world_def write_path_def split: prod.splits sum.splits)
  next
    case (lopen fid flags)
    with assms(3) show ?thesis
      by (cases "tbl fid")
        (auto simp: dispatch_call_def await_def unpfs_rlopen_def on_world_qid_of [symmetric]
          on_world_open_at [symmetric] read_path_def only_if_def
          and_then_def on_world_def write_file_def split: prod.splits sum.splits if_splits)
  next
    case (lcreate fid name flags mode gid)
    with assms(3) show ?thesis
      by (cases "tbl fid")
        (auto simp: dispatch_call_def await_def unpfs_rlcreate_def on_world_qid_of [symmetric]
          on_world_open_at [symmetric] read_path_def Let_def write_path_def
          and_then_def on_world_def write_file_def split: prod.splits sum.splits)
  qed
next
  case False
  from assms(2) have nf: "newfid body = None \<longleftrightarrow> nf = None" by (auto simp: new_cell_def)
  from assms(3) show ?thesis
    unfolding dispatch_call_reads [OF False nf] settled_def
    by (auto simp: Let_def split: prod.splits)
qed


section \<open>A message alone\<close>

definition no_alias :: "nat fid_table \<Rightarrow> ('h, 'w) store \<Rightarrow> bool" where
  "no_alias tbl s \<longleftrightarrow> apart tbl \<and> (\<forall>k f. tbl k = Some f \<longrightarrow> fid_aux f < fresh s)"

lemma no_alias_new_cell:
  assumes "no_alias tbl s" "make_newfid (unpfs S realroot) body s = (nf, s1)"
  shows "new_cell tbl body nf s1" "values_of s1 tbl = values_of s tbl" "world s1 = world s"
proof -
  have unused: "unused tbl (fresh s)"
    using assms(1) unfolding no_alias_def unused_def by (metis less_irrefl)
  with assms(2) show "new_cell tbl body nf s1"
    by (auto simp: new_cell_def make_newfid_def UnpfsFid_default_def split: option.splits prod.splits)
  from unused show "values_of s1 tbl = values_of s tbl"
    using assms(2) by (auto simp: make_newfid_def UnpfsFid_default_def intro!: values_of_cong
        dest: spec split: option.splits prod.splits simp: unused_def)
  show "world s1 = world s"
    using assms(2) by (auto simp: make_newfid_def UnpfsFid_default_def split: option.splits prod.splits)
qed

lemma values_of_drop: "values_of s (drop_clunked body tbl) = drop_clunked body (values_of s tbl)"
  by (auto simp: values_of_def drop_clunked_def fun_eq_iff split: Fcall.split)

lemma values_of_insert:
  "values_of s (insert_newfid nf tbl) = insert_newfid (map_option (value_of s) nf) (values_of s tbl)"
  by (auto simp: values_of_def insert_newfid_def value_of_def fun_eq_iff split: option.split)

lemma dispatch_once_refines:
  assumes "no_alias tbl s" "dispatch_once (unpfs S realroot) msg tbl s = (r, tbl', s')"
  shows "\<exists>x. r = Some x \<and>
    spec_message S realroot (msg_body msg) (values_of s tbl) (world s) = (x, values_of s' tbl', world s')"
proof (cases rule: dispatch_once_cases [of "unpfs S realroot" msg s tbl])
  case (ok nf s1 reply s2)
  note new = no_alias_new_cell [OF assms(1) ok(1)]
  have "apart tbl" using assms(1) by (simp add: no_alias_def)
  from call_refines [OF this new(1), of S realroot] ok(2,3) assms(2) new(2,3) show ?thesis
    by (auto simp: spec_message_def outcome_values_def values_of_drop values_of_insert)
next
  case (err nf s1 e s2)
  note new = no_alias_new_cell [OF assms(1) err(1)]
  have "apart tbl" using assms(1) by (simp add: no_alias_def)
  from call_refines [OF this new(1), of S realroot] call_error_values [OF this new(1) err(2)]
    err(2,3) assms(2) new(2,3)
  show ?thesis by (auto simp: spec_message_def outcome_values_def)
qed


lemma no_alias_sub:
  "no_alias tbl s \<Longrightarrow> tbl' \<subseteq>\<^sub>m tbl \<Longrightarrow> fresh s \<le> fresh s' \<Longrightarrow> no_alias tbl' s'"
  unfolding no_alias_def apart_def map_le_def by (metis domI order_less_le_trans)

lemma no_alias_step:
  assumes "no_alias tbl s" "dispatch_once (unpfs S realroot) msg tbl s = (r, tbl', s')"
  shows "no_alias tbl' s'"
proof (cases rule: dispatch_once_cases [of "unpfs S realroot" msg s tbl])
  case (ok nf s1 reply s2)
  have fresh: "fresh s2 = fresh s1" using ok(2) by (rule dispatch_call_fresh)
  have drop: "drop_clunked (msg_body msg) tbl \<subseteq>\<^sub>m tbl"
    by (auto simp: map_le_def drop_clunked_def split: Fcall.splits if_splits)
  show ?thesis
  proof (cases nf)
    case None
    with ok assms(2) make_newfid_unpfs [OF ok(1)] fresh show ?thesis
      by (auto simp: insert_newfid_def intro!: no_alias_sub [OF assms(1) drop])
  next
    case (Some n)
    with ok assms make_newfid_unpfs [OF ok(1)] fresh no_alias_sub [OF assms(1) drop order_refl]
    show ?thesis
      by (fastforce simp: insert_newfid_def no_alias_def apart_def)
  qed
next
  case (err nf s1 e s2)
  from err(2) have "fresh s2 = fresh s1" by (rule dispatch_call_fresh)
  then have "fresh s \<le> fresh s2" using make_newfid_unpfs [OF err(1)] by (auto split: option.splits)
  with err(3) assms show ?thesis by (auto simp: no_alias_def intro: order_less_le_trans)
qed

lemma handle_session_refines:
  "no_alias tbl s \<Longrightarrow> handle_session (unpfs S realroot) msgs tbl s =
     map Some (spec_session S realroot msgs (values_of s tbl) (world s))"
proof (induction msgs arbitrary: tbl s)
  case (Cons msg msgs)
  obtain r tbl' s' where d: "dispatch_once (unpfs S realroot) msg tbl s = (r, tbl', s')"
    using prod_cases3 by blast
  from dispatch_once_refines [OF Cons.prems d] no_alias_step [OF Cons.prems d] Cons.IH d
  show ?case by auto
qed simp

section \<open>Interleavings\<close>

fun value_task :: "('h, 'w) store \<Rightarrow> nat task \<Rightarrow> 'h UnpfsFid task" where
  "value_task s (Spawned msg) = Spawned msg"
| "value_task s (Handled msg nf r) = Handled msg (map_option (value_of s) nf) r"
| "value_task s (Dropped msg nf r) = Dropped msg (map_option (value_of s) nf) r"
| "value_task s (Replying msg r) = Replying msg r"
| "value_task s (Finished msg) = Finished msg"
| "value_task s (Panicked msg) = Panicked msg"

definition value_server :: "(nat, ('h, 'w) store) server \<Rightarrow> ('h UnpfsFid, 'w) server" where
  "value_server c =
     \<lparr>srv_in = srv_in c, srv_conn = srv_conn c, srv_tasks = map (value_task (srv_fs c)) (srv_tasks c),
      srv_fids = values_of (srv_fs c) (srv_fids c), srv_fs = world (srv_fs c), srv_out = srv_out c\<rparr>"

lemma value_task_done [simp]: "task_done (value_task s t) = task_done t"
  by (cases t) simp_all

lemma value_server_receive: "value_server (receive c) = receive (value_server c)"
  by (simp add: value_server_def receive_def split: list.split sum.split prod.split)

lemma unshared_no_alias: "unshared c \<Longrightarrow> no_alias (srv_fids c) (srv_fs c)"
  unfolding unshared_def no_alias_def apart_def
  by (metis holder.simps(1) option.simps(9) sum.inject(1))

text \<open>The handler of one task leaves the new fids of the others alone.\<close>

lemma value_task_frame:
  assumes "unshared c" "i < length (srv_tasks c)" "srv_tasks c ! i = Spawned msg"
    and "make_newfid (unpfs S realroot) (msg_body msg) (srv_fs c) = (nf, s1)"
    and "dispatch_call (unpfs S realroot) (srv_fids c) nf (msg_body msg) s1 = (r, s2)"
  shows "(map (value_task s2) (srv_tasks c))[i := x] = (map (value_task (srv_fs c)) (srv_tasks c))[i := x]"
proof (rule nth_equalityI)
  fix j
  assume "j < length ((map (value_task s2) (srv_tasks c))[i := x])"
  then have j: "j < length (srv_tasks c)" by simp
  let ?H = "{a. (\<exists>n. nf = Some n \<and> a = fid_aux n) \<or> opened (srv_fids c) (msg_body msg) = Some a}"
  have "confined ?H (dispatch_call (unpfs S realroot) (srv_fids c) nf (msg_body msg))"
    by (rule confined_dispatch_call) auto
  then have kept: "a \<notin> ?H \<Longrightarrow> cells s2 a = cells s1 a" for a
    using confinedD [of ?H _ s1] assms(5) by fastforce
  have "value_task s2 (srv_tasks c ! j) = value_task (srv_fs c) (srv_tasks c ! j)" if "j \<noteq> i"
  proof (cases "pending (srv_tasks c ! j)")
    case None
    then show ?thesis by (cases "srv_tasks c ! j") simp_all
  next
    case (Some n)
    then have hold: "holder c (Inr j) = Some (fid_aux n)" using j by simp
    with assms(1) have lt: "fid_aux n < fresh (srv_fs c)" unfolding unshared_def by blast
    have "\<nexists>k f. srv_fids c k = Some f \<and> fid_aux f = fid_aux n"
      using assms(1) hold unfolding unshared_def
      by (metis holder.simps(1) option.simps(9) sum.distinct(1))
    then have "opened (srv_fids c) (msg_body msg) \<noteq> Some (fid_aux n)"
      by (auto simp: opened_def split: Fcall.splits)
    with lt make_newfid_unpfs [OF assms(4)] have "cells s2 (fid_aux n) = cells (srv_fs c) (fid_aux n)"
      by (subst kept) (auto split: option.splits)
    with Some show ?thesis by (cases "srv_tasks c ! j") (auto simp: value_of_def)
  qed
  with j show "(map (value_task s2) (srv_tasks c))[i := x] ! j =
      (map (value_task (srv_fs c)) (srv_tasks c))[i := x] ! j"
    by (cases "j = i") simp_all
qed simp

lemma value_server_run:
  assumes "unshared c" "i < length (srv_tasks c)" "\<not> task_done (srv_tasks c ! i)"
  shows "value_server (run_task N (unpfs S realroot) i c) = spec_task N S realroot i (value_server c)"
proof (cases "srv_tasks c ! i")
  case (Spawned msg)
  let ?fs = "unpfs S realroot" and ?body = "msg_body msg" and ?s = "srv_fs c" and ?tbl = "srv_fids c"
  obtain nf s1 where nf: "make_newfid ?fs ?body ?s = (nf, s1)" by fastforce
  obtain r s2 where r: "dispatch_call ?fs ?tbl nf ?body s1 = (r, s2)" by fastforce
  have na: "no_alias ?tbl ?s" using assms(1) by (rule unshared_no_alias)
  then have "apart ?tbl" by (simp add: no_alias_def)
  note new = no_alias_new_cell [OF na nf]
  have spec: "spec_call S realroot (values_of ?s ?tbl) ?body (world ?s) = outcome_values ?tbl nf (r, s2)"
    using call_refines [OF \<open>apart ?tbl\<close> new(1), of S realroot] new(2,3) r by simp
  have others: "(map (value_task s2) (srv_tasks c))[i := x] = (map (value_task ?s) (srv_tasks c))[i := x]" for x
    by (rule value_task_frame [OF assms(1,2) Spawned nf r])
  have "r \<noteq> None"
    using dispatch_call_not_None [OF make_newfid_None_iff [OF nf], of ?fs ?tbl s1] r by simp
  then consider e where "r = Some (Inl e)" | x where "r = Some (Inr x)"
    by (metis not_None_eq obj_sumE)
  then show ?thesis
  proof cases
    case 1
    then have "values_of s2 ?tbl = values_of ?s ?tbl"
      using call_error_values [OF \<open>apart ?tbl\<close> new(1)] r new(2) by simp
    with 1 Spawned spec nf r assms(2) show ?thesis
      by (simp add: run_task_def spec_task_def value_server_def outcome_values_def map_update others)
  next
    case 2
    with Spawned spec nf r assms(2) show ?thesis
      by (simp add: run_task_def spec_task_def value_server_def outcome_values_def map_update others)
  qed
next
  case (Handled msg nf r)
  with assms(2) show ?thesis
    by (simp add: run_task_Handled spec_task_def value_server_def map_update values_of_drop)
next
  case (Dropped msg nf r)
  with assms(2) show ?thesis
    by (simp add: run_task_Dropped spec_task_def value_server_def map_update values_of_insert)
next
  case (Replying msg r)
  with assms(2) show ?thesis
    by (simp add: run_task_Replying_result spec_task_def value_server_def map_update)
qed (use assms in simp_all)

lemma spec_step_simulates:
  assumes "serve_step N (unpfs S realroot) c d" "unshared c"
  shows "spec_step N S realroot (value_server c) (value_server d)"
  using assms(1)
proof (cases rule: serve_step.cases)
  case receive
  have "srv_conn (value_server c) = Reading" using receive(2) by (simp add: value_server_def)
  then show ?thesis unfolding receive(1) value_server_receive by (rule spec_step.receive)
next
  case (run i)
  then have "i < length (srv_tasks (value_server c))" "\<not> task_done (srv_tasks (value_server c) ! i)"
    by (simp_all add: value_server_def)
  then show ?thesis
    unfolding run(1) value_server_run [OF assms(2) run(2,3)] by (rule spec_step.run)
next
  case (send_fails i msg r)
  then have "value_server d = (value_server c)\<lparr>srv_tasks := (srv_tasks (value_server c))[i := Panicked msg]\<rparr>"
    by (simp add: value_server_def map_update)
  moreover have "i < length (srv_tasks (value_server c))"
    "srv_tasks (value_server c) ! i = Replying msg r"
    using send_fails by (simp_all add: value_server_def)
  ultimately show ?thesis by (metis spec_step.send_fails)
qed

text \<open>
  A forward simulation: every step of the detailed system, in a state of the invariant, is a
  step of the abstract one on the views of its states. So is then every run.
\<close>

locale forward_simulation =
  fixes step :: "'c \<Rightarrow> 'c \<Rightarrow> bool" and step' :: "'v \<Rightarrow> 'v \<Rightarrow> bool"
    and inv :: "'c \<Rightarrow> bool" and view :: "'c \<Rightarrow> 'v"
  assumes keeps: "step c d \<Longrightarrow> inv c \<Longrightarrow> inv d"
    and simulates: "step c d \<Longrightarrow> inv c \<Longrightarrow> step' (view c) (view d)"
begin

lemma run:
  assumes "step\<^sup>*\<^sup>* c d" "inv c"
  shows "step'\<^sup>*\<^sup>* (view c) (view d) \<and> inv d"
  using assms
proof (induction rule: rtranclp_induct)
  case (step d e)
  then have "step' (view d) (view e)" "inv e" by (auto intro: keeps simulates)
  with step show ?case by (auto intro: rtranclp.rtrancl_into_rtrancl)
qed simp

lemmas view_run = run [THEN conjunct1]

end

interpretation unpfs_values: forward_simulation
  "serve_step N (unpfs S realroot)" "spec_step N S realroot" unshared value_server
  by unfold_locales (simp_all add: unshared_step spec_step_simulates)

lemma serves_rtranclp: "serves N fs c d \<Longrightarrow> (serve_step N fs)\<^sup>*\<^sup>* c d"
  by (induction rule: serves.induct) (auto intro: rtranclp.rtrancl_into_rtrancl)

lemma values_of_empty [simp]: "values_of s Map.empty = Map.empty"
  by (simp add: values_of_def fun_eq_iff)

lemma no_alias_empty: "no_alias Map.empty s"
  by (simp add: no_alias_def apart_def)

lemma value_server_init: "value_server (serve_init frames s) = serve_init frames (world s)"
  by (simp add: value_server_def serve_init_def)

lemma unpfs_view_reachable:
  "serves N (unpfs S realroot) (serve_init frames s) c \<Longrightarrow>
    (spec_step N S realroot)\<^sup>*\<^sup>* (serve_init frames (world s)) (value_server c)"
  using unpfs_values.view_run [OF serves_rtranclp unshared_init]
  by (fastforce simp: value_server_init)

section \<open>What a message leaves alone\<close>

text \<open>The fids whose values a message may change.\<close>

definition touched :: "Fcall \<Rightarrow> u32 set" where
  "touched body =
     (case body of
        Fcall.Tattach nfid afid uname aname n_uname \<Rightarrow> {nfid}
      | Fcall.Twalk fid nfid names \<Rightarrow> {nfid}
      | Fcall.Tlopen fid flags \<Rightarrow> {fid}
      | Fcall.Tlcreate fid name flags mode gid \<Rightarrow> {fid}
      | Fcall.Tclunk fid \<Rightarrow> {fid}
      | _ \<Rightarrow> {})"

lemma on_fid_eq_Inr:
  "on_fid F fid k w = (Inr x, w') \<longleftrightarrow> (\<exists>f. F fid = Some f \<and> k (fid_aux f) w = (Inr x, w'))"
  by (simp add: on_fid_def split: option.split)

lemma spec_call_frame:
  assumes "spec_call S realroot F body w = (Inr (r, F', nf), w')" "k \<notin> touched body"
  shows "F' k = F k \<and> (\<forall>n. nf = Some n \<longrightarrow> fid_fid n \<noteq> k)"
proof (cases "changes_fids body")
  case True
  with assms show ?thesis
    by (cases body)
      (auto simp: changes_fids_def spec_call_def touched_def on_fid_eq_Inr set_fid_def
        and_then_eq_Inr Let_def split: if_splits)
qed (use assms in \<open>auto simp: spec_call_reads and_then_eq_Inr\<close>)

lemma drop_clunked_untouched: "k \<notin> touched body \<Longrightarrow> drop_clunked body F k = F k"
  by (auto simp: drop_clunked_def touched_def split: Fcall.splits)

lemma spec_message_frame:
  assumes "spec_message S realroot body F w = (r, F', w')" "k \<notin> touched body"
  shows "F' k = F k"
proof -
  show ?thesis
  proof (cases "spec_call S realroot F body w")
    case (Pair x w'')
    show ?thesis
    proof (cases x)
      case (Inl e)
      with Pair assms(1) show ?thesis by (simp add: spec_message_def)
    next
      case (Inr y)
      then obtain r' G nf where y: "x = Inr (r', G, nf)" using prod_cases3 by metis
      with Pair assms(1) have "F' = insert_newfid nf (drop_clunked body G)"
        by (simp add: spec_message_def)
      moreover have "G k = F k" "\<forall>n. nf = Some n \<longrightarrow> fid_fid n \<noteq> k"
        using spec_call_frame [OF Pair [unfolded y] assms(2)] by simp_all
      ultimately show ?thesis by (cases nf) (simp_all add: insert_newfid_def drop_clunked_untouched [OF assms(2)])
    qed
  qed
qed

section \<open>Properties\<close>



text \<open>
  C9. A client that waits for each answer sees exactly the specification: the results of any
  messages handled one after the other, from a fresh connection, are those of the functions on
  values, errors included, and no handler panics.
\<close>

theorem unpfs_session_spec:
  "handle_session (unpfs S realroot) msgs Map.empty s =
     map Some (spec_session S realroot msgs Map.empty (world s))"
  using handle_session_refines [OF no_alias_empty] by simp

text \<open>
  C20. A message changes the value behind a fid only when it walks or attaches to it, opens or
  creates on it, or clunks it; all other fids keep their path and their open file, whether the
  message succeeds or fails.
\<close>

theorem unpfs_frame_values:
  assumes "no_alias tbl s" "dispatch_once (unpfs S realroot) msg tbl s = (r, tbl', s')"
    and "k \<notin> touched (msg_body msg)"
  shows "values_of s' tbl' k = values_of s tbl k"
  using dispatch_once_refines [OF assms(1,2)] spec_message_frame [OF _ assms(3)] by metis

theorem unpfs_frame_values_witness:
  "\<exists>r tbl' s'. dispatch_once (unpfs sample_sys ''/srv'') \<lparr>msg_tag = 1, msg_body = Fcall.Twalk 4 5 [''a'']\<rparr>
       [4 \<mapsto> \<lparr>fid_fid = 4, fid_aux = 0\<rparr>] sample_store = (r, tbl', s') \<and>
     values_of s' tbl' 4 = Some \<lparr>fid_fid = 4, fid_aux = \<lparr>ufid_path = ''/srv'', ufid_file = None\<rparr>\<rparr>"
proof -
  let ?msg = "\<lparr>msg_tag = 1, msg_body = Fcall.Twalk 4 5 [''a'']\<rparr>"
    and ?tbl = "[4 \<mapsto> \<lparr>fid_fid = 4, fid_aux = 0\<rparr>] :: nat fid_table"
  obtain r tbl' s' where d: "dispatch_once (unpfs sample_sys ''/srv'') ?msg ?tbl sample_store = (r, tbl', s')"
    using prod_cases3 by blast
  have "no_alias ?tbl sample_store"
    by (auto simp: no_alias_def apart_def sample_store_def split: if_splits)
  from unpfs_frame_values [OF this d, of 4] d show ?thesis
    by (auto simp: touched_def values_of_def value_of_def sample_store_def)
qed

end
