(* ===== verification/Ninep_Properties.thy ===== *)
theory Ninep_Properties
  imports Session_Properties Unpfs_Refinement
begin

text \<open>
  9P from the mount in the kernel to the files of the client and returns: the loop of the session
  server, gRPC, the reader and writer of the client, and the 9P server on its file system. The
  framing of messages on the byte stream is \<open>tokio_util\<close>'s \<open>LengthDelimitedCodec\<close>: \<open>frame\<close> is
  what the framed writer makes of a message, \<open>deframe\<close> what the framed reader yields on a
  stream of bytes that has ended.
\<close>

section \<open>The way there and back\<close>

lemma ninep_requests_arrive:
  assumes "forward_loop es = (blocks, bs, r)" "0 \<notin> set caps"
    and "channel_rest d = result_stream_items blocks"
    and "read_to_end (reader_poll_read (bytevec_poll channel_poll)) caps (StreamReader_new d) = (got, True)"
  shows "got = concat blocks"
proof -
  have rest: "until_error (channel_rest d) = blocks"
    using assms(3) by (simp add: result_stream_items_def until_error_Inr)
  with forward_loop_blocks [of es] assms(1)
  have inv: "reader_inv (\<lambda>c. until_error (channel_rest c)) (StreamReader_new d)"
    by (simp add: reader_inv_def StreamReader_new_def)
  from grpc_bytes.reader.read_to_end_unread [OF inv assms(2)] assms(4) rest show ?thesis
    by (simp add: reader_unread_def StreamReader_new_def)
qed

lemma ninep_replies_arrive:
  assumes "channel_rest d = map Inr (channel_rest (ninep_requests U sid c))"
    and "u_from_slice U (u_bytes U sid) = Inr x"
  shows "\<exists>stream. ninep_stream U d = Inr (x, stream) \<and> scan_rest nr_data channel_rest stream = channel_rest c"
proof -
  have "channel_rest d = Inr \<lparr>nr_id = Some (u_bytes U sid), nr_data = []\<rparr> #
      map (\<lambda>data. Inr \<lparr>nr_id = None, nr_data = data\<rparr>) (channel_rest c)"
    using assms(1) by (simp add: ninep_requests_def requests_of_rest o_def)
  then obtain d' where d': "channel_next d = Some (Inr \<lparr>nr_id = Some (u_bytes U sid), nr_data = []\<rparr>, d')"
    "channel_rest d' = map (\<lambda>data. Inr \<lparr>nr_id = None, nr_data = data\<rparr>) (channel_rest c)"
    using channel_next_rest [of d] by (auto split: option.splits)
  then have "ninep_stream U d = Inr (x, scan_new d')"
    using assms(2) by (simp add: ninep_stream_def vec_to_uuid_def)
  moreover have "scan_rest nr_data channel_rest (scan_new d') = channel_rest c"
    using d'(2) by (simp add: scan_rest_def scan_new_def until_error_map_Inr o_def)
  ultimately show ?thesis by blast
qed

lemma forward_loop_complete:
  assumes "forward_loop es = (out, bs, r)" "\<forall>(item, n) \<in> set (forward_writes es). n = length item"
  shows "bs = concat (map fst (forward_writes es))"
proof -
  have "map (\<lambda>(item, n). take n item) (forward_writes es) = map fst (forward_writes es)"
    using assms(2) by (intro map_cong) auto
  with forward_loop_bytes [of es] assms(1) show ?thesis by simp
qed

section \<open>Properties\<close>



text \<open>A concrete framing: the length of the frame, in four bytes, before the message.\<close>

definition sample_framed :: "u8 list \<Rightarrow> u8 list" where
  "sample_framed m = le_bytes 4 (4 + length m) @ m"

fun sample_deframe :: "nat \<Rightarrow> u8 list \<Rightarrow> (io_error + u8 list) list" where
  "sample_deframe 0 bs = []"
| "sample_deframe (Suc k) bs =
     (let n = le_nat (take 4 bs)
      in if length bs < 4 \<or> n < 4 \<or> length bs < n then []
         else Inr (take (n - 4) (drop 4 bs)) # sample_deframe k (drop n bs))"

lemma sample_deframe_framed:
  assumes "\<forall>m\<in>set ms. 4 + length m < 2 ^ 32" "length ms \<le> k"
  shows "sample_deframe k (concat (map sample_framed ms)) = map Inr ms"
  using assms
proof (induction ms arbitrary: k)
  case Nil
  then show ?case by (cases k) simp_all
next
  case (Cons m ms)
  then obtain j where k: "k = Suc j" "length ms \<le> j" by (cases k) auto
  let ?rest = "concat (map sample_framed ms)"
  have n: "le_nat (take 4 (sample_framed m @ ?rest)) = 4 + length m"
    using Cons.prems(1) by (simp add: sample_framed_def le_nat_le_bytes del: le_bytes.simps)
  have "drop (4 + length m) (sample_framed m @ ?rest) = ?rest"
    "take (length m) (drop 4 (sample_framed m @ ?rest)) = m"
    "\<not> length (sample_framed m @ ?rest) < 4 + length m"
    by (simp_all add: sample_framed_def del: le_bytes.simps)
  with n k Cons show ?case by (simp add: Let_def)
qed

lemma read_one_block:
  assumes "bs \<noteq> []" "length bs \<le> cap"
  shows "read_to_end (reader_poll_read (bytevec_poll channel_poll)) [cap, cap, cap]
    (StreamReader_new [None, Some (Inr bs)]) = (bs, True)"
proof -
  obtain y ys where bs: "bs = y # ys" using assms(1) by (cases bs) auto
  with assms(2) have "min cap (length bs) = length bs" "0 < cap" by auto
  with bs show ?thesis
    by (simp add: StreamReader_new_def reader_poll_read_def bytevec_poll_def reader_put_def Let_def)
qed


end
