(* ===== verification/Unpfs_Files.thy ===== *)
theory Unpfs_Files
  imports Unpfs
begin

text \<open>
  The handlers of \<^verbatim>\<open>crates/9p/src/unpfs.rs\<close> that use the open file of a fid, at the grain at which
  they interleave: \<open>rread\<close>, \<open>rwrite\<close> and \<open>rfsync\<close> take the mutex around the file, seek, and read,
  write or sync, and another handler may run at every \<open>await\<close> in between; \<open>rlopen\<close> takes the
  mutex to put the file it opened into the fid. Elsewhere in the development a handler is one
  step. Here it is shown that this is no loss for the handlers of this theory: whatever their
  interleaving, answers, files and machine are those of some order of whole handlers.
\<close>

section \<open>Handlers in steps\<close>

datatype io_op = ReadAt u64 u32 | WriteAt u64 Data | SyncAll

text \<open>
  What a handler is doing, on the cell of its fid: it waits for the mutex, holds it, has
  positioned the file, or has answered. The last block of \<open>rlopen\<close> has a file to install.
\<close>

datatype 'h io_task =
    Queued nat io_op
  | Holds nat io_op
  | Positioned nat io_op 'h
  | Answered "Error + Fcall"
  | Installs nat 'h
  | Installed

text \<open>The store, the task that holds the mutex of a cell, and the tasks.\<close>

record ('h, 'w) files =
  fl_store :: "('h, 'w) store"
  fl_holder :: "nat \<Rightarrow> nat option"
  fl_tasks :: "'h io_task list"

definition fid_at :: "nat \<Rightarrow> nat Fid" where
  "fid_at a = \<lparr>fid_fid = 0, fid_aux = a\<rparr>"

fun seek_to :: "io_op \<Rightarrow> u64 option" where
  "seek_to (ReadAt off cnt) = Some off"
| "seek_to (WriteAt off dat) = Some off"
| "seek_to SyncAll = None"

fun transfer :: "('d, 'h, 'w) sys \<Rightarrow> io_op \<Rightarrow> 'h \<Rightarrow> ('h, 'w, Fcall) act" where
  "transfer S (ReadAt off cnt) h =
     and_then (io (sys_read S h (unat cnt))) (\<lambda>buf. succeed (Fcall.Rread (Data buf)))"
| "transfer S (WriteAt off dat) h =
     and_then (io (sys_write S h (case dat of Data bytes \<Rightarrow> bytes))) (\<lambda>n. succeed (Fcall.Rwrite (of_nat n)))"
| "transfer S SyncAll h = and_then (io (sys_sync_all S h)) (\<lambda>_. succeed Fcall.Rfsync)"

text \<open>The answer, and the mutex is free again.\<close>

definition answer :: "nat \<Rightarrow> nat \<Rightarrow> (Error + Fcall) \<times> ('h, 'w) store \<Rightarrow> ('h, 'w) files \<Rightarrow> ('h, 'w) files" where
  "answer i a result s =
     s\<lparr>fl_store := snd result, fl_holder := (fl_holder s)(a := None),
       fl_tasks := (fl_tasks s)[i := Answered (fst result)]\<rparr>"

definition install :: "nat \<Rightarrow> nat \<Rightarrow> 'h \<Rightarrow> ('h, 'w) files \<Rightarrow> ('h, 'w) files" where
  "install i a h s =
     s\<lparr>fl_store := snd (write_file (fid_at a) h (fl_store s)), fl_tasks := (fl_tasks s)[i := Installed]\<rparr>"

text \<open>The next step of task \<open>i\<close>; \<open>None\<close> when it has to wait for a mutex, or is done.\<close>

definition io_step :: "('d, 'h, 'w) sys \<Rightarrow> nat \<Rightarrow> ('h, 'w) files \<Rightarrow> ('h, 'w) files option" where
  "io_step S i s =
     (case fl_tasks s ! i of
        Queued a op \<Rightarrow>
          if fl_holder s a = None
          then Some (s\<lparr>fl_holder := (fl_holder s)(a \<mapsto> i), fl_tasks := (fl_tasks s)[i := Holds a op]\<rparr>)
          else None
      | Holds a op \<Rightarrow>
          (case ufid_file (cells (fl_store s) a) of
             None \<Rightarrow> Some (answer i a (Inl (Error_from_io INVALID_FID), fl_store s) s)
           | Some h \<Rightarrow>
               (case seek_to op of
                  None \<Rightarrow> Some (s\<lparr>fl_tasks := (fl_tasks s)[i := Positioned a op h]\<rparr>)
                | Some off \<Rightarrow>
                    (case io (sys_seek S h off) (fl_store s) of
                       (Inl e, st) \<Rightarrow> Some (answer i a (Inl e, st) s)
                     | (Inr _, st) \<Rightarrow>
                         Some (s\<lparr>fl_store := st, fl_tasks := (fl_tasks s)[i := Positioned a op h]\<rparr>))))
      | Positioned a op h \<Rightarrow> Some (answer i a (transfer S op h (fl_store s)) s)
      | Answered r \<Rightarrow> None
      | Installs a h \<Rightarrow> if fl_holder s a = None then Some (install i a h s) else None
      | Installed \<Rightarrow> None)"

inductive files_step :: "('d, 'h, 'w) sys \<Rightarrow> ('h, 'w) files \<Rightarrow> ('h, 'w) files \<Rightarrow> bool" for S where
  "i < length (fl_tasks s) \<Longrightarrow> io_step S i s = Some s' \<Longrightarrow> files_step S s s'"

section \<open>Whole handlers\<close>

text \<open>The specification: a handler runs from its start to its end in one step.\<close>

fun io_handler :: "('d, 'h, 'w) sys \<Rightarrow> nat \<Rightarrow> io_op \<Rightarrow> ('h, 'w, Fcall) act" where
  "io_handler S a (ReadAt off cnt) = unpfs_rread S (fid_at a) off cnt"
| "io_handler S a (WriteAt off dat) = unpfs_rwrite S (fid_at a) off dat"
| "io_handler S a SyncAll = unpfs_rfsync S (fid_at a)"

definition serial_step_of :: "('d, 'h, 'w) sys \<Rightarrow> nat \<Rightarrow> ('h, 'w) files \<Rightarrow> ('h, 'w) files option" where
  "serial_step_of S i s =
     (case fl_tasks s ! i of
        Queued a op \<Rightarrow>
          (let (r, st) = io_handler S a op (fl_store s)
           in Some (s\<lparr>fl_store := st, fl_tasks := (fl_tasks s)[i := Answered r]\<rparr>))
      | Installs a h \<Rightarrow> Some (install i a h s)
      | _ \<Rightarrow> None)"

inductive serial_step :: "('d, 'h, 'w) sys \<Rightarrow> ('h, 'w) files \<Rightarrow> ('h, 'w) files \<Rightarrow> bool" for S where
  "i < length (fl_tasks s) \<Longrightarrow> serial_step_of S i s = Some s' \<Longrightarrow> serial_step S s s'"

fun io_done :: "'h io_task \<Rightarrow> bool" where
  "io_done (Answered r) = True"
| "io_done Installed = True"
| "io_done _ = False"

fun io_start :: "'h io_task \<Rightarrow> bool" where
  "io_start (Queued a op) = True"
| "io_start (Installs a h) = True"
| "io_start _ = False"

fun to_install :: "'h io_task \<Rightarrow> 'h option" where
  "to_install (Installs a h) = Some h"
| "to_install _ = None"

text \<open>
  The open files of the fids, and those to be installed, are different ones: each comes from an
  \<open>open\<close> of its own.
\<close>

definition files_apart :: "('h, 'w) files \<Rightarrow> bool" where
  "files_apart s \<longleftrightarrow>
     (\<forall>a b h. ufid_file (cells (fl_store s) a) = Some h \<longrightarrow> ufid_file (cells (fl_store s) b) = Some h \<longrightarrow> a = b) \<and>
     (\<forall>i a h. i < length (fl_tasks s) \<longrightarrow> to_install (fl_tasks s ! i) = Some h \<longrightarrow>
        ufid_file (cells (fl_store s) a) \<noteq> Some h) \<and>
     (\<forall>i j h. i < length (fl_tasks s) \<longrightarrow> j < length (fl_tasks s) \<longrightarrow>
        to_install (fl_tasks s ! i) = Some h \<longrightarrow> to_install (fl_tasks s ! j) = Some h \<longrightarrow> i = j)"

definition files_start :: "('h, 'w) files \<Rightarrow> bool" where
  "files_start s \<longleftrightarrow> fl_holder s = Map.empty \<and> list_all io_start (fl_tasks s) \<and> files_apart s"

text \<open>
  What the machine promises: a seek that succeeds on one open file and a call on another do not
  notice each other (every open file has a position of its own).
\<close>

definition passes :: "('d, 'h, 'w) sys \<Rightarrow> 'h \<Rightarrow> ('w \<Rightarrow> 'r \<times> 'w) \<Rightarrow> bool" where
  "passes S h call \<longleftrightarrow>
     (\<forall>off w n w'. sys_seek S h off w = (Inr n, w') \<longrightarrow>
        fst (call w') = fst (call w) \<and>
        (\<exists>n'. sys_seek S h off (snd (call w)) = (Inr n', snd (call w'))))"

definition independent_files :: "('d, 'h, 'w) sys \<Rightarrow> bool" where
  "independent_files S \<longleftrightarrow>
     (\<forall>h h'. h \<noteq> h' \<longrightarrow> (\<forall>off. passes S h (sys_seek S h' off)) \<and> (\<forall>n. passes S h (sys_read S h' n)) \<and>
        (\<forall>bs. passes S h (sys_write S h' bs)) \<and> passes S h (sys_sync_all S h'))"

section \<open>Calls that pass each other\<close>

text \<open>Seeks on several open files, one after the other, all of which succeed.\<close>

fun seek_all :: "('d, 'h, 'w) sys \<Rightarrow> ('h \<times> u64) list \<Rightarrow> 'w \<Rightarrow> 'w option" where
  "seek_all S [] w = Some w"
| "seek_all S ((h, off) # ps) w =
     (case sys_seek S h off w of (Inl e, w') \<Rightarrow> None | (Inr n, w') \<Rightarrow> seek_all S ps w')"

lemma seek_all_append:
  "seek_all S (ps @ qs) w = (case seek_all S ps w of None \<Rightarrow> None | Some w' \<Rightarrow> seek_all S qs w')"
  by (induction S ps w rule: seek_all.induct) (auto split: prod.split sum.split)

lemma seek_all_passes:
  assumes "\<forall>(h, off)\<in>set ps. passes S h call" "seek_all S ps w = Some w'"
  shows "fst (call w') = fst (call w) \<and> seek_all S ps (snd (call w)) = Some (snd (call w'))"
  using assms
proof (induction S ps w rule: seek_all.induct)
  case (2 S h off ps w)
  from 2(3) obtain n w1 where w1: "sys_seek S h off w = (Inr n, w1)" "seek_all S ps w1 = Some w'"
    by (auto split: prod.splits sum.splits)
  from 2(2) have "passes S h call" by simp
  with w1(1) obtain n' where "fst (call w1) = fst (call w)"
    "sys_seek S h off (snd (call w)) = (Inr n', snd (call w1))"
    unfolding passes_def by blast
  moreover have "fst (call w') = fst (call w1) \<and> seek_all S ps (snd (call w1)) = Some (snd (call w'))"
    using 2(1) [OF w1(1) [symmetric] refl] 2(2) w1(2) by simp
  ultimately show ?case by simp
qed simp

lemma passes_map:
  assumes "passes S h call" "\<And>w. call' w = (g (fst (call w)), snd (call w))"
  shows "passes S h call'"
  using assms(1) unfolding passes_def assms(2) by simp

text \<open>A seek can be moved before those on other files.\<close>

lemma seek_all_front:
  assumes "independent_files S" "h \<notin> fst ` set ps" "seek_all S (ps @ (h, off) # qs) w = Some w'"
  shows "\<exists>n w1. sys_seek S h off w = (Inr n, w1) \<and> seek_all S (ps @ qs) w1 = Some w'"
proof -
  from assms(3) obtain w2 n w3 where w2: "seek_all S ps w = Some w2" "sys_seek S h off w2 = (Inr n, w3)"
    "seek_all S qs w3 = Some w'"
    by (auto simp: seek_all_append split: option.splits prod.splits sum.splits)
  have "\<forall>(h', off')\<in>set ps. passes S h' (sys_seek S h off)"
  proof clarify
    fix h' off'
    assume "(h', off') \<in> set ps"
    with assms(2) have "h' \<noteq> h" by force
    with assms(1) show "passes S h' (sys_seek S h off)" by (simp add: independent_files_def)
  qed
  from seek_all_passes [OF this w2(1)] w2(2)
  have "fst (sys_seek S h off w) = Inr n" "seek_all S ps (snd (sys_seek S h off w)) = Some w3" by simp_all
  then show ?thesis using w2(3)
    by (intro exI [of _ n] exI [of _ "snd (sys_seek S h off w)"]) (simp add: seek_all_append prod_eq_iff)
qed

text \<open>The transfers as calls of the machine.\<close>

fun transfer_call :: "('d, 'h, 'w) sys \<Rightarrow> io_op \<Rightarrow> 'h \<Rightarrow> 'w \<Rightarrow> (Error + Fcall) \<times> 'w" where
  "transfer_call S (ReadAt off cnt) h w =
     (let (r, w') = sys_read S h (unat cnt) w
      in (map_sum Error_from_io (\<lambda>buf. Fcall.Rread (Data buf)) r, w'))"
| "transfer_call S (WriteAt off dat) h w =
     (let (r, w') = sys_write S h (case dat of Data bytes \<Rightarrow> bytes) w
      in (map_sum Error_from_io (\<lambda>n. Fcall.Rwrite (of_nat n)) r, w'))"
| "transfer_call S SyncAll h w =
     (let (r, w') = sys_sync_all S h w in (map_sum Error_from_io (\<lambda>_. Fcall.Rfsync) r, w'))"

lemma transfer_eq:
  "transfer S op h st =
     (fst (transfer_call S op h (world st)), st\<lparr>world := snd (transfer_call S op h (world st))\<rparr>)"
  by (cases op) (auto simp: and_then_def io_def split: prod.split sum.split)

lemma transfer_passes:
  assumes "independent_files S" "h \<noteq> h'"
  shows "passes S h (transfer_call S op h')"
proof (cases op)
  case (ReadAt off cnt)
  from assms have "passes S h (sys_read S h' (unat cnt))" by (simp add: independent_files_def)
  then show ?thesis by (rule passes_map) (simp add: ReadAt case_prod_beta)
next
  case (WriteAt off dat)
  from assms have "passes S h (sys_write S h' (case dat of Data bytes \<Rightarrow> bytes))"
    by (simp add: independent_files_def)
  then show ?thesis by (rule passes_map) (simp add: WriteAt case_prod_beta)
next
  case SyncAll
  from assms have "passes S h (sys_sync_all S h')" by (simp add: independent_files_def)
  then show ?thesis by (rule passes_map) (simp add: SyncAll case_prod_beta)
qed

lemma io_handler_eq:
  "io_handler S a op st =
     (case ufid_file (cells st a) of
        None \<Rightarrow> (Inl (Error_from_io INVALID_FID), st)
      | Some h \<Rightarrow>
          (case seek_to op of
             None \<Rightarrow> transfer S op h st
           | Some off \<Rightarrow> and_then (io (sys_seek S h off)) (\<lambda>_. transfer S op h) st))"
  by (cases op) (simp_all add: unpfs_rread_def unpfs_rwrite_def unpfs_rfsync_def fid_at_def
      open_file_def and_then_def split: option.split)

section \<open>The simulation\<close>

fun io_origin :: "'h io_task \<Rightarrow> 'h io_task" where
  "io_origin (Holds a op) = Queued a op"
| "io_origin (Positioned a op h) = Queued a op"
| "io_origin t = t"

fun locks :: "'h io_task \<Rightarrow> nat option" where
  "locks (Holds a op) = Some a"
| "locks (Positioned a op h) = Some a"
| "locks t = None"

fun flight :: "'h io_task \<Rightarrow> ('h \<times> u64) option" where
  "flight (Positioned a op h) = map_option (Pair h) (seek_to op)"
| "flight t = None"

definition in_flight :: "'h io_task list \<Rightarrow> ('h \<times> u64) set" where
  "in_flight ts = {x. \<exists>j<length ts. flight (ts ! j) = Some x}"

text \<open>
  The invariant, and what relates a state to one of whole handlers: handlers that have not
  answered have not started there, and the machine lacks the seeks of those that are positioned.
\<close>

definition io_inv :: "('h, 'w) files \<Rightarrow> bool" where
  "io_inv s \<longleftrightarrow> files_apart s \<and>
     (\<forall>a i. fl_holder s a = Some i \<longleftrightarrow> i < length (fl_tasks s) \<and> locks (fl_tasks s ! i) = Some a) \<and>
     (\<forall>i<length (fl_tasks s). \<forall>a op h. fl_tasks s ! i = Positioned a op h \<longrightarrow>
        ufid_file (cells (fl_store s) a) = Some h)"

definition io_rel :: "('d, 'h, 'w) sys \<Rightarrow> ('h, 'w) files \<Rightarrow> ('h, 'w) files \<Rightarrow> bool" where
  "io_rel S s t \<longleftrightarrow> fl_tasks t = map io_origin (fl_tasks s) \<and> fl_holder t = Map.empty \<and>
     fl_store s = (fl_store t)\<lparr>world := world (fl_store s)\<rparr> \<and>
     (\<exists>ps. distinct (map fst ps) \<and> set ps = in_flight (fl_tasks s) \<and>
        seek_all S ps (world (fl_store t)) = Some (world (fl_store s)))"

lemma io_start_simps:
  assumes "io_start t"
  shows "locks t = None" "t \<noteq> Positioned a op h" "io_origin t = t" "flight t = None"
  using assms by (cases t; simp)+

lemma io_inv_start: "files_start s \<Longrightarrow> io_inv s"
  by (auto simp: files_start_def io_inv_def list_all_length io_start_simps)

lemma io_rel_start: "files_start s \<Longrightarrow> io_rel S s s"
  by (auto simp: files_start_def io_rel_def list_all_length in_flight_def io_start_simps
      intro!: nth_equalityI exI [of _ "[]"])

lemma in_flight_update:
  assumes "i < length ts" "\<And>j. j < length ts \<Longrightarrow> j \<noteq> i \<Longrightarrow> flight (ts ! j) \<noteq> flight (ts ! i) \<or> flight (ts ! i) = None"
  shows "in_flight (ts[i := t]) = (in_flight ts - set_option (flight (ts ! i))) \<union> set_option (flight t)"
  using assms by (fastforce simp: in_flight_def nth_list_update split: if_splits)

text \<open>The file that a holder of a mutex uses is none that another handler has positioned.\<close>

lemma others_differ:
  assumes "io_inv s" "i < length (fl_tasks s)" "locks (fl_tasks s ! i) = Some a"
    and "ufid_file (cells (fl_store s) a) = Some h"
    and "j < length (fl_tasks s)" "j \<noteq> i" "flight (fl_tasks s ! j) = Some (h', off)"
  shows "h' \<noteq> h"
proof
  assume "h' = h"
  with assms(7) obtain b op where b: "fl_tasks s ! j = Positioned b op h"
    by (cases "fl_tasks s ! j") auto
  with assms(1,5) have "ufid_file (cells (fl_store s) b) = Some h" by (auto simp: io_inv_def)
  with assms(1,4) have "a = b" by (auto simp: io_inv_def files_apart_def)
  with assms(1,2,3,5,6) b show False
    unfolding io_inv_def by (metis locks.simps(2) option.inject)
qed

lemma files_apart_update:
  assumes "files_apart s" "fl_tasks s' = (fl_tasks s)[i := t]" "to_install t = None"
    and "cells (fl_store s') = cells (fl_store s)"
  shows "files_apart s'"
proof -
  have "to_install (fl_tasks s' ! j) = Some h \<Longrightarrow> to_install (fl_tasks s ! j) = Some h" for j h
    using assms(2,3)
    by (cases "i < length (fl_tasks s)") (auto simp: nth_list_update list_update_beyond split: if_splits)
  moreover have "length (fl_tasks s') = length (fl_tasks s)" by (simp add: assms(2))
  ultimately show ?thesis using assms(1) unfolding files_apart_def assms(4) by (metis (no_types, lifting))
qed

lemma files_apart_install:
  assumes "files_apart s" "i < length (fl_tasks s)" "fl_tasks s ! i = Installs a h"
  shows "files_apart (install i a h s)"
  using assms unfolding files_apart_def install_def write_file_def fid_at_def
  by (auto simp: nth_list_update split: if_splits)

lemma io_inv_holder: "io_inv s \<Longrightarrow>
  fl_holder s a = Some i \<longleftrightarrow> i < length (fl_tasks s) \<and> locks (fl_tasks s ! i) = Some a"
  unfolding io_inv_def by blast

lemma io_inv_positioned: "io_inv s \<Longrightarrow> i < length (fl_tasks s) \<Longrightarrow> fl_tasks s ! i = Positioned a op h \<Longrightarrow>
  ufid_file (cells (fl_store s) a) = Some h"
  unfolding io_inv_def by blast

lemma io_inv_apart: "io_inv s \<Longrightarrow> files_apart s"
  unfolding io_inv_def by blast

lemma io_inv_update:
  assumes "io_inv s" "i < length (fl_tasks s)" "fl_tasks s' = (fl_tasks s)[i := t]" "files_apart s'"
    and holder: "\<And>a j. fl_holder s' a = Some j \<longleftrightarrow>
      (if j = i then locks t = Some a else fl_holder s a = Some j)"
    and "\<And>a op h. t = Positioned a op h \<Longrightarrow> ufid_file (cells (fl_store s') a) = Some h"
    and "\<And>b h j. fl_holder s b = Some j \<Longrightarrow> j \<noteq> i \<Longrightarrow> ufid_file (cells (fl_store s) b) = Some h \<Longrightarrow>
      ufid_file (cells (fl_store s') b) = Some h"
  shows "io_inv s'"
  unfolding io_inv_def
proof (intro conjI allI impI)
  show "fl_holder s' a = Some j \<longleftrightarrow> j < length (fl_tasks s') \<and> locks (fl_tasks s' ! j) = Some a" for a j
    unfolding holder assms(3) using assms(2) io_inv_holder [OF assms(1), of a j] by (cases "j = i") simp_all
next
  fix j a op h
  assume j: "j < length (fl_tasks s')" "fl_tasks s' ! j = Positioned a op h"
  show "ufid_file (cells (fl_store s') a) = Some h"
  proof (cases "j = i")
    case True
    with j assms(2,3,6) show ?thesis by simp
  next
    case False
    with j assms(3) have "fl_tasks s ! j = Positioned a op h" "j < length (fl_tasks s)" by simp_all
    then have "fl_holder s a = Some j" "ufid_file (cells (fl_store s) a) = Some h"
      using io_inv_holder [OF assms(1), of a j] io_inv_positioned [OF assms(1)] by auto
    with assms(7) False show ?thesis by blast
  qed
qed (fact assms(4))

lemma io_inv_answer:
  assumes "io_inv s" "i < length (fl_tasks s)" "locks (fl_tasks s ! i) = Some a"
    and "cells (snd result) = cells (fl_store s)"
  shows "io_inv (answer i a result s)"
proof -
  have mine: "fl_holder s a = Some i" "\<And>b. b \<noteq> a \<Longrightarrow> fl_holder s b \<noteq> Some i"
    using io_inv_holder [OF assms(1)] assms(2,3) by auto
  have "files_apart (answer i a result s)"
    by (rule files_apart_update [OF io_inv_apart [OF assms(1)], of _ i "Answered (fst result)"])
      (simp_all add: answer_def assms(4))
  moreover have "fl_holder (answer i a result s) b = Some j \<longleftrightarrow> (if j = i then False else fl_holder s b = Some j)"
    for b j using mine by (cases "b = a"; cases "j = i") (simp_all add: answer_def)
  ultimately show ?thesis
    by (intro io_inv_update [OF assms(1,2), of _ "Answered (fst result)"]) (simp_all add: answer_def assms(4))
qed

lemma io_inv_step:
  assumes "io_inv s" "i < length (fl_tasks s)" "io_step S i s = Some s'"
  shows "io_inv s'"
proof (cases "fl_tasks s ! i")
  case (Queued a op)
  with assms(3) have s': "fl_holder s a = None"
    "s' = s\<lparr>fl_holder := (fl_holder s)(a \<mapsto> i), fl_tasks := (fl_tasks s)[i := Holds a op]\<rparr>"
    by (auto simp: io_step_def split: if_splits)
  have "files_apart s'"
    by (rule files_apart_update [OF io_inv_apart [OF assms(1)], of _ i "Holds a op"]) (simp_all add: s'(2))
  moreover have "fl_holder s b \<noteq> Some i" for b
    using io_inv_holder [OF assms(1), of b i] Queued by simp
  ultimately show ?thesis
    using s'(1) by (intro io_inv_update [OF assms(1,2), of _ "Holds a op"]) (auto simp: s'(2))
next
  case (Holds a op)
  then have holder: "fl_holder s b = Some i \<longleftrightarrow> b = a" for b
    using io_inv_holder [OF assms(1)] assms(2) by auto
  have position: "io_inv (s\<lparr>fl_store := st, fl_tasks := (fl_tasks s)[i := Positioned a op h]\<rparr>)"
    if "cells st = cells (fl_store s)" "ufid_file (cells (fl_store s) a) = Some h" for st h
  proof -
    have "files_apart (s\<lparr>fl_store := st, fl_tasks := (fl_tasks s)[i := Positioned a op h]\<rparr>)"
      by (rule files_apart_update [OF io_inv_apart [OF assms(1)], of _ i "Positioned a op h"])
        (simp_all add: that)
    then show ?thesis
      using holder that by (intro io_inv_update [OF assms(1,2), of _ "Positioned a op h"]) auto
  qed
  show ?thesis
  proof (cases "ufid_file (cells (fl_store s) a)")
    case None
    with assms(3) Holds show ?thesis by (auto simp: io_step_def intro!: io_inv_answer [OF assms(1,2)])
  next
    case (Some h)
    show ?thesis
    proof (cases "seek_to op")
      case None
      with Some assms(3) Holds position [of "fl_store s" h] show ?thesis by (simp add: io_step_def)
    next
      case (Some off)
      with \<open>ufid_file (cells (fl_store s) a) = Some h\<close> assms(3) Holds show ?thesis
        by (auto simp: io_step_def io_def split: prod.splits sum.splits
            intro!: io_inv_answer [OF assms(1,2)] position)
    qed
  qed
next
  case (Positioned a op h)
  then show ?thesis using assms(3)
    by (auto simp: io_step_def transfer_eq intro!: io_inv_answer [OF assms(1,2)])
next
  case (Installs a h)
  with assms(3) have s': "fl_holder s a = None" "s' = install i a h s"
    by (auto simp: io_step_def split: if_splits)
  have "files_apart (install i a h s)"
    using assms(1,2) Installs by (intro files_apart_install) (simp_all add: io_inv_def)
  moreover have "fl_holder s b \<noteq> Some i" for b
    using io_inv_holder [OF assms(1), of b i] Installs by simp
  ultimately show ?thesis
    using s'(1) by (intro io_inv_update [OF assms(1,2), of _ Installed])
      (auto simp: s'(2) install_def write_file_def fid_at_def)
qed (use assms(3) in \<open>simp_all add: io_step_def\<close>)

lemma io_rel_world: "io_rel S s t \<Longrightarrow> (fl_store s)\<lparr>world := w\<rparr> = (fl_store t)\<lparr>world := w\<rparr>"
  by (cases "fl_store s"; cases "fl_store t") (simp add: io_rel_def)

lemma io_rel_cells: "io_rel S s t \<Longrightarrow> cells (fl_store s) = cells (fl_store t)"
  by (cases "fl_store s"; cases "fl_store t") (simp add: io_rel_def)

text \<open>A step that only the finer machine sees.\<close>

lemma io_rel_stutter:
  assumes "io_rel S s t" "i < length (fl_tasks s)"
    and "io_origin u = io_origin (fl_tasks s ! i)" "flight (fl_tasks s ! i) = None" "flight u = None"
    and "fl_tasks s' = (fl_tasks s)[i := u]" "fl_store s' = fl_store s"
  shows "io_rel S s' t"
proof -
  have "map io_origin ((fl_tasks s)[i := u]) = map io_origin (fl_tasks s)"
    using assms(2,3) by (simp add: map_update list_update_same_conv)
  moreover have "in_flight ((fl_tasks s)[i := u]) = in_flight (fl_tasks s)"
    using assms(2,4,5) by (simp add: in_flight_update)
  ultimately show ?thesis using assms(1,6,7) unfolding io_rel_def by simp
qed

text \<open>The step with which a handler answers is the whole handler in the other machine.\<close>

lemma io_rel_answer:
  assumes "io_rel S s t" "i < length (fl_tasks s)" "io_origin (fl_tasks s ! i) = Queued a op"
    and "io_handler S a op (fl_store t) = (r, (fl_store t)\<lparr>world := w1\<rparr>)"
    and "seek_all S qs w1 = Some w2" "distinct (map fst qs)"
    and "set qs = in_flight (fl_tasks s) - set_option (flight (fl_tasks s ! i))"
    and "\<And>j. j < length (fl_tasks s) \<Longrightarrow> j \<noteq> i \<Longrightarrow>
      flight (fl_tasks s ! j) \<noteq> flight (fl_tasks s ! i) \<or> flight (fl_tasks s ! i) = None"
  shows "\<exists>t'. serial_step S t t' \<and> io_rel S (answer i a (r, (fl_store s)\<lparr>world := w2\<rparr>) s) t'"
proof -
  let ?t' = "t\<lparr>fl_store := (fl_store t)\<lparr>world := w1\<rparr>, fl_tasks := (fl_tasks t)[i := Answered r]\<rparr>"
  from assms(1) have tasks: "fl_tasks t = map io_origin (fl_tasks s)"
    and "fl_holder t = Map.empty"
    unfolding io_rel_def by simp_all
  have "serial_step S t ?t'"
    using assms(2,3,4) by (intro serial_step.intros [of i]) (simp_all add: tasks serial_step_of_def)
  moreover have "set qs = in_flight ((fl_tasks s)[i := Answered r])"
    using in_flight_update [OF assms(2,8), of "Answered r"] assms(7) by simp
  ultimately show ?thesis
    using assms(5,6) io_rel_world [OF assms(1)] \<open>fl_holder t = Map.empty\<close> unfolding io_rel_def
    by (intro exI [of _ ?t'] conjI) (auto simp: answer_def tasks map_update)
qed

lemma io_rel_step:
  assumes S: "independent_files S" and inv: "io_inv s" and rel: "io_rel S s t"
    and i: "i < length (fl_tasks s)" and step: "io_step S i s = Some s'"
  shows "io_rel S s' t \<or> (\<exists>t'. serial_step S t t' \<and> io_rel S s' t')"
proof -
  let ?ts = "fl_tasks s"
  from rel obtain ps where ps: "distinct (map fst ps)" "set ps = in_flight ?ts"
    "seek_all S ps (world (fl_store t)) = Some (world (fl_store s))"
    unfolding io_rel_def by blast
  have cells: "cells (fl_store t) = cells (fl_store s)" using io_rel_cells [OF rel] by simp
  have seeks: "\<forall>(h', off')\<in>set qs. passes S h' (sys_seek S h off)"
    and transfers: "\<forall>(h', off')\<in>set qs. passes S h' (transfer_call S op h)"
    if "h \<notin> fst ` set qs" for qs :: "('b \<times> u64) list" and h off op
  proof -
    from that have "\<forall>(h', off')\<in>set qs. h' \<noteq> h" by force
    then show "\<forall>(h', off')\<in>set qs. passes S h' (sys_seek S h off)"
      "\<forall>(h', off')\<in>set qs. passes S h' (transfer_call S op h)"
      using S transfer_passes [OF S, of _ h op] by (auto simp: independent_files_def)
  qed
  show ?thesis
  proof (cases "?ts ! i")
    case (Queued a op)
    with step have "io_rel S s' t"
      by (intro io_rel_stutter [OF rel i, of "Holds a op"]) (auto simp: io_step_def split: if_splits)
    then show ?thesis ..
  next
    case (Holds a op)
    have free: "h \<notin> fst ` set ps" if "ufid_file (cells (fl_store s) a) = Some h" for h
      using others_differ [OF inv i _ that] Holds unfolding ps(2) in_flight_def by fastforce
    note answered = io_rel_answer [OF rel i, of a op]
    show ?thesis
    proof (cases "ufid_file (cells (fl_store s) a)")
      case None
      with step Holds ps show ?thesis
        using answered [of "Inl (Error_from_io INVALID_FID)" "world (fl_store t)" ps "world (fl_store s)"]
        by (simp add: io_step_def io_handler_eq cells)
    next
      case h: (Some h)
      show ?thesis
      proof (cases "seek_to op")
        case None
        with step Holds h have "io_rel S s' t"
          by (intro io_rel_stutter [OF rel i, of "Positioned a op h"]) (auto simp: io_step_def)
        then show ?thesis ..
      next
        case (Some off)
        from seek_all_passes [OF seeks [OF free [OF h]] ps(3)]
        have seek: "fst (sys_seek S h off (world (fl_store s))) = fst (sys_seek S h off (world (fl_store t)))"
          "seek_all S ps (snd (sys_seek S h off (world (fl_store t)))) = Some (snd (sys_seek S h off (world (fl_store s))))"
          by simp_all
        obtain w1 where w1: "sys_seek S h off (world (fl_store t)) =
          (fst (sys_seek S h off (world (fl_store s))), w1)" by (metis seek(1) prod.collapse)
        show ?thesis
        proof (cases "sys_seek S h off (world (fl_store s))")
          case (Pair r w2)
          show ?thesis
          proof (cases r)
            case (Inl e)
            with Pair Some Holds h step have s': "s' = answer i a (Inl (Error_from_io e), (fl_store s)\<lparr>world := w2\<rparr>) s"
              by (simp add: io_step_def io_def)
            have "\<exists>t'. serial_step S t t' \<and> io_rel S s' t'"
              unfolding s' using ps seek(2) w1 Pair Inl Holds h Some
              by (intro io_rel_answer [OF rel i, of a op _ w1 ps]) (simp_all add: io_handler_eq cells and_then_def io_def)
            then show ?thesis ..
          next
            case (Inr n)
            with Pair Some Holds h step have s': "s' = s\<lparr>fl_store := (fl_store s)\<lparr>world := w2\<rparr>,
                fl_tasks := ?ts[i := Positioned a op h]\<rparr>"
              by (simp add: io_step_def io_def)
            have "in_flight (?ts[i := Positioned a op h]) = insert (h, off) (set ps)"
              using in_flight_update [OF i, of "Positioned a op h"] ps(2) Holds Some by simp
            moreover have "seek_all S (ps @ [(h, off)]) (world (fl_store t)) = Some w2"
              using ps(3) Pair Inr by (simp add: seek_all_append)
            moreover have "map io_origin (?ts[i := Positioned a op h]) = map io_origin ?ts"
              using i Holds by (simp add: map_update list_update_same_conv)
            ultimately have "io_rel S s' t"
              using rel ps(1) free [OF h] io_rel_world [OF rel] unfolding s' io_rel_def
              by (auto intro!: exI [of _ "ps @ [(h, off)]"])
            then show ?thesis ..
          qed
        qed
      qed
    qed
  next
    case (Positioned a op h)
    from io_inv_positioned [OF inv i Positioned] have h: "ufid_file (cells (fl_store s) a) = Some h" .
    let ?call = "transfer_call S op h"
    from step Positioned have s': "s' = answer i a (fst (?call (world (fl_store s))),
        (fl_store s)\<lparr>world := snd (?call (world (fl_store s)))\<rparr>) s"
      by (simp add: io_step_def transfer_eq)
    have mine: "flight (?ts ! i) = map_option (Pair h) (seek_to op)" by (simp add: Positioned)
    have locked: "locks (?ts ! i) = Some a" by (simp add: Positioned)
    have differ: "h' \<noteq> h" if "j < length ?ts" "j \<noteq> i" "flight (?ts ! j) = Some (h', off')" for j h' off'
      using others_differ [OF inv i locked h that] .
    then have apart: "flight (?ts ! j) \<noteq> flight (?ts ! i) \<or> flight (?ts ! i) = None"
      if "j < length ?ts" "j \<noteq> i" for j
      unfolding mine using that by (cases "seek_to op") fastforce+
    show ?thesis
    proof (cases "seek_to op")
      case None
      then have "h \<notin> fst ` set ps"
        using differ unfolding ps(2) in_flight_def by (force simp: Positioned)
      from seek_all_passes [OF transfers [OF this, of op] ps(3)]
      have "\<exists>t'. serial_step S t t' \<and> io_rel S s' t'"
        unfolding s' using ps(1,2) None h Positioned
        by (intro io_rel_answer [OF rel i _ _ _ _ _ apart, of a op _ "snd (?call (world (fl_store t)))" ps])
          (simp_all add: io_handler_eq cells transfer_eq)
      then show ?thesis ..
    next
      case (Some off)
      with Positioned i have "(h, off) \<in> set ps"
        unfolding ps(2) in_flight_def by force
      then obtain xs ys where xs: "ps = xs @ (h, off) # ys" by (meson split_list)
      with ps(1) have out: "h \<notin> fst ` set xs" "h \<notin> fst ` set (xs @ ys)" by (auto simp: image_Un)
      from seek_all_front [OF S out(1) ps(3) [unfolded xs]] obtain n w1 where
        w1: "sys_seek S h off (world (fl_store t)) = (Inr n, w1)" "seek_all S (xs @ ys) w1 = Some (world (fl_store s))"
        by blast
      from out(2) have "(h, off) \<notin> set (xs @ ys)" by (metis fst_conv image_eqI)
      then have "set (xs @ ys) = in_flight ?ts - {(h, off)}"
        unfolding ps(2) [symmetric] xs by auto
      with seek_all_passes [OF transfers [OF out(2), of op] w1(2)]
      have "\<exists>t'. serial_step S t t' \<and> io_rel S s' t'"
        unfolding s' using ps(1) xs Some h Positioned w1(1)
        by (intro io_rel_answer [OF rel i _ _ _ _ _ apart, of a op _ "snd (?call w1)" "xs @ ys"])
          (simp_all add: io_handler_eq cells transfer_eq and_then_def io_def)
      then show ?thesis ..
    qed
  next
    case (Installs a h)
    let ?t' = "install i a h t"
    from step Installs have s': "s' = install i a h s"
      by (auto simp: io_step_def split: if_splits)
    from rel have tasks: "fl_tasks t = map io_origin ?ts" "fl_holder t = Map.empty"
      and store: "fl_store s = (fl_store t)\<lparr>world := world (fl_store s)\<rparr>"
      unfolding io_rel_def by simp_all
    have "serial_step S t ?t'"
      using i Installs by (intro serial_step.intros [of i]) (simp_all add: tasks serial_step_of_def)
    moreover have "in_flight (?ts[i := Installed]) = set ps"
      using in_flight_update [OF i, of Installed] Installs ps(2) by simp
    then have "io_rel S s' ?t'"
      using ps(1,3) tasks store cells unfolding s' io_rel_def install_def write_file_def
      by (cases "fl_store s"; cases "fl_store t") (auto simp: map_update)
    ultimately show ?thesis by blast
  qed (use step in \<open>simp_all add: io_step_def\<close>)
qed

lemma io_rel_done:
  assumes "io_inv s" "io_rel S s t" "list_all io_done (fl_tasks s)"
  shows "s = t"
proof -
  from assms(2) obtain ps where ps: "set ps = in_flight (fl_tasks s)"
    "seek_all S ps (world (fl_store t)) = Some (world (fl_store s))"
    unfolding io_rel_def by blast
  have "flight (fl_tasks s ! j) = None \<and> locks (fl_tasks s ! j) = None \<and> io_origin (fl_tasks s ! j) = fl_tasks s ! j"
    if "j < length (fl_tasks s)" for j
    using assms(3) that by (cases "fl_tasks s ! j") (auto simp: list_all_length)
  moreover from calculation have "set ps = {}" unfolding ps(1) in_flight_def by force
  with ps(2) have "world (fl_store t) = world (fl_store s)" by simp
  moreover from calculation(1) have "map io_origin (fl_tasks s) = fl_tasks s" by (auto intro: nth_equalityI)
  moreover have "fl_holder s = Map.empty"
  proof
    show "fl_holder s a = None" for a
      using calculation(1) io_inv_holder [OF assms(1), of a] by (metis not_Some_eq)
  qed
  ultimately show ?thesis
    using assms(2) unfolding io_rel_def by (cases s; cases t; cases "fl_store s"; cases "fl_store t") auto
qed

section \<open>Progress\<close>

fun io_rank :: "'h io_task \<Rightarrow> nat" where
  "io_rank (Queued a op) = 3"
| "io_rank (Holds a op) = 2"
| "io_rank (Positioned a op h) = 1"
| "io_rank (Installs a h) = 1"
| "io_rank t = 0"

definition files_rank :: "('h, 'w) files \<Rightarrow> nat" where
  "files_rank s = sum_list (map io_rank (fl_tasks s))"

lemma sum_list_update_less:
  fixes f :: "'a \<Rightarrow> nat"
  assumes "i < length xs" "f x < f (xs ! i)"
  shows "sum_list (map f (xs[i := x])) < sum_list (map f xs)"
  using assms
proof (induction xs arbitrary: i)
  case (Cons y ys)
  then show ?case by (cases i) auto
qed simp

lemma io_step_shape:
  assumes "io_step S i s = Some s'"
  shows "\<exists>t. fl_tasks s' = (fl_tasks s)[i := t] \<and> io_rank t < io_rank (fl_tasks s ! i)"
  using assms
  by (cases "fl_tasks s ! i")
    (auto simp: io_step_def answer_def install_def split: if_splits option.splits prod.splits sum.splits)

lemma rank_bound: "sum_list (map io_rank ts) \<le> 3 * length ts"
proof (induction ts)
  case (Cons t ts)
  then show ?case by (cases t) simp_all
qed simp

lemma files_step_rank:
  assumes "files_step S s s'"
  shows "files_rank s' < files_rank s" "length (fl_tasks s') = length (fl_tasks s)"
  using assms
  by (auto simp: files_rank_def sum_list_update_less elim!: files_step.cases dest!: io_step_shape)

text \<open>Whoever holds a mutex can go on, and when nobody does, whoever waits can take it.\<close>

lemma io_inv_progress:
  assumes "io_inv s" "\<not> list_all io_done (fl_tasks s)"
  shows "\<exists>s'. files_step S s s'"
proof -
  have go: ?thesis if "i < length (fl_tasks s)" "locks (fl_tasks s ! i) = Some a" for i a
  proof -
    have "\<exists>s'. io_step S i s = Some s'"
      using that(2)
      by (cases "fl_tasks s ! i") (auto simp: io_step_def split: option.split prod.split sum.split)
    with that(1) show ?thesis by (blast intro: files_step.intros)
  qed
  show ?thesis
  proof (cases "fl_holder s = Map.empty")
    case True
    from assms(2) obtain i where "i < length (fl_tasks s)" "\<not> io_done (fl_tasks s ! i)"
      by (auto simp: list_all_length)
    moreover from this True have "io_step S i s \<noteq> None"
      by (cases "fl_tasks s ! i") (auto simp: io_step_def split: option.split prod.split sum.split)
    ultimately show ?thesis by (auto intro: files_step.intros)
  next
    case False
    then obtain a i where "fl_holder s a = Some i" by (meson not_Some_eq ext)
    with io_inv_holder [OF assms(1)] go show ?thesis by blast
  qed
qed

lemma io_inv_reachable:
  assumes "io_inv s0" "(files_step S)\<^sup>*\<^sup>* s0 s"
  shows "io_inv s"
  using assms(2,1) by induction (auto elim!: files_step.cases intro: io_inv_step)

section \<open>A small disk\<close>

text \<open>
  One file of bytes that every handle has open, with a position for each handle. The calls that
  the handlers of this theory do not make all fail.
\<close>

type_synonym disk = "(nat \<Rightarrow> nat) \<times> u8 list"

fun disk_seek :: "nat \<Rightarrow> u64 \<Rightarrow> disk \<Rightarrow> (io_error + u64) \<times> disk" where
  "disk_seek h off (pos, bs) = (Inr off, (pos(h := unat off), bs))"

fun disk_read :: "nat \<Rightarrow> nat \<Rightarrow> disk \<Rightarrow> (io_error + u8 list) \<times> disk" where
  "disk_read h n (pos, bs) =
     (let got = take n (drop (pos h) bs) in (Inr got, (pos(h := pos h + length got), bs)))"

fun disk_write :: "nat \<Rightarrow> u8 list \<Rightarrow> disk \<Rightarrow> (io_error + nat) \<times> disk" where
  "disk_write h dat (pos, bs) =
     (Inr (length dat), (pos(h := pos h + length dat),
       take (pos h) (bs @ replicate (pos h - length bs) 0) @ dat @ drop (pos h + length dat) bs))"

definition disk_sys :: "(unit, nat, disk) sys" where
  "disk_sys =
     \<lparr>sys_symlink_metadata = (\<lambda>p. Pair (Inl (Os 2 NotFound))),
      sys_metadata = (\<lambda>p. Pair (Inl (Os 2 NotFound))),
      sys_set_permissions = (\<lambda>p m. Pair (Inl (Os 2 NotFound))),
      sys_chown = (\<lambda>p u g. Pair (Inl EPERM)),
      sys_open_write = (\<lambda>p. Pair (Inl (Os 2 NotFound))),
      sys_set_len = (\<lambda>h n. Pair (Inl (Os 2 NotFound))),
      sys_set_file_times = (\<lambda>p a m. Pair (Inl (Os 2 NotFound))),
      sys_read_link = (\<lambda>p. Pair (Inl (Os 2 NotFound))),
      sys_read_dir = (\<lambda>p. Pair (Inl (Os 2 NotFound))),
      sys_entry_metadata = (\<lambda>d. Pair (Inl (Os 2 NotFound))),
      sys_entry_file_name = (\<lambda>d. []),
      sys_open = (\<lambda>p fl m. Pair (Inl EPERM)),
      sys_seek = disk_seek, sys_read = disk_read, sys_write = disk_write,
      sys_sync_all = (\<lambda>h. Pair (Inr ())),
      sys_create_dir = (\<lambda>p. Pair (Inl (Os 2 NotFound))),
      sys_rename = (\<lambda>p q. Pair (Inl (Os 2 NotFound))),
      sys_remove_dir = (\<lambda>p. Pair (Inl (Os 2 NotFound))),
      sys_remove_file = (\<lambda>p. Pair (Inl (Os 2 NotFound))),
      sys_statvfs = (\<lambda>p. Pair (Inl EIO)),
      sys_O_WRONLY = 1, sys_O_RDONLY = 0, sys_O_RDWR = 2, sys_O_CREAT = 64, sys_O_TRUNC = 512,
      sys_OFlag_truncate = (\<lambda>x. x), sys_Mode_truncate = (\<lambda>x. x)\<rparr>"

lemma disk_independent: "independent_files disk_sys"
  by (auto simp: independent_files_def passes_def disk_sys_def Let_def fun_upd_twist)

text \<open>A reader and a writer on handles of their own, and a handle to install.\<close>

definition disk_start :: "(nat, disk) files" where
  "disk_start =
     \<lparr>fl_store = \<lparr>cells = (\<lambda>a. \<lparr>ufid_path = [], ufid_file = (if a < 2 then Some a else None)\<rparr>),
                  fresh = 3, world = (\<lambda>_. 0, [1, 2, 3, 4])\<rparr>,
      fl_holder = Map.empty,
      fl_tasks = [Queued 0 (ReadAt 2 2), Queued 1 (WriteAt 3 (Data [7, 8])), Installs 2 5, Queued 3 SyncAll]\<rparr>"

lemma disk_start_files: "files_start disk_start"
  by (auto simp: files_start_def files_apart_def disk_start_def less_Suc_eq nth_Cons' split: if_splits)

text \<open>The steps of the tasks with the given numbers, one after the other.\<close>

fun io_run :: "('d, 'h, 'w) sys \<Rightarrow> nat list \<Rightarrow> ('h, 'w) files \<Rightarrow> ('h, 'w) files option" where
  "io_run S [] s = Some s"
| "io_run S (i # ks) s =
     (if i < length (fl_tasks s) then Option.bind (io_step S i s) (io_run S ks) else None)"

lemma io_run_steps: "io_run S ks s = Some s' \<Longrightarrow> (files_step S ^^ length ks) s s'"
  by (induction S ks s rule: io_run.induct)
    (auto simp del: relpowp.simps(2) split: if_splits bind_splits intro: relpowp_Suc_I2 files_step.intros)

lemma disk_run:
  "map_option fl_tasks (io_run disk_sys [0, 1, 0, 1, 3, 1, 2, 3, 0] disk_start) =
     Some [Answered (Inr (Fcall.Rread (Data [3, 7]))), Answered (Inr (Fcall.Rwrite 2)), Installed,
           Answered (Inl (Error_from_io INVALID_FID))]"
  by code_simp

section \<open>The handlers of open files\<close>

text \<open>
  C10: However the handlers \<open>rread\<close>, \<open>rwrite\<close> and \<open>rfsync\<close> and the installations of opened files
  interleave, on any number of fids: when all have answered, their answers, the files and the
  machine are those of a run in which the handlers are executed whole, one after the other.
\<close>

theorem files_serializable:
  assumes "independent_files S" "files_start s0" "(files_step S)\<^sup>*\<^sup>* s0 s" "list_all io_done (fl_tasks s)"
  shows "(serial_step S)\<^sup>*\<^sup>* s0 s"
proof -
  have "io_inv s \<and> (\<exists>t. (serial_step S)\<^sup>*\<^sup>* s0 t \<and> io_rel S s t)"
    using assms(3)
  proof induction
    case base
    show ?case using io_inv_start [OF assms(2)] io_rel_start [OF assms(2), of S] by blast
  next
    case (step u v)
    from step.hyps(2) obtain i where i: "i < length (fl_tasks u)" "io_step S i u = Some v"
      by (cases rule: files_step.cases) auto
    with step.IH show ?case
      using io_inv_step [OF _ i] io_rel_step [OF assms(1) _ _ i] rtranclp.rtrancl_into_rtrancl [of "serial_step S" s0]
      by blast
  qed
  then obtain t where t: "io_inv s" "(serial_step S)\<^sup>*\<^sup>* s0 t" "io_rel S s t" by blast
  have "s = t" using io_rel_done [OF t(1,3) assms(4)] .
  with t(2) show ?thesis by simp
qed

theorem files_serializable_witness:
  "\<exists>s. (files_step disk_sys)\<^sup>*\<^sup>* disk_start s \<and> (serial_step disk_sys)\<^sup>*\<^sup>* disk_start s \<and>
     fl_tasks s ! 0 = Answered (Inr (Fcall.Rread (Data [3, 7])))"
proof -
  from disk_run obtain s where s: "io_run disk_sys [0, 1, 0, 1, 3, 1, 2, 3, 0] disk_start = Some s"
    "fl_tasks s = [Answered (Inr (Fcall.Rread (Data [3, 7]))), Answered (Inr (Fcall.Rwrite 2)), Installed,
       Answered (Inl (Error_from_io INVALID_FID))]" by auto
  have steps: "(files_step disk_sys)\<^sup>*\<^sup>* disk_start s"
    by (rule relpowp_imp_rtranclp [OF io_run_steps [OF s(1)]])
  have "(serial_step disk_sys)\<^sup>*\<^sup>* disk_start s"
    by (rule files_serializable [OF disk_independent disk_start_files steps]) (simp add: s(2))
  with steps s(2) show ?thesis by auto
qed

text \<open>
  C23: The handlers of open files never wait for each other forever: a state they reach is one in
  which all have answered, or one of them can go on, and \<open>n\<close> handlers take at most \<open>3 n\<close> steps.
\<close>

theorem files_answer_all:
  assumes "files_start s0" "(files_step S ^^ n) s0 s"
  shows "n \<le> 3 * length (fl_tasks s0) \<and> (list_all io_done (fl_tasks s) \<or> (\<exists>s'. files_step S s s'))"
proof
  from assms(2) have "n + files_rank s \<le> files_rank s0"
  proof (induction n arbitrary: s)
    case (Suc n)
    then obtain u where "(files_step S ^^ n) s0 u" "files_step S u s" by auto
    with Suc.IH [of u] files_step_rank(1) [of S u s] show ?case by simp
  qed simp
  moreover have "files_rank s0 \<le> 3 * length (fl_tasks s0)"
    unfolding files_rank_def by (rule rank_bound)
  ultimately show "n \<le> 3 * length (fl_tasks s0)" by simp
  from assms(2) have "(files_step S)\<^sup>*\<^sup>* s0 s" by (rule relpowp_imp_rtranclp)
  with io_inv_start [OF assms(1)] have "io_inv s" by (rule io_inv_reachable)
  then show "list_all io_done (fl_tasks s) \<or> (\<exists>s'. files_step S s s')"
    using io_inv_progress by blast
qed


theorem files_answer_all_witness:
  "\<exists>s. (files_step disk_sys ^^ 9) disk_start s \<and> 9 \<le> 3 * length (fl_tasks disk_start)"
proof -
  from disk_run obtain s where "io_run disk_sys [0, 1, 0, 1, 3, 1, 2, 3, 0] disk_start = Some s" by auto
  from io_run_steps [OF this] have "(files_step disk_sys ^^ 9) disk_start s"
    by (simp add: eval_nat_numeral del: relpowp.simps)
  with files_answer_all [OF disk_start_files this] show ?thesis by blast
qed

end
