(* ===== verification/Unit_Tests.thy ===== *)
theory Unit_Tests
  imports Serialize_Properties
begin

text \<open>
  The unit tests at the end of \<^verbatim>\<open>crates/9p/src/serialize.rs\<close>, as definitions with a truth value. They
  hold in the model, the first two as instances of what holds for any bytes.
\<close>

section \<open>Bytes\<close>

text \<open>The loop that encodes bytes; \<open>None\<close> is the panic of \<open>unwrap\<close>.\<close>

fun encode_each :: "u8 list \<Rightarrow> writer \<Rightarrow> writer option" where
  "encode_each [] encoder = Some encoder"
| "encode_each (i # is) encoder =
     (case encode_u8 i encoder of
        Inl e \<Rightarrow> None
      | Inr (_, encoder') \<Rightarrow> encode_each is encoder')"

definition encoder_test1 :: bool where
  "encoder_test1 \<longleftrightarrow>
     (let expected = map of_nat [0..<10]
      in map_option w_buf (encode_each (map of_nat [0..<10]) vec_writer) = Some expected)"

lemma decode_u8_Cons: "decode_u8 (b # bs) = Inr (b, bs)"
  by (simp add: decode_u8_def bnd_def read_exact_def ret_def)

lemma decode_u8_Nil: "decode_u8 [] = Inl eof_error"
  by (simp add: decode_u8_def bnd_def read_exact_def)

text \<open>The loop that decodes bytes until there is an error.\<close>

function decode_each :: "u8 list \<Rightarrow> u8 list" where
  "decode_each decoder =
     (case decode_u8 decoder of
        Inr (i, decoder') \<Rightarrow> i # decode_each decoder'
      | Inl _ \<Rightarrow> [])"
  by pat_completeness auto

termination
proof (relation "measure length", simp, goal_cases)
  case (1 decoder x i decoder')
  then show ?case by (cases decoder) (auto simp: decode_u8_Cons decode_u8_Nil)
qed

declare decode_each.simps [simp del]

definition decoder_test1 :: bool where
  "decoder_test1 \<longleftrightarrow> (let expected = map of_nat [0..<10] in decode_each expected = expected)"

section \<open>A message\<close>

definition msg_encode_decode1 :: bool where
  "msg_encode_decode1 \<longleftrightarrow>
     (let expected = \<lparr>msg_tag = 0xdead, msg_body = Fcall.Rversion 40 P92000L\<rparr>
      in case encode_Msg expected vec_writer of
           Inl e \<Rightarrow> False
         | Inr (_, buf) \<Rightarrow> 
             (case decode_Msg (w_buf buf) of Inl e \<Rightarrow> False | Inr (actual, _) \<Rightarrow> expected = actual))"

section \<open>They pass\<close>

text \<open>Any bytes are encoded as they are, and decoded up to the end of the input.\<close>

lemma encode_u8_byte: "encode_u8 b w = (case write_all [b] w of Inl e \<Rightarrow> Inl e | Inr w' \<Rightarrow> Inr (1, w'))"
  by (simp add: encode_u8_def)

lemma encode_each_bytes:
  assumes "w_room w = None"
  shows "encode_each bs w = Some (w\<lparr>w_buf := w_buf w @ bs\<rparr>)"
  using assms by (induction bs arbitrary: w) (simp_all add: encode_u8_byte write_all_def)

lemma decode_each_bytes: "decode_each bs = bs"
  by (induction bs) (subst decode_each.simps, simp add: decode_u8_Cons decode_u8_Nil)+

text \<open>The unit tests of the sources hold: bytes and a version message are read back as written.\<close>

theorem unit_tests: "encoder_test1 \<and> decoder_test1 \<and> msg_encode_decode1"
proof (intro conjI)
  show encoder_test1
    by (simp add: encoder_test1_def encode_each_bytes vec_writer_def)
  show decoder_test1
    by (simp add: decoder_test1_def decode_each_bytes)
  show msg_encode_decode1
    using msg.encode_vec [of "\<lparr>msg_tag = 0xdead, msg_body = Fcall.Rversion 40 P92000L\<rparr>" "[]"]
      msg.roundtrip [OF readable_example, of "[]"]
    by (simp add: msg_encode_decode1_def vec_writer_def Let_def)
qed

end
