(* ===== verification/Fcall_Orders.thy ===== *)
theory Fcall_Orders
  imports Srv_Properties "HOL-Library.Product_Lexorder"
begin

text \<open>
  The derived orders (\<open>PartialOrd\<close>, \<open>Ord\<close>) of \<^verbatim>\<open>crates/9p/src/fcall.rs\<close> as instances of the
  library's \<open>linorder\<close>: variants in the order of their declaration, structs field by field.
\<close>

section \<open>Message types\<close>

lemma MsgType_as_u8_inj: "MsgType_as_u8 t = MsgType_as_u8 t' \<longleftrightarrow> t = t'"
  by (metis MsgType_from_u8_as_u8 option.inject)

text \<open>The variants are declared in the order of their discriminants.\<close>

definition MsgType_le :: "MsgType \<Rightarrow> MsgType \<Rightarrow> bool" where
  "MsgType_le t t' \<longleftrightarrow> MsgType_as_u8 t \<le> MsgType_as_u8 t'"

instantiation MsgType :: linorder
begin

definition "less_eq_MsgType = MsgType_le"

definition "less_MsgType t t' \<longleftrightarrow> MsgType_le t t' \<and> \<not> MsgType_le t' t"

instance
proof
  fix t t' u :: MsgType
  show "t < t' \<longleftrightarrow> t \<le> t' \<and> \<not> t' \<le> t"
    by (auto simp: less_eq_MsgType_def less_MsgType_def)
  show "t \<le> t" "t \<le> t' \<Longrightarrow> t' \<le> u \<Longrightarrow> t \<le> u" "t \<le> t' \<or> t' \<le> t"
    by (auto simp: less_eq_MsgType_def MsgType_le_def)
  show "t \<le> t' \<Longrightarrow> t' \<le> t \<Longrightarrow> t = t'"
    by (simp add: less_eq_MsgType_def MsgType_le_def flip: MsgType_as_u8_inj)
qed

end

text \<open>In this order the reply of a file system comes right after the request.\<close>

lemma MsgType_as_u8_bound: "MsgType_as_u8 t < 128"
  by (cases t) simp_all

lemma MsgType_next:
  assumes "MsgType_as_u8 r = MsgType_as_u8 t + 1"
  shows "t < r \<and> (\<nexists>u. t < u \<and> u < r)"
proof -
  have "unat (MsgType_as_u8 t) < 128"
    using MsgType_as_u8_bound [of t] by (simp add: word_less_nat_alt)
  with assms have "unat (MsgType_as_u8 r) = Suc (unat (MsgType_as_u8 t))"
    by (simp add: unat_word_ariths)
  then show ?thesis by (auto simp: less_MsgType_def MsgType_le_def word_le_nat_alt)
qed

context filesystem
begin

lemma reply_type_next:
  assumes "dispatch_call fs tbl nf body s = (Some (Inr r), s')"
  shows "MsgType_from body < MsgType_from r \<and> (\<nexists>u. MsgType_from body < u \<and> u < MsgType_from r)"
  using reply_type(1) [OF assms] by (rule MsgType_next)

end

section \<open>Structs\<close>

definition Time_le :: "('a::linorder) Time_ext \<Rightarrow> 'a Time_ext \<Rightarrow> bool" where
  "Time_le x y \<longleftrightarrow> (time_sec x, time_nsec x, Time.more x) \<le> (time_sec y, time_nsec y, Time.more y)"

instantiation Time_ext :: (linorder) linorder
begin

definition "less_eq_Time_ext = (Time_le :: 'a Time_ext \<Rightarrow> 'a Time_ext \<Rightarrow> bool)"

definition "less_Time_ext x y \<longleftrightarrow> Time_le x y \<and> \<not> Time_le y (x :: 'a Time_ext)"

instance
  by intro_classes (auto simp: less_eq_Time_ext_def less_Time_ext_def Time_le_def)

end

definition Qid_le :: "('a::linorder) Qid_ext \<Rightarrow> 'a Qid_ext \<Rightarrow> bool" where
  "Qid_le x y \<longleftrightarrow> (qid_typ x, qid_version x, qid_path x, Qid.more x) \<le> (qid_typ y, qid_version y, qid_path y, Qid.more y)"

instantiation Qid_ext :: (linorder) linorder
begin

definition "less_eq_Qid_ext = (Qid_le :: 'a Qid_ext \<Rightarrow> 'a Qid_ext \<Rightarrow> bool)"

definition "less_Qid_ext x y \<longleftrightarrow> Qid_le x y \<and> \<not> Qid_le y (x :: 'a Qid_ext)"

instance
  by intro_classes (auto simp: less_eq_Qid_ext_def less_Qid_ext_def Qid_le_def)

end

text \<open>An earlier time is a smaller one: seconds first, then the nanoseconds.\<close>

lemma Time_less_iff:
  "(t :: Time) < t' \<longleftrightarrow> time_sec t < time_sec t' \<or> time_sec t = time_sec t' \<and> time_nsec t < time_nsec t'"
  by (auto simp: less_Time_ext_def Time_le_def)

end
