(* ===== verification/Apps.thy ===== *)
theory Apps
  imports Client
begin

text \<open>
  The two programs around the library: the addresses of \<^verbatim>\<open>crates/p9cpu/src/p9cpu.rs\<close> and
  \<^verbatim>\<open>crates/p9cpud/src/p9cpud.rs\<close>, how the client connects to one
  (\<^verbatim>\<open>crates/libp9cpu/src/rpc/rpc_client.rs\<close>), how the server listens on it
  (\<^verbatim>\<open>crates/libp9cpu/src/rpc/rpc_server.rs\<close>), the run of a command by \<open>p9cpu\<close>, and how
  \<open>p9cpud\<close> launches itself again for a session. What the arguments are parsed with (\<open>clap\<close>) is
  not part of it.
\<close>

section \<open>Unsigned numbers\<close>

text \<open>\<open>FromStr\<close> of an unsigned type with the given greatest value.\<close>

fun parse_udigits :: "nat \<Rightarrow> nat \<Rightarrow> string \<Rightarrow> ParseIntError + nat" where
  "parse_udigits greatest acc [] = Inr acc"
| "parse_udigits greatest acc (c # cs) =
     (if \<not> is_digit c then Inl InvalidDigit
      else if greatest < acc * 10 + nat (digit_value c) then Inl PosOverflow
      else parse_udigits greatest (acc * 10 + nat (digit_value c)) cs)"

definition parse_unsigned :: "nat \<Rightarrow> string \<Rightarrow> ParseIntError + nat" where
  "parse_unsigned greatest s =
     (case s of
        [] \<Rightarrow> Inl Empty
      | c # cs \<Rightarrow>
          if c = CHR ''+'' then (if cs = [] then Inl InvalidDigit else parse_udigits greatest 0 cs)
          else parse_udigits greatest 0 s)"

lemma parse_udigits_append:
  "parse_udigits greatest acc (cs @ ds) =
     (case parse_udigits greatest acc cs of Inl e \<Rightarrow> Inl e | Inr v \<Rightarrow> parse_udigits greatest v ds)"
  by (induction cs arbitrary: acc) auto

lemma parse_udigits_show: "n \<le> greatest \<Longrightarrow> parse_udigits greatest 0 (show_nat n) = Inr n"
proof (induction n rule: show_nat.induct)
  case (1 n)
  show ?case
  proof (cases "n < 10")
    case True
    with "1.prems" show ?thesis
      by (subst show_nat.simps) (simp add: digit_char)
  next
    case False
    have n: "n = n div 10 * 10 + n mod 10" by presburger
    have "show_nat n = show_nat (n div 10) @ [char_of (48 + n mod 10)]"
      using False by (subst show_nat.simps) simp
    moreover have "parse_udigits greatest 0 (show_nat (n div 10)) = Inr (n div 10)"
      using "1.prems" by (intro "1.IH" [OF False]) simp
    ultimately show ?thesis using "1.prems" n by (simp add: parse_udigits_append digit_char)
  qed
qed

lemma parse_unsigned_show: "n \<le> greatest \<Longrightarrow> parse_unsigned greatest (show_nat n) = Inr n"
proof -
  assume n: "n \<le> greatest"
  obtain c cs where s: "show_nat n = c # cs" by (cases "show_nat n") auto
  with show_nat_digits [of c n] have "c \<noteq> CHR ''+''" by (auto simp: is_digit_def)
  with s parse_udigits_show [OF n] show ?thesis by (simp add: parse_unsigned_def)
qed

section \<open>Addresses\<close>

datatype Net = Net_Tcp | Net_Vsock | Net_Unix

datatype 'sock Addr = Addr_Tcp 'sock | Addr_Vsock nat nat | Addr_Uds string

text \<open>\<open>AddrPanics\<close> is an \<open>unwrap\<close>; \<open>parse_sock\<close> is \<open>FromStr\<close> of \<open>SocketAddr\<close>.\<close>

datatype 'sock addr_result = AddrOk "'sock Addr" | AddrError string | AddrPanics

definition p9cpu_addr :: "(string \<Rightarrow> string + 'sock) \<Rightarrow> Net \<Rightarrow> string \<Rightarrow> nat \<Rightarrow> 'sock addr_result" where
  "p9cpu_addr parse_sock net host port =
     (case net of
        Net_Vsock \<Rightarrow>
          (case parse_unsigned (2 ^ 32 - 1) host of
             Inl e \<Rightarrow> AddrPanics
           | Inr cid \<Rightarrow> AddrOk (Addr_Vsock cid port))
      | Net_Unix \<Rightarrow> AddrOk (Addr_Uds host)
      | Net_Tcp \<Rightarrow>
          (case parse_sock (host @ '':'' @ show_nat port) of
             Inl e \<Rightarrow> AddrError e
           | Inr sock \<Rightarrow> AddrOk (Addr_Tcp sock)))"

text \<open>\<open>cid_any\<close> is \<open>vsock\<close>'s constant \<open>VMADDR_CID_ANY\<close>.\<close>

definition p9cpud_addr ::
  "(string \<Rightarrow> string + 'sock) \<Rightarrow> nat \<Rightarrow> Net \<Rightarrow> nat \<Rightarrow> string option \<Rightarrow> 'sock addr_result" where
  "p9cpud_addr parse_sock cid_any net port uds =
     (case net of
        Net_Vsock \<Rightarrow> AddrOk (Addr_Vsock cid_any port)
      | Net_Tcp \<Rightarrow>
          (case parse_sock (''[::]:'' @ show_nat port) of
             Inl e \<Rightarrow> AddrPanics
           | Inr sock \<Rightarrow> AddrOk (Addr_Tcp sock))
      | Net_Unix \<Rightarrow> (case uds of None \<Rightarrow> AddrPanics | Some path \<Rightarrow> AddrOk (Addr_Uds path)))"

text \<open>
  The endpoint of the client's channel and what it is connected with; for TCP the text of the
  address is made again from its parts.
\<close>

datatype connector = Over_tcp | Over_unix string | Over_vsock nat nat

definition RpcClient_endpoint :: "('sock \<Rightarrow> string) \<Rightarrow> ('sock \<Rightarrow> nat) \<Rightarrow> 'sock Addr \<Rightarrow> string \<times> connector" where
  "RpcClient_endpoint ip port addr =
     (case addr of
        Addr_Uds path \<Rightarrow> (''http://[::]:50051'', Over_unix path)
      | Addr_Tcp sock \<Rightarrow> (''http://'' @ ip sock @ '':'' @ show_nat (port sock), Over_tcp)
      | Addr_Vsock cid vport \<Rightarrow> (''http://[::]:50051'', Over_vsock cid vport))"

section \<open>Serving gRPC\<close>

text \<open>
  \<open>VsockListenerStream\<close>, \<^verbatim>\<open>crates/libp9cpu/src/rpc/rpc_server.rs\<close>: the stream of accepted
  connections, given what \<open>poll_accept\<close> of \<open>tokio_vsock\<close> finds, a connection with the address
  of its peer.
\<close>

definition vsock_listener_poll ::
  "('l \<Rightarrow> (io_error + 'c \<times> 'peer) poll \<times> 'l) \<Rightarrow> 'l \<Rightarrow> (io_error + 'c) option poll \<times> 'l" where
  "vsock_listener_poll poll_accept listener =
     (case poll_accept listener of
        (Ready (Inr (connection, _)), listener') \<Rightarrow> (Ready (Some (Inr connection)), listener')
      | (Ready (Inl err), listener') \<Rightarrow> (Ready (Some (Inl err)), listener')
      | (Pending, listener') \<Rightarrow> (Pending, listener'))"

text \<open>It has an item for every answer of the listener, errors included, and never ends.\<close>

lemma vsock_listener_endless: "\<not> snd (poll_times (vsock_listener_poll poll_accept) n listener)"
  by (induction n arbitrary: listener)
    (auto simp: vsock_listener_poll_def case_prod_beta split: poll.split sum.split)

text \<open>
  What \<open>RpcServer::serve\<close> uses of \<open>tonic\<close> and of the listeners: the router serves an address or
  the connections of a listener until it ends or fails.
\<close>

datatype 't ServeError = Transport 't | ServeIo io_error

record ('sock, 'l, 't, 's) router =
  router_serve :: "'sock \<Rightarrow> 's \<Rightarrow> ('t + unit) \<times> 's"
  router_serve_with_incoming :: "'l \<Rightarrow> 's \<Rightarrow> ('t + unit) \<times> 's"
  unix_bind :: "string \<Rightarrow> 's \<Rightarrow> (io_error + 'l) \<times> 's"
  vsock_bind :: "nat \<Rightarrow> nat \<Rightarrow> 's \<Rightarrow> (io_error + 'l) \<times> 's"

definition RpcServer_serve ::
  "('sock, 'l, 't, 's) router \<Rightarrow> 'sock Addr \<Rightarrow> ('s, 't ServeError, unit) action" where
  "RpcServer_serve R addr =
     (case addr of
        Addr_Tcp sock \<Rightarrow> map_err Transport (router_serve R sock)
      | Addr_Uds path \<Rightarrow>
          and_then (map_err ServeIo (unix_bind R path)) (\<lambda>listener.
          map_err Transport (router_serve_with_incoming R listener))
      | Addr_Vsock cid port \<Rightarrow>
          and_then (map_err ServeIo (vsock_bind R cid port)) (\<lambda>listener.
          map_err Transport (router_serve_with_incoming R listener)))"

text \<open>Nothing is served when the address cannot be bound, and that is the error.\<close>

lemma RpcServer_serve_bind_fails:
  "unix_bind R path s = (Inl e, s') \<Longrightarrow> RpcServer_serve R (Addr_Uds path) s = (Inl (ServeIo e), s')"
  "vsock_bind R cid port s = (Inl e, s') \<Longrightarrow> RpcServer_serve R (Addr_Vsock cid port) s = (Inl (ServeIo e), s')"
  by (simp_all add: RpcServer_serve_def and_then_def map_err_def)

section \<open>The run of a command\<close>

definition p9cpu_run ::
  "('a, 't) terminal \<Rightarrow> ('s, 'e, 'i) ClientInner \<Rightarrow> u8 list channel \<Rightarrow> Cmd \<Rightarrow>
   ('i, 's, 'a, 't, 'e, unit) client_act" where
  "p9cpu_run T R replies command =
     and_then (client_start R replies command) (\<lambda>_. client_wait T R)"

text \<open>
  The program: the address, the command, a client connected to the address (\<open>rpc_based\<close>, given
  what \<open>RpcClient::new\<close> returns, an error of which is unwrapped), and the run. With the client's
  state after the run, when there was one.
\<close>

datatype 'e app_end = EndOk | EndAddress string | EndBail string | EndFsTab FsTabError
  | EndClient "'e ClientError" | EndPanics

definition rpc_based :: "('sock Addr \<Rightarrow> 'x + 's) \<Rightarrow> 't \<Rightarrow> 'sock Addr \<Rightarrow> ('i, 's, 'a, 't) P9cpuClient option" where
  "rpc_based RpcClient_new terminal addr =
     (case RpcClient_new addr of
        Inl e \<Rightarrow> None
      | Inr inner \<Rightarrow> Some (P9cpuClient_new inner terminal))"

definition p9cpu_app ::
  "(string \<Rightarrow> string + 'sock) \<Rightarrow> ('sock Addr \<Rightarrow> 'x + 's) \<Rightarrow> ('a, 't) terminal \<Rightarrow> ('s, 'e, 'i) ClientInner \<Rightarrow>
   u8 list channel \<Rightarrow> 't \<Rightarrow> Net \<Rightarrow> string \<Rightarrow> nat \<Rightarrow> Args \<Rightarrow> string list option \<Rightarrow> (u8 list \<times> u8 list) list \<Rightarrow>
   'e app_end \<times> ('i, 's, 'a, 't) P9cpuClient option" where
  "p9cpu_app parse_sock RpcClient_new T R replies terminal net host port args fs_tab vars =
     (case p9cpu_addr parse_sock net host port of
        AddrPanics \<Rightarrow> (EndPanics, None)
      | AddrError e \<Rightarrow> (EndAddress e, None)
      | AddrOk addr \<Rightarrow>
          (case app_command args fs_tab vars of
             AppBail e \<Rightarrow> (EndBail e, None)
           | AppFsTab e \<Rightarrow> (EndFsTab e, None)
           | AppPanics \<Rightarrow> (EndPanics, None)
           | AppRuns command \<Rightarrow>
               (case rpc_based RpcClient_new terminal addr of
                  None \<Rightarrow> (EndPanics, None)
                | Some client \<Rightarrow>
                    (case p9cpu_run T R replies command client of
                       (Inl e, client') \<Rightarrow> (EndClient e, Some client')
                     | (Inr _, client') \<Rightarrow> (EndOk, Some client')))))"

text \<open>It ends well exactly when the arguments are in order and the command ran and was waited for.\<close>

lemma p9cpu_app_ok:
  "p9cpu_app parse_sock RpcClient_new T R replies terminal net host port args fs_tab vars = (EndOk, Some c) \<longleftrightarrow>
     (\<exists>addr command inner c'. p9cpu_addr parse_sock net host port = AddrOk addr \<and>
        app_command args fs_tab vars = AppRuns command \<and> RpcClient_new addr = Inr inner \<and>
        client_start R replies command (P9cpuClient_new inner terminal) = (Inr (), c') \<and>
        client_wait T R c' = (Inr (), c))"
  by (auto simp: p9cpu_app_def rpc_based_def p9cpu_run_def and_then_def
      split: addr_result.split app_result.split sum.splits prod.splits)

section \<open>The launcher process\<close>

text \<open>The command of the launcher: the program itself, with the port as an argument.\<close>

definition Launcher_launch :: "string \<Rightarrow> nat \<Rightarrow> string \<times> string list" where
  "Launcher_launch arg0 port = (arg0, [''--launch'', show_nat port])"

text \<open>The server at the address of the arguments; \<open>None\<close> is a panic.\<close>

definition p9cpud_app ::
  "(string \<Rightarrow> string + 'sock) \<Rightarrow> nat \<Rightarrow> ('sock, 'l, 't, 's) router \<Rightarrow> Net \<Rightarrow> nat \<Rightarrow> string option \<Rightarrow>
   's \<Rightarrow> ('t ServeError + unit) option \<times> 's" where
  "p9cpud_app parse_sock cid_any R net port uds s =
     (case p9cpud_addr parse_sock cid_any net port uds of
        AddrOk addr \<Rightarrow> (let (r, s') = RpcServer_serve R addr s in (Some r, s'))
      | _ \<Rightarrow> (None, s))"

definition p9cpud_main :: "(nat \<Rightarrow> 'r) \<Rightarrow> (unit \<Rightarrow> 'r) \<Rightarrow> nat option \<Rightarrow> 'r" where
  "p9cpud_main connect_to app launch =
     (case launch of Some port \<Rightarrow> connect_to port | None \<Rightarrow> app ())"

text \<open>The port comes through: what the process parses (as a \<open>u16\<close>) is what the server bound.\<close>

lemma Launcher_launch_port:
  "port < 2 ^ 16 \<Longrightarrow> parse_unsigned (2 ^ 16 - 1) (snd (Launcher_launch arg0 port) ! 1) = Inr port"
  by (simp add: Launcher_launch_def parse_unsigned_show)

lemma p9cpud_main_launch:
  assumes "port < 2 ^ 16" "parse_unsigned (2 ^ 16 - 1) (snd (Launcher_launch arg0 port) ! 1) = Inr launch"
  shows "p9cpud_main (connect K decode) app (Some launch) = connect K decode port"
proof -
  from assms(2) Launcher_launch_port [OF assms(1), of arg0] have "launch = port"
    by (metis sum.inject(2))
  then show ?thesis by (simp add: p9cpud_main_def)
qed

end
