(* ===== verification/P92000.thy ===== *)
theory P92000
  imports Fcall_Types
begin

text \<open>
  The module \<open>p92000\<close> of \<^verbatim>\<open>crates/9p/src/fcall.rs\<close>: the types of the old 9P2000 protocol, which
  9P2000.L does not use.
\<close>

definition V9FS_PORT :: u16 where "V9FS_PORT = 564"

section \<open>Modes\<close>

definition om_READ :: u8 where "om_READ = 0"
definition om_WRITE :: u8 where "om_WRITE = 1"
definition om_RDWR :: u8 where "om_RDWR = 2"
definition om_EXEC :: u8 where "om_EXEC = 3"
definition om_TRUNC :: u8 where "om_TRUNC = 16"
definition om_CEXEC :: u8 where "om_CEXEC = 32"
definition om_RCLOSE :: u8 where "om_RCLOSE = 64"

definition dm_DIR :: u32 where "dm_DIR = 0x80000000"
definition dm_APPEND :: u32 where "dm_APPEND = 0x40000000"
definition dm_EXCL :: u32 where "dm_EXCL = 0x20000000"
definition dm_MOUNT :: u32 where "dm_MOUNT = 0x10000000"
definition dm_AUTH :: u32 where "dm_AUTH = 0x08000000"
definition dm_TMP :: u32 where "dm_TMP = 0x04000000"
definition dm_READ :: u32 where "dm_READ = 0x4"
definition dm_WRITE :: u32 where "dm_WRITE = 0x2"
definition dm_EXEC :: u32 where "dm_EXEC = 0x1"

section \<open>Stat\<close>

record P92000_Stat =
  pstat_typ :: u16
  pstat_dev :: u32
  pstat_qid :: Qid
  pstat_mode :: u32
  pstat_atime :: u32
  pstat_mtime :: u32
  pstat_length :: u64
  pstat_name :: string
  pstat_uid :: string
  pstat_gid :: string
  pstat_muid :: string

text \<open>\<open>qid_mem\<close> is what \<open>size_of_val\<close> gives for a \<open>Qid\<close>: its size in memory, padding included.\<close>

definition P92000_Stat_size :: "nat \<Rightarrow> P92000_Stat \<Rightarrow> u16" where
  "P92000_Stat_size qid_mem s =
     of_nat (2 + 4 + qid_mem + 4 + 4 + 4 + 8 + 2 * 4 +
       length (pstat_name s) + length (pstat_uid s) + length (pstat_gid s) + length (pstat_muid s))"

text \<open>
  The bytes of the fields on the wire, each string after two bytes of length. With the 16 bytes
  a \<open>Qid\<close> takes in memory (it is aligned to 8) the size is 3 too large.
\<close>

definition P92000_Stat_wire :: "P92000_Stat \<Rightarrow> nat" where
  "P92000_Stat_wire s =
     2 + 4 + unat (Qid_size (pstat_qid s)) + 4 + 4 + 4 + 8 +
     sum_list (map (\<lambda>f. 2 + length (f s)) [pstat_name, pstat_uid, pstat_gid, pstat_muid])"

lemma P92000_Stat_size_16: "P92000_Stat_size 16 s = of_nat (P92000_Stat_wire s + 3)"
  by (simp add: P92000_Stat_size_def P92000_Stat_wire_def Qid_size_def)

end
