(* ===== verification/App_Properties.thy ===== *)
theory App_Properties
  imports Command_Properties Apps
begin

text \<open>
  What \<^verbatim>\<open>p9cpu\<close> as a whole comes to, over gRPC: how its run ends, and what the server has done by
  then.
\<close>

section \<open>How the program ends\<close>

lemma p9cpu_app_client:
  assumes "p9cpu_app parse_sock RpcClient_new T R replies terminal net host port args fs_tab vars = (ending, Some c2)"
  obtains addr command inner r where
    "p9cpu_addr parse_sock net host port = AddrOk addr" "app_command args fs_tab vars = AppRuns command"
    "RpcClient_new addr = Inr inner" "p9cpu_run T R replies command (P9cpuClient_new inner terminal) = (r, c2)"
    "ending = (case r of Inl e \<Rightarrow> EndClient e | Inr _ \<Rightarrow> EndOk)"
  using assms
  by (auto simp: p9cpu_app_def rpc_based_def split: addr_result.splits app_result.splits sum.splits prod.splits)

lemma p9cpu_run_cases:
  assumes "p9cpu_run T R replies command c = (r, c2)"
  obtains (fails) e where "client_start R replies command c = (Inl e, c2)" "r = Inl e"
    | (starts) c1 where "client_start R replies command c = (Inr (), c1)" "client_wait T R c1 = (r, c2)"
  using assms by (auto simp: p9cpu_run_def and_then_def split: prod.splits sum.splits)

lemma P9cpuClient_new_term [simp]: "cl_term (P9cpuClient_new inner terminal) = terminal"
  by (simp add: P9cpuClient_new_def)



end
