(* ===== verification/Locks.thy ===== *)
theory Locks
  imports Prelude
begin

text \<open>
  A machine of tasks that take locks, for the \<open>RwLock\<close> and \<open>Mutex\<close> of \<open>tokio\<close> as the sources use
  them: both are fair, a task that asks for a lock waits in its queue, and the first of the queue
  gets the lock as soon as nobody holds it in a conflicting mode. A task also spawns tasks, puts
  their handles away, and waits for tasks. It may end at any time: an early return drops what it
  holds, and so does a future that is dropped while it waits. The locale \<open>lock_order\<close> is the
  discipline under which no set of tasks ever waits for each other.
\<close>

section \<open>The machine\<close>

datatype mode = Shared | Exclusive

text \<open>
  What a task does, as far as others can notice. \<open>Work\<close> is anything that returns by itself, or when
  something outside happens. \<open>Put k\<close> stores the handle of the task spawned last in the slot \<open>k\<close>,
  \<open>Push k\<close> adds it to the list \<open>k\<close>, \<open>Take k k'\<close> moves the handles in \<open>k\<close> to \<open>k'\<close>, and \<open>JoinAll k\<close>
  waits for all tasks whose handles are in \<open>k\<close>. \<open>'l\<close> names the locks and \<open>'k\<close> the places for
  handles.
\<close>

datatype ('l, 'k) instr =
    Acquire 'l mode
  | Release 'l
  | Work
  | Spawn "('l, 'k) instr list"
  | Put 'k
  | Push 'k
  | Take 'k 'k
  | JoinAll 'k

text \<open>A task: what is left to do, the locks it holds, and the task it spawned last.\<close>

record ('l, 'k) task =
  tk_rest :: "('l, 'k) instr list"
  tk_held :: "('l \<times> mode) list"
  tk_child :: "nat option"

definition new_task :: "('l, 'k) instr list \<Rightarrow> ('l, 'k) task" where
  "new_task prog = \<lparr>tk_rest = prog, tk_held = [], tk_child = None\<rparr>"

text \<open>The tasks by number, the queue of each lock, and the handles that are stored.\<close>

record ('l, 'k) lock_system =
  ls_tasks :: "('l, 'k) task list"
  ls_queue :: "'l \<Rightarrow> (nat \<times> mode) list"
  ls_jobs :: "'k \<Rightarrow> nat list"

definition locks_new :: "('l, 'k) lock_system" where
  "locks_new = \<lparr>ls_tasks = [], ls_queue = (\<lambda>_. []), ls_jobs = (\<lambda>_. [])\<rparr>"

definition finished :: "('l, 'k) lock_system \<Rightarrow> nat \<Rightarrow> bool" where
  "finished s i \<longleftrightarrow> tk_rest (ls_tasks s ! i) = []"

fun conflicts :: "mode \<Rightarrow> mode \<Rightarrow> bool" where
  "conflicts Shared Shared = False"
| "conflicts _ _ = True"

definition may_get :: "('l, 'k) lock_system \<Rightarrow> 'l \<Rightarrow> mode \<Rightarrow> bool" where
  "may_get s l m \<longleftrightarrow> (\<forall>t\<in>set (ls_tasks s). \<forall>(l', m')\<in>set (tk_held t). l' = l \<longrightarrow> \<not> conflicts m m')"

definition set_task :: "nat \<Rightarrow> ('l, 'k) task \<Rightarrow> ('l, 'k) lock_system \<Rightarrow> ('l, 'k) lock_system" where
  "set_task i t s = s\<lparr>ls_tasks := (ls_tasks s)[i := t]\<rparr>"

text \<open>
  The next step of task \<open>i\<close>: \<open>None\<close> when it is done or has to wait. Asking for a lock and getting
  it are two steps.
\<close>

definition task_step :: "nat \<Rightarrow> ('l, 'k) lock_system \<Rightarrow> ('l, 'k) lock_system option" where
  "task_step i s =
     (let t = ls_tasks s ! i in
      case tk_rest t of
        [] \<Rightarrow> None
      | instr # rest \<Rightarrow>
          (case instr of
             Acquire l m \<Rightarrow>
               if (i, m) \<notin> set (ls_queue s l)
               then Some (s\<lparr>ls_queue := (ls_queue s)(l := ls_queue s l @ [(i, m)])\<rparr>)
               else if hd (ls_queue s l) = (i, m) \<and> may_get s l m
               then Some (set_task i (t\<lparr>tk_rest := rest, tk_held := (l, m) # tk_held t\<rparr>)
                 (s\<lparr>ls_queue := (ls_queue s)(l := tl (ls_queue s l))\<rparr>))
               else None
           | Release l \<Rightarrow>
               Some (set_task i (t\<lparr>tk_rest := rest, tk_held := filter (\<lambda>(l', m). l' \<noteq> l) (tk_held t)\<rparr>) s)
           | Work \<Rightarrow> Some (set_task i (t\<lparr>tk_rest := rest\<rparr>) s)
           | Spawn prog \<Rightarrow>
               (let s' = set_task i (t\<lparr>tk_rest := rest, tk_child := Some (length (ls_tasks s))\<rparr>) s
                in Some (s'\<lparr>ls_tasks := ls_tasks s' @ [new_task prog]\<rparr>))
           | Put k \<Rightarrow>
               Some (set_task i (t\<lparr>tk_rest := rest\<rparr>)
                 (s\<lparr>ls_jobs := (ls_jobs s)(k := case tk_child t of None \<Rightarrow> [] | Some j \<Rightarrow> [j])\<rparr>))
           | Push k \<Rightarrow>
               Some (set_task i (t\<lparr>tk_rest := rest\<rparr>)
                 (s\<lparr>ls_jobs := (ls_jobs s)(k := ls_jobs s k @ (case tk_child t of None \<Rightarrow> [] | Some j \<Rightarrow> [j]))\<rparr>))
           | Take k k' \<Rightarrow>
               Some (set_task i (t\<lparr>tk_rest := rest\<rparr>)
                 (s\<lparr>ls_jobs := (ls_jobs s)(k := [], k' := ls_jobs s k)\<rparr>))
           | JoinAll k \<Rightarrow>
               if list_all (finished s) (ls_jobs s k) then Some (set_task i (t\<lparr>tk_rest := rest\<rparr>) s) else None))"

text \<open>A task that ends early, wherever it is: it leaves the queues and drops its locks.\<close>

definition end_task :: "nat \<Rightarrow> ('l, 'k) lock_system \<Rightarrow> ('l, 'k) lock_system" where
  "end_task i s =
     set_task i (new_task [])
       (s\<lparr>ls_queue := (\<lambda>l. filter (\<lambda>(j, m). j \<noteq> i) (ls_queue s l))\<rparr>)"

text \<open>
  A step of the system by itself, and one that also lets tasks start, from the given programs,
  and end early.
\<close>

inductive lock_step :: "('l, 'k) lock_system \<Rightarrow> ('l, 'k) lock_system \<Rightarrow> bool" where
  "i < length (ls_tasks s) \<Longrightarrow> task_step i s = Some s' \<Longrightarrow> lock_step s s'"

inductive open_step ::
  "(('l, 'k) instr list \<Rightarrow> bool) \<Rightarrow> ('l, 'k) lock_system \<Rightarrow> ('l, 'k) lock_system \<Rightarrow> bool"
  for starts where
  proceeds: "lock_step s s' \<Longrightarrow> open_step starts s s'"
| arrives: "starts prog \<Longrightarrow> open_step starts s (s\<lparr>ls_tasks := ls_tasks s @ [new_task prog]\<rparr>)"
| ends: "i < length (ls_tasks s) \<Longrightarrow> open_step starts s (end_task i s)"

section \<open>The discipline\<close>

text \<open>
  Locks have ranks, and a task takes a lock only when those it holds have smaller ones. Waiting
  for tasks has a rank too, and the tasks that are spawned, whose handles may be waited for, only
  take locks above it. In the end nothing is held.
\<close>

fun spawnable :: "('l \<Rightarrow> nat) \<Rightarrow> nat \<Rightarrow> ('l, 'k) instr list \<Rightarrow> bool" where
  "spawnable rank join_rank [] = True"
| "spawnable rank join_rank (Acquire l m # is) = (join_rank < rank l \<and> spawnable rank join_rank is)"
| "spawnable rank join_rank (JoinAll k # is) = False"
| "spawnable rank join_rank (Spawn prog # is) = False"
| "spawnable rank join_rank (i # is) = spawnable rank join_rank is"

fun ordered :: "('l \<Rightarrow> nat) \<Rightarrow> nat \<Rightarrow> 'l list \<Rightarrow> ('l, 'k) instr list \<Rightarrow> bool" where
  "ordered rank join_rank held [] \<longleftrightarrow> held = []"
| "ordered rank join_rank held (Acquire l m # is) \<longleftrightarrow>
     list_all (\<lambda>h. rank h < rank l) held \<and> ordered rank join_rank (l # held) is"
| "ordered rank join_rank held (Release l # is) \<longleftrightarrow> ordered rank join_rank (filter (\<lambda>h. h \<noteq> l) held) is"
| "ordered rank join_rank held (JoinAll k # is) \<longleftrightarrow>
     list_all (\<lambda>h. rank h < join_rank) held \<and> ordered rank join_rank held is"
| "ordered rank join_rank held (Spawn prog # is) \<longleftrightarrow>
     spawnable rank join_rank prog \<and> ordered rank join_rank [] prog \<and> ordered rank join_rank held is"
| "ordered rank join_rank held (i # is) \<longleftrightarrow> ordered rank join_rank held is"

text \<open>How many steps a program takes, those of the tasks it spawns included.\<close>

fun instr_steps :: "('l, 'k) instr \<Rightarrow> nat" where
  "instr_steps (Acquire l m) = 2"
| "instr_steps (Spawn prog) = 1 + sum_list (map instr_steps prog)"
| "instr_steps i = 1"

definition prog_steps :: "('l, 'k) instr list \<Rightarrow> nat" where
  "prog_steps prog = sum_list (map instr_steps prog)"

definition waiting :: "('l, 'k) lock_system \<Rightarrow> nat \<Rightarrow> bool" where
  "waiting s i =
     (case tk_rest (ls_tasks s ! i) of Acquire l m # is \<Rightarrow> (i, m) \<in> set (ls_queue s l) | _ \<Rightarrow> False)"

definition left_of :: "('l, 'k) lock_system \<Rightarrow> nat \<Rightarrow> nat" where
  "left_of s i = prog_steps (tk_rest (ls_tasks s ! i)) - of_bool (waiting s i)"

definition steps_left :: "('l, 'k) lock_system \<Rightarrow> nat" where
  "steps_left s = (\<Sum>i<length (ls_tasks s). left_of s i)"

text \<open>The invariant, for the queues, the tasks and the handles.\<close>

definition queues_ok :: "('l, 'k) lock_system \<Rightarrow> bool" where
  "queues_ok s \<longleftrightarrow>
     (\<forall>l. distinct (map fst (ls_queue s l)) \<and>
        (\<forall>(i, m)\<in>set (ls_queue s l). i < length (ls_tasks s) \<and>
           (\<exists>is. tk_rest (ls_tasks s ! i) = Acquire l m # is)))"

definition job_ok :: "('l \<Rightarrow> nat) \<Rightarrow> nat \<Rightarrow> ('l, 'k) lock_system \<Rightarrow> nat \<Rightarrow> bool" where
  "job_ok rank join_rank s j \<longleftrightarrow>
     j < length (ls_tasks s) \<and> spawnable rank join_rank (tk_rest (ls_tasks s ! j))"

definition lock_inv :: "('l \<Rightarrow> nat) \<Rightarrow> nat \<Rightarrow> ('l, 'k) lock_system \<Rightarrow> bool" where
  "lock_inv rank join_rank s \<longleftrightarrow> queues_ok s \<and>
     (\<forall>i<length (ls_tasks s). ordered rank join_rank (map fst (tk_held (ls_tasks s ! i))) (tk_rest (ls_tasks s ! i))) \<and>
     (\<forall>k. list_all (job_ok rank join_rank s) (ls_jobs s k)) \<and>
     (\<forall>i<length (ls_tasks s). \<forall>j. tk_child (ls_tasks s ! i) = Some j \<longrightarrow> job_ok rank join_rank s j)"

section \<open>The invariant is kept\<close>

lemma set_task_simps [simp]:
  "ls_tasks (set_task i t s) = (ls_tasks s)[i := t]" "ls_queue (set_task i t s) = ls_queue s"
  "ls_jobs (set_task i t s) = ls_jobs s"
  by (simp_all add: set_task_def)

lemma new_task_simps [simp]: "tk_rest (new_task p) = p" "tk_held (new_task p) = []" "tk_child (new_task p) = None"
  by (simp_all add: new_task_def)

lemma queues_okD:
  assumes "queues_ok s" "(i, m) \<in> set (ls_queue s l)"
  shows "i < length (ls_tasks s)" "\<exists>is. tk_rest (ls_tasks s ! i) = Acquire l m # is"
  using assms unfolding queues_ok_def by fastforce+

text \<open>Only a task whose next instruction is to acquire a lock is in a queue, that of this lock.\<close>

lemma queued_head:
  assumes "queues_ok s" "tk_rest (ls_tasks s ! i) = instr # is" "(i, m) \<in> set (ls_queue s l)"
  shows "instr = Acquire l m"
  using queues_okD(2) [OF assms(1,3)] assms(2) by auto

text \<open>A step of a task that is in no queue leaves the queues in order, and so does a new task.\<close>

lemma queues_ok_set:
  assumes "queues_ok s" "\<And>l m. (i, m) \<notin> set (ls_queue s' l)"
    and "ls_tasks s' = (ls_tasks s)[i := t] @ more_tasks"
    and "\<And>l. set (ls_queue s' l) \<subseteq> set (ls_queue s l) \<and> distinct (map fst (ls_queue s' l))"
  shows "queues_ok s'"
  unfolding queues_ok_def
proof (intro allI conjI ballI, goal_cases)
  case (1 l)
  then show ?case using assms(4) by blast
next
  case (2 l x)
  obtain j m where x: "x = (j, m)" by (cases x)
  with 2 assms(2) have "j \<noteq> i" by blast
  moreover from 2 x assms(4) have "(j, m) \<in> set (ls_queue s l)" by blast
  ultimately show ?case
    using queues_okD [OF assms(1), of j m l] by (auto simp: x assms(3) nth_append)
qed

lemma queues_ok_same: "queues_ok s \<Longrightarrow> distinct (map fst (ls_queue s l))"
  unfolding queues_ok_def by blast

lemma job_ok_set:
  assumes "job_ok rank jr s j" "ls_tasks s' = (ls_tasks s)[i := t] @ more_tasks"
    and "spawnable rank jr (tk_rest (ls_tasks s ! i)) \<Longrightarrow> spawnable rank jr (tk_rest t)"
  shows "job_ok rank jr s' j"
  using assms unfolding job_ok_def by (cases "j = i") (auto simp: nth_append)

lemma spawnable_Cons: "spawnable rank jr (instr # is) \<Longrightarrow> spawnable rank jr is"
  by (cases instr) auto

lemma lock_invD:
  assumes "lock_inv rank jr s"
  shows "queues_ok s" "\<And>k j. j \<in> set (ls_jobs s k) \<Longrightarrow> job_ok rank jr s j"
    and "\<And>i. i < length (ls_tasks s) \<Longrightarrow>
      ordered rank jr (map fst (tk_held (ls_tasks s ! i))) (tk_rest (ls_tasks s ! i))"
    and "\<And>i j. i < length (ls_tasks s) \<Longrightarrow> tk_child (ls_tasks s ! i) = Some j \<Longrightarrow> job_ok rank jr s j"
  using assms unfolding lock_inv_def list_all_iff by blast+

text \<open>The invariant after a task moved, with its new program, locks and child.\<close>

lemma lock_inv_set:
  assumes "lock_inv rank jr s" "i < length (ls_tasks s)" "queues_ok s'"
    and tasks: "ls_tasks s' = (ls_tasks s)[i := t] @ map new_task progs"
    and "ordered rank jr (map fst (tk_held t)) (tk_rest t)"
    and "spawnable rank jr (tk_rest (ls_tasks s ! i)) \<Longrightarrow> spawnable rank jr (tk_rest t)"
    and "\<forall>p\<in>set progs. ordered rank jr [] p"
    and "\<And>j. tk_child t = Some j \<Longrightarrow> job_ok rank jr s' j"
    and "\<And>k. list_all (job_ok rank jr s') (ls_jobs s' k)"
  shows "lock_inv rank jr s'"
proof -
  note keep = job_ok_set [OF _ tasks assms(6)]
  have "ordered rank jr (map fst (tk_held (ls_tasks s' ! j))) (tk_rest (ls_tasks s' ! j))"
    if "j < length (ls_tasks s')" for j
    using assms(1,2,5,7) that unfolding lock_inv_def
    by (cases "j < length (ls_tasks s)"; cases "j = i") (auto simp: tasks nth_append)
  moreover have "job_ok rank jr s' j'"
    if "j < length (ls_tasks s')" "tk_child (ls_tasks s' ! j) = Some j'" for j j'
  proof (cases "j < length (ls_tasks s) \<and> j \<noteq> i")
    case True
    with that(2) have "tk_child (ls_tasks s ! j) = Some j'" by (simp add: tasks nth_append)
    with True assms(1) show ?thesis unfolding lock_inv_def by (intro keep) blast
  next
    case False
    with that assms(2,8) show ?thesis by (cases "j = i") (auto simp: tasks nth_append)
  qed
  ultimately show ?thesis using assms(3,9) unfolding lock_inv_def by blast
qed

text \<open>Where nothing but the task changes: the queues, when it waits for no lock.\<close>

lemma queues_ok_moved:
  assumes "queues_ok s" "tk_rest (ls_tasks s ! i) = instr # is" "\<And>l m. instr \<noteq> Acquire l m"
    and "ls_tasks s' = (ls_tasks s)[i := t] @ more_tasks" "ls_queue s' = ls_queue s"
  shows "queues_ok s'"
proof (rule queues_ok_set [OF assms(1) _ assms(4)])
  show "(i, m) \<notin> set (ls_queue s' l)" for l m
    using queued_head [OF assms(1,2)] assms(3,5) by metis
qed (simp add: assms(5) queues_ok_same [OF assms(1)])

lemma lock_inv_moved:
  assumes inv: "lock_inv rank jr s" and i: "i < length (ls_tasks s)"
    and rest: "tk_rest (ls_tasks s ! i) = instr # is" and instr: "\<And>l m. instr \<noteq> Acquire l m"
    and tasks: "ls_tasks s' = (ls_tasks s)[i := t] @ map new_task progs" "ls_queue s' = ls_queue s"
    and t: "tk_rest t = is" "ordered rank jr (map fst (tk_held t)) is"
    and progs: "\<forall>p\<in>set progs. ordered rank jr [] p"
    and child: "\<And>j. tk_child t = Some j \<Longrightarrow> tk_child (ls_tasks s ! i) = Some j \<or>
      (j = length (ls_tasks s) \<and> (\<exists>p ps. progs = p # ps \<and> spawnable rank jr p))"
    and jobs: "\<And>k j. j \<in> set (ls_jobs s' k) \<Longrightarrow>
      (\<exists>k. j \<in> set (ls_jobs s k)) \<or> tk_child (ls_tasks s ! i) = Some j"
  shows "lock_inv rank jr s'"
proof -
  have spawn: "spawnable rank jr (tk_rest (ls_tasks s ! i)) \<Longrightarrow> spawnable rank jr (tk_rest t)"
    using spawnable_Cons by (simp add: rest t(1)) blast
  note keep = job_ok_set [OF _ tasks(1) spawn]
  have own: "job_ok rank jr s' j" if "tk_child (ls_tasks s ! i) = Some j" for j
    using lock_invD(4) [OF inv i that] by (rule keep)
  have "job_ok rank jr s' j" if "tk_child t = Some j" for j
    using child [OF that] own by (auto simp: job_ok_def tasks(1) nth_append)
  moreover have "list_all (job_ok rank jr s') (ls_jobs s' k)" for k
    unfolding list_all_iff
  proof
    fix j
    assume "j \<in> set (ls_jobs s' k)"
    from jobs [OF this] show "job_ok rank jr s' j"
      using own keep [OF lock_invD(2) [OF inv]] by blast
  qed
  moreover have "queues_ok s'"
    by (rule queues_ok_moved [OF lock_invD(1) [OF inv] rest instr tasks])
  ultimately show ?thesis
    using t progs by (intro lock_inv_set [OF inv i _ tasks(1) _ spawn]) auto
qed

lemma map_fst_filter: "map fst (filter (\<lambda>(a, b). P a) xs) = filter P (map fst xs)"
  by (induction xs) auto

lemma lock_inv_acquire:
  assumes inv: "lock_inv rank jr s" and i: "i < length (ls_tasks s)"
    and rest: "tk_rest (ls_tasks s ! i) = Acquire l m # is" and step: "task_step i s = Some s'"
  shows "lock_inv rank jr s'"
proof (cases "(i, m) \<in> set (ls_queue s l)")
  case False
  with step rest have s': "s' = s\<lparr>ls_queue := (ls_queue s)(l := ls_queue s l @ [(i, m)])\<rparr>"
    by (simp add: task_step_def)
  have "i \<notin> fst ` set (ls_queue s l)"
    using False queued_head [OF _ rest, of _ l] inv unfolding lock_inv_def by force
  then have "queues_ok s'"
    using inv i rest unfolding lock_inv_def queues_ok_def by (auto simp: s')
  then show ?thesis
    using inv unfolding lock_inv_def by (simp add: s' job_ok_def [abs_def])
next
  case True
  let ?t = "(ls_tasks s ! i)\<lparr>tk_rest := is, tk_held := (l, m) # tk_held (ls_tasks s ! i)\<rparr>"
  from True step rest have s': "hd (ls_queue s l) = (i, m)"
    "s' = set_task i ?t (s\<lparr>ls_queue := (ls_queue s)(l := tl (ls_queue s l))\<rparr>)"
    by (auto simp: task_step_def Let_def split: if_splits)
  from True s'(1) obtain q where q: "ls_queue s l = (i, m) # q" by (cases "ls_queue s l") auto
  have ok: "queues_ok s" using inv unfolding lock_inv_def by blast
  have tasks: "ls_tasks s' = (ls_tasks s)[i := ?t] @ map new_task []" by (simp add: s'(2))
  have "queues_ok s'"
  proof (rule queues_ok_set [OF ok _ tasks])
    show "(i, m') \<notin> set (ls_queue s' l')" for l' m'
      using queued_head [OF ok rest, of m' l'] queues_ok_same [OF ok, of l]
      by (cases "l' = l") (force simp: s'(2) q)+
    show "set (ls_queue s' l') \<subseteq> set (ls_queue s l') \<and> distinct (map fst (ls_queue s' l'))" for l'
      using queues_ok_same [OF ok, of l'] by (cases "l' = l") (auto simp: s'(2) q)
  qed
  moreover have spawn: "spawnable rank jr (tk_rest (ls_tasks s ! i)) \<Longrightarrow> spawnable rank jr (tk_rest ?t)"
    by (simp add: rest)
  note keep = job_ok_set [OF _ tasks spawn]
  moreover have "ordered rank jr (map fst (tk_held (ls_tasks s ! i))) (Acquire l m # is)"
    using inv i rest unfolding lock_inv_def by metis
  moreover have "list_all (job_ok rank jr s') (ls_jobs s' k)" for k
    using lock_invD(2) [OF inv] keep by (simp add: s'(2) list_all_iff)
  moreover have "job_ok rank jr s' j" if "tk_child ?t = Some j" for j
    using lock_invD(4) [OF inv i] that by (intro keep) simp
  ultimately show ?thesis
    by (intro lock_inv_set [OF inv i _ tasks _ spawn]) auto
qed

lemma lock_inv_task_step:
  assumes inv: "lock_inv rank jr s" and i: "i < length (ls_tasks s)" and step: "task_step i s = Some s'"
  shows "lock_inv rank jr s'"
proof (cases "tk_rest (ls_tasks s ! i)")
  case Nil
  with step show ?thesis by (simp add: task_step_def)
next
  case rest: (Cons instr "is")
  note ord = lock_invD(3) [OF inv i, unfolded rest]
  note moved = lock_inv_moved [OF inv i rest]
  show ?thesis
  proof (cases instr)
    case (Acquire l m)
    with rest show ?thesis using lock_inv_acquire [OF inv i _ step] by simp
  next
    case (Release l)
    with step rest have "s' = set_task i ((ls_tasks s ! i)\<lparr>tk_rest := is,
        tk_held := filter (\<lambda>(l', m). l' \<noteq> l) (tk_held (ls_tasks s ! i))\<rparr>) s"
      by (auto simp: task_step_def Let_def split: if_splits)
    with Release ord show ?thesis
      by (intro moved [of _ "(ls_tasks s ! i)\<lparr>tk_rest := is,
        tk_held := filter (\<lambda>(l', m). l' \<noteq> l) (tk_held (ls_tasks s ! i))\<rparr>" "[]"]) (auto split: if_splits option.splits simp: map_fst_filter)
  next
    case Work
    with step rest have "s' = set_task i ((ls_tasks s ! i)\<lparr>tk_rest := is\<rparr>) s"
      by (auto simp: task_step_def Let_def split: if_splits)
    with Work ord show ?thesis
      by (intro moved [of _ "(ls_tasks s ! i)\<lparr>tk_rest := is\<rparr>" "[]"]) (auto split: if_splits option.splits simp: map_fst_filter)
  next
    case (Spawn prog)
    with step rest have "s' = set_task i ((ls_tasks s ! i)\<lparr>tk_rest := is, tk_child := Some (length (ls_tasks s))\<rparr>) s
        \<lparr>ls_tasks := ls_tasks (set_task i ((ls_tasks s ! i)\<lparr>tk_rest := is, tk_child := Some (length (ls_tasks s))\<rparr>) s) @ [new_task prog]\<rparr>"
      by (auto simp: task_step_def Let_def split: if_splits)
    with Spawn ord show ?thesis
      by (intro moved [of _ "(ls_tasks s ! i)\<lparr>tk_rest := is, tk_child := Some (length (ls_tasks s))\<rparr>" "[prog]"]) (auto split: if_splits option.splits simp: map_fst_filter)
  next
    case (Put k)
    with step rest have "s' = set_task i ((ls_tasks s ! i)\<lparr>tk_rest := is\<rparr>) (s\<lparr>ls_jobs := (ls_jobs s)(k := (case tk_child (ls_tasks s ! i) of None \<Rightarrow> [] | Some j \<Rightarrow> [j]))\<rparr>)"
      by (auto simp: task_step_def Let_def split: if_splits)
    with Put ord show ?thesis
      by (intro moved [of _ "(ls_tasks s ! i)\<lparr>tk_rest := is\<rparr>" "[]"]) (auto split: if_splits option.splits simp: map_fst_filter)
  next
    case (Push k)
    with step rest have "s' = set_task i ((ls_tasks s ! i)\<lparr>tk_rest := is\<rparr>) (s\<lparr>ls_jobs := (ls_jobs s)(k := ls_jobs s k @ (case tk_child (ls_tasks s ! i) of None \<Rightarrow> [] | Some j \<Rightarrow> [j]))\<rparr>)"
      by (auto simp: task_step_def Let_def split: if_splits)
    with Push ord show ?thesis
      by (intro moved [of _ "(ls_tasks s ! i)\<lparr>tk_rest := is\<rparr>" "[]"]) (auto split: if_splits option.splits simp: map_fst_filter)
  next
    case (Take k k')
    with step rest have "s' = set_task i ((ls_tasks s ! i)\<lparr>tk_rest := is\<rparr>) (s\<lparr>ls_jobs := (ls_jobs s)(k := [], k' := ls_jobs s k)\<rparr>)"
      by (auto simp: task_step_def Let_def split: if_splits)
    with Take ord show ?thesis
      by (intro moved [of _ "(ls_tasks s ! i)\<lparr>tk_rest := is\<rparr>" "[]"]) (auto split: if_splits option.splits simp: map_fst_filter)
  next
    case (JoinAll k)
    with step rest have "s' = set_task i ((ls_tasks s ! i)\<lparr>tk_rest := is\<rparr>) s"
      by (auto simp: task_step_def Let_def split: if_splits)
    with JoinAll ord show ?thesis
      by (intro moved [of _ "(ls_tasks s ! i)\<lparr>tk_rest := is\<rparr>" "[]"]) (auto split: if_splits option.splits simp: map_fst_filter)
  qed
qed

lemma lock_inv_arrive:
  assumes "lock_inv rank jr s" "ordered rank jr [] prog"
  shows "lock_inv rank jr (s\<lparr>ls_tasks := ls_tasks s @ [new_task prog]\<rparr>)"
proof -
  have "job_ok rank jr s j \<Longrightarrow> job_ok rank jr (s\<lparr>ls_tasks := ls_tasks s @ [new_task prog]\<rparr>) j" for j
    by (simp add: job_ok_def nth_append)
  moreover have "queues_ok (s\<lparr>ls_tasks := ls_tasks s @ [new_task prog]\<rparr>)"
    using lock_invD(1) [OF assms(1)] unfolding queues_ok_def by (fastforce simp: nth_append)
  ultimately show ?thesis
    using assms unfolding lock_inv_def by (auto simp: nth_append list_all_iff less_Suc_eq)
qed

lemma lock_inv_end:
  assumes "lock_inv rank jr s" "i < length (ls_tasks s)"
  shows "lock_inv rank jr (end_task i s)"
proof -
  have tasks: "ls_tasks (end_task i s) = (ls_tasks s)[i := new_task []] @ map new_task []"
    by (simp add: end_task_def)
  note keep = job_ok_set [OF _ tasks]
  have "queues_ok (end_task i s)"
  proof (rule queues_ok_set [OF lock_invD(1) [OF assms(1)] _ tasks])
    show "(i, m) \<notin> set (ls_queue (end_task i s) l)" for l m by (simp add: end_task_def)
    show "set (ls_queue (end_task i s) l) \<subseteq> set (ls_queue s l) \<and> distinct (map fst (ls_queue (end_task i s) l))" for l
      using queues_ok_same [OF lock_invD(1) [OF assms(1)], of l]
      by (auto simp: end_task_def distinct_map inj_on_def)
  qed
  moreover have "list_all (job_ok rank jr (end_task i s)) (ls_jobs (end_task i s) k)" for k
    using lock_invD(2) [OF assms(1)] keep by (simp add: end_task_def list_all_iff)
  ultimately show ?thesis
    by (intro lock_inv_set [OF assms _ tasks]) auto
qed

section \<open>Progress\<close>

text \<open>A task that cannot step waits for a lock, in its queue, or for another task.\<close>

lemma stuck_cases:
  assumes "\<not> finished s i" "task_step i s = None"
  obtains l m "is" where "tk_rest (ls_tasks s ! i) = Acquire l m # is" "(i, m) \<in> set (ls_queue s l)"
      "hd (ls_queue s l) = (i, m) \<longrightarrow> \<not> may_get s l m"
    | k "is" j where "tk_rest (ls_tasks s ! i) = JoinAll k # is" "j \<in> set (ls_jobs s k)" "\<not> finished s j"
proof (cases "tk_rest (ls_tasks s ! i)")
  case Nil
  with assms(1) show ?thesis by (simp add: finished_def)
next
  case (Cons instr "is")
  with assms(2) that show ?thesis
    by (cases instr) (auto simp: task_step_def Let_def list_all_iff split: if_splits)
qed

definition wait_rank :: "('l \<Rightarrow> nat) \<Rightarrow> nat \<Rightarrow> ('l, 'k) lock_system \<Rightarrow> nat \<Rightarrow> nat" where
  "wait_rank rank join_rank s i =
     (case tk_rest (ls_tasks s ! i) of Acquire l m # is \<Rightarrow> rank l | _ \<Rightarrow> join_rank)"

text \<open>Who holds a lock and cannot go on waits for something of a greater rank.\<close>

lemma holder_waits_above:
  assumes "lock_inv rank jr s" "i < length (ls_tasks s)" "(l, m) \<in> set (tk_held (ls_tasks s ! i))"
    and "task_step i s = None"
  shows "\<not> finished s i \<and> rank l < wait_rank rank jr s i"
proof
  note ord = lock_invD(3) [OF assms(1,2)]
  show unfinished: "\<not> finished s i"
    using ord assms(3) by (auto simp: finished_def)
  show "rank l < wait_rank rank jr s i"
    using stuck_cases [OF unfinished assms(4)] ord assms(3)
    by cases (auto simp: wait_rank_def list_all_iff)
qed

lemma exists_greatest:
  assumes "finite U" "U \<noteq> {}"
  obtains i where "i \<in> U" "\<And>j. j \<in> U \<Longrightarrow> (f j :: nat) \<le> f i"
proof -
  from assms have "Max (f ` U) \<in> f ` U" by simp
  then obtain i where "i \<in> U" "f i = Max (f ` U)" by auto
  with assms that show ?thesis by simp
qed

lemma lock_progress:
  assumes inv: "lock_inv rank jr s" and "\<exists>i<length (ls_tasks s). \<not> finished s i"
  shows "\<exists>s'. lock_step s s'"
proof (rule ccontr)
  assume "\<not> ?thesis"
  then have stuck: "task_step i s = None" if "i < length (ls_tasks s)" for i
    using that by (metis lock_step.intros not_None_eq)
  let ?U = "{i. i < length (ls_tasks s) \<and> \<not> finished s i}"
  have U: "finite ?U" "?U \<noteq> {}" using assms(2) by auto
  obtain i where i: "i \<in> ?U" and greatest: "\<And>j. j \<in> ?U \<Longrightarrow> wait_rank rank jr s j \<le> wait_rank rank jr s i"
    using exists_greatest [OF U] by blast
  from i have "\<not> finished s i" "task_step i s = None" using stuck by simp_all
  then show False
  proof (cases rule: stuck_cases)
    case (1 l m "is")
    from 1(2) obtain j m' q where q: "ls_queue s l = (j, m') # q" by (cases "ls_queue s l") auto
    then have j: "j < length (ls_tasks s)" "\<exists>is. tk_rest (ls_tasks s ! j) = Acquire l m' # is"
      using queues_okD [OF lock_invD(1) [OF inv], of j m' l] by auto
    then have "\<not> may_get s l m'"
      using stuck [OF j(1)] q by (auto simp: task_step_def finished_def Let_def split: if_splits)
    then obtain t m'' where "t \<in> set (ls_tasks s)" "(l, m'') \<in> set (tk_held t)"
      by (auto simp: may_get_def)
    then obtain n where n: "n < length (ls_tasks s)" "(l, m'') \<in> set (tk_held (ls_tasks s ! n))"
      by (metis in_set_conv_nth)
    from holder_waits_above [OF inv n stuck [OF n(1)]] n(1) greatest [of n]
    have "rank l < wait_rank rank jr s i" by simp
    with 1(1) show False by (simp add: wait_rank_def)
  next
    case (2 k "is" j)
    from lock_invD(2) [OF inv 2(2)] have j: "j < length (ls_tasks s)" "spawnable rank jr (tk_rest (ls_tasks s ! j))"
      by (simp_all add: job_ok_def)
    from 2(3) stuck [OF j(1)] have "jr < wait_rank rank jr s j"
      using j(2) by (cases rule: stuck_cases) (auto simp: wait_rank_def)
    with greatest [of j] j(1) 2(1,3) show False by (simp add: wait_rank_def)
  qed
qed

section \<open>Every task gets to its end\<close>

lemma prog_steps_simps [simp]: "prog_steps [] = 0" "prog_steps (i # is) = instr_steps i + prog_steps is"
  by (simp_all add: prog_steps_def)

lemma sum_lessThan_split: "(\<Sum>j<m + n. f j) = (\<Sum>j<m. f j) + (\<Sum>j<n. f (m + j :: nat) :: nat)"
  by (induction n) (simp_all add: algebra_simps)

lemma left_of_new: "tk_rest (ls_tasks s ! j) = prog \<Longrightarrow> left_of s j \<le> prog_steps prog"
  by (simp add: left_of_def)

lemma steps_left_less:
  assumes i: "i < length (ls_tasks s)" and tasks: "ls_tasks s' = (ls_tasks s)[i := t] @ map new_task progs"
    and queue: "\<And>j m l. j \<noteq> i \<Longrightarrow> (j, m) \<in> set (ls_queue s' l) \<longleftrightarrow> (j, m) \<in> set (ls_queue s l)"
    and less: "left_of s' i + sum_list (map prog_steps progs) < left_of s i"
  shows "steps_left s' < steps_left s"
proof -
  let ?n = "length (ls_tasks s)"
  have same: "left_of s' j = left_of s j" if "j < ?n" "j \<noteq> i" for j
    using that queue [of j] by (simp add: left_of_def waiting_def tasks nth_append cong: list.case_cong instr.case_cong)
  have "(\<Sum>j<length progs. left_of s' (?n + j)) \<le> (\<Sum>j<length progs. prog_steps (progs ! j))"
    by (intro sum_mono left_of_new) (simp add: tasks nth_append)
  also have "\<dots> = sum_list (map prog_steps progs)"
    by (simp add: sum_list_sum_nth atLeast0LessThan)
  finally have new: "(\<Sum>j<length progs. left_of s' (?n + j)) \<le> sum_list (map prog_steps progs)" .
  have "(\<Sum>j<?n. left_of s' j) = left_of s' i + (\<Sum>j\<in>{..<?n} - {i}. left_of s j)"
    using i by (subst sum.remove [of _ i]) (auto intro!: sum.cong simp: same)
  moreover have "(\<Sum>j<?n. left_of s j) = left_of s i + (\<Sum>j\<in>{..<?n} - {i}. left_of s j)"
    using i by (subst sum.remove [of _ i]) auto
  moreover have "steps_left s' = (\<Sum>j<?n. left_of s' j) + (\<Sum>j<length progs. left_of s' (?n + j))"
    by (simp add: steps_left_def tasks sum_lessThan_split)
  ultimately show ?thesis using new less by (simp add: steps_left_def)
qed

lemma lock_step_left:
  assumes inv: "lock_inv rank jr s" and i: "i < length (ls_tasks s)" and step: "task_step i s = Some s'"
  shows "steps_left s' < steps_left s"
proof (cases "tk_rest (ls_tasks s ! i)")
  case Nil
  with step show ?thesis by (simp add: task_step_def)
next
  case rest: (Cons instr "is")
  show ?thesis
  proof (cases "\<exists>l m. instr = Acquire l m")
    case True
    then obtain l m where [simp]: "instr = Acquire l m" by blast
    have first: "y \<in> set (ls_queue s l) \<longleftrightarrow> y = x \<or> y \<in> set (tl (ls_queue s l))"
      if "x \<in> set (ls_queue s l)" "hd (ls_queue s l) = x" for x y
      using that by (cases "ls_queue s l") auto
    show ?thesis
      using step rest i
      by (intro steps_left_less [OF i, of s' "ls_tasks s' ! i" "[]"])
        (auto simp: task_step_def Let_def left_of_def waiting_def first [of "(i, m)"]
          split: if_splits list.splits instr.splits)
  next
    case False
    have "left_of s i = instr_steps instr + prog_steps is"
      using rest False by (auto simp: left_of_def waiting_def split: instr.split)
    moreover let ?progs = "case instr of Spawn prog \<Rightarrow> [prog] | _ \<Rightarrow> []"
    have "ls_queue s' = ls_queue s \<and> tk_rest (ls_tasks s' ! i) = is \<and>
        ls_tasks s' = (ls_tasks s)[i := ls_tasks s' ! i] @ map new_task ?progs"
      using step rest i False
      by (cases instr) (auto simp: task_step_def Let_def nth_append split: if_splits)
    moreover have "sum_list (map prog_steps ?progs) < instr_steps instr"
      by (cases instr) (simp_all add: prog_steps_def)
    ultimately show ?thesis
      using left_of_new [of s' i "is"] by (intro steps_left_less [OF i, of s' "ls_tasks s' ! i" ?progs]) auto
  qed
qed

section \<open>Early returns and schedules\<close>

text \<open>
  What is left of a program when it returns after so many instructions: the guards it has are
  dropped.
\<close>

fun cut_short :: "nat \<Rightarrow> 'l list \<Rightarrow> ('l, 'k) instr list \<Rightarrow> ('l, 'k) instr list" where
  "cut_short n held [] = []"
| "cut_short 0 held (i # is) = map Release held"
| "cut_short (Suc n) held (i # is) =
     i # cut_short n (case i of Acquire l m \<Rightarrow> l # held | Release l \<Rightarrow> filter (\<lambda>h. h \<noteq> l) held | _ \<Rightarrow> held) is"

lemma ordered_releases:
  "ordered rank jr [] rest \<Longrightarrow> set held \<subseteq> set ls \<Longrightarrow> ordered rank jr held (map Release ls @ rest)"
proof (induction ls arbitrary: held)
  case (Cons l ls)
  then have "set (filter (\<lambda>h. h \<noteq> l) held) \<subseteq> set ls" by auto
  with Cons show ?case by simp
qed simp

lemma ordered_cut_short:
  assumes "ordered rank jr held prog" "ordered rank jr [] rest"
  shows "ordered rank jr held (cut_short n held prog @ rest)"
  using assms
proof (induction n held prog rule: cut_short.induct)
  case (3 n held i "is")
  then show ?case by (cases i) simp_all
qed (simp_all add: ordered_releases)

text \<open>The steps of the tasks with the given numbers, one after the other.\<close>

fun lock_run :: "nat list \<Rightarrow> ('l, 'k) lock_system \<Rightarrow> ('l, 'k) lock_system option" where
  "lock_run [] s = Some s"
| "lock_run (i # is) s =
     (if i < length (ls_tasks s) then Option.bind (task_step i s) (lock_run is) else None)"

lemma lock_run_steps: "lock_run is s = Some s' \<Longrightarrow> (lock_step ^^ length is) s s'"
  by (induction "is" s rule: lock_run.induct)
    (auto simp del: relpowp.simps(2) split: if_splits bind_splits intro: relpowp_Suc_I2 lock_step.intros)

text \<open>A system in which tasks with the given programs have arrived.\<close>

definition arrived :: "('l, 'k) instr list list \<Rightarrow> ('l, 'k) lock_system" where
  "arrived progs = locks_new\<lparr>ls_tasks := map new_task progs\<rparr>"

lemma arrived_reachable: "list_all starts progs \<Longrightarrow> (open_step starts)\<^sup>*\<^sup>* locks_new (arrived progs)"
proof (induction progs rule: rev_induct)
  case Nil
  show ?case by (simp add: arrived_def locks_new_def)
next
  case (snoc p ps)
  have "open_step starts (arrived ps) (arrived (ps @ [p]))"
    using arrives [of starts p "arrived ps"] snoc.prems by (simp add: arrived_def)
  with snoc show ?case by (simp add: rtranclp.rtrancl_into_rtrancl)
qed

section \<open>The interface\<close>

text \<open>A system whose tasks all keep to the order of the locks.\<close>

locale lock_order =
  fixes rank :: "'l \<Rightarrow> nat" and join_rank :: nat and starts :: "('l, 'k) instr list \<Rightarrow> bool"
  assumes ordered: "starts prog \<Longrightarrow> ordered rank join_rank [] prog"
begin

lemma inv_step: "open_step starts s s' \<Longrightarrow> lock_inv rank join_rank s \<Longrightarrow> lock_inv rank join_rank s'"
  by (auto elim!: open_step.cases lock_step.cases
      intro: lock_inv_task_step lock_inv_arrive ordered lock_inv_end)

lemma inv_reachable: "(open_step starts)\<^sup>*\<^sup>* locks_new s \<Longrightarrow> lock_inv rank join_rank s"
proof (induction rule: rtranclp_induct)
  case base
  show ?case by (simp add: lock_inv_def queues_ok_def locks_new_def)
qed (rule inv_step)

text \<open>Unless all tasks are done, one of them can go on by itself.\<close>

lemma no_deadlock:
  "(open_step starts)\<^sup>*\<^sup>* locks_new s \<Longrightarrow> (\<forall>i<length (ls_tasks s). finished s i) \<or> (\<exists>s'. lock_step s s')"
  using lock_progress [OF inv_reachable] by blast

lemma step_left: "lock_inv rank join_rank s \<Longrightarrow> lock_step s s' \<Longrightarrow> steps_left s' < steps_left s"
  by (auto elim!: lock_step.cases intro: lock_step_left)

lemma inv_lock_step: "lock_step s s' \<Longrightarrow> lock_inv rank join_rank s \<Longrightarrow> lock_inv rank join_rank s'"
  by (auto elim!: lock_step.cases intro: lock_inv_task_step)

text \<open>When no more tasks start, the steps left bound the steps of any run, and it ends well.\<close>

lemma steps_bounded:
  assumes "lock_inv rank join_rank s" "(lock_step ^^ n) s s'"
  shows "n + steps_left s' \<le> steps_left s \<and> lock_inv rank join_rank s'"
  using assms(2)
proof (induction n arbitrary: s')
  case 0
  with assms(1) show ?case by simp
next
  case (Suc n)
  then obtain u where "(lock_step ^^ n) s u" "lock_step u s'" by auto
  with Suc.IH [of u] step_left [of u s'] inv_lock_step [of u s'] show ?case by simp
qed

lemma all_finish:
  assumes "(open_step starts)\<^sup>*\<^sup>* locks_new s" "(lock_step ^^ n) s s'"
  shows "n \<le> steps_left s \<and> ((\<forall>i<length (ls_tasks s'). finished s' i) \<or> (\<exists>u. lock_step s' u))"
proof -
  from steps_bounded [OF inv_reachable [OF assms(1)] assms(2)] have
    "n \<le> steps_left s" "lock_inv rank join_rank s'" by simp_all
  with lock_progress [of rank join_rank s'] show ?thesis by blast
qed

end

end
