(* ===== verification/Server_Locks.thy ===== *)
theory Server_Locks
  imports Locks
begin

text \<open>
  The locks of the session server, \<^verbatim>\<open>crates/libp9cpu/src/server.rs\<close>: the tables of pending and running
  sessions and the parts of each session are behind \<open>RwLock\<close>s. Each operation is the program of
  what it locks, spawns and waits for, in the order of the code. A session, pending or running,
  is an object of its own (\<open>'k\<close>); what a lookup finds is an argument of the programs. An error
  is a task that ends early.
\<close>

section \<open>The operations\<close>

datatype 'k server_lock =
    PendingTable | SessionTable
  | NinepOf 'k | StdinOf 'k | StdoutOf 'k | StderrOf 'k | ChildOf 'k | HandlesOf 'k

text \<open>Where handles of tasks are kept: the \<open>ninep\<close> of a pending session, the \<open>handles\<close> of a running one.\<close>

datatype 'k server_jobs = NinepJob 'k | SessionJobs 'k

type_synonym 'k server_code = "('k server_lock, 'k server_jobs) instr list"

definition get_session_locks :: "'k server_code" where
  "get_session_locks = [Acquire SessionTable Shared, Release SessionTable]"

definition dial_locks :: "'k server_code" where
  "dial_locks = [Acquire PendingTable Exclusive, Release PendingTable]"

text \<open>The listener is bound and the forwarding task spawned under the lock of the pending sessions.\<close>

definition ninep_forward_locks :: "'k \<Rightarrow> 'k server_code" where
  "ninep_forward_locks p =
     [Acquire PendingTable Exclusive, Work, Spawn [Work],
      Acquire (NinepOf p) Exclusive, Put (NinepJob p), Release (NinepOf p), Release PendingTable]"

text \<open>Everything from the lookup on, the launcher's connection included, is under the lock of the sessions.\<close>

definition start_locks :: "'k \<Rightarrow> 'k \<Rightarrow> 'k server_code" where
  "start_locks p k =
     [Acquire PendingTable Exclusive, Release PendingTable, Acquire SessionTable Exclusive,
      Acquire (NinepOf p) Exclusive, Take (NinepJob p) (SessionJobs k), Release (NinepOf p),
      Work, Release SessionTable]"

definition stdin_locks :: "'k \<Rightarrow> 'k server_code" where
  "stdin_locks k = get_session_locks @ [Acquire (StdinOf k) Exclusive, Work, Release (StdinOf k)]"

definition output_locks :: "'k server_lock \<Rightarrow> 'k \<Rightarrow> 'k server_code" where
  "output_locks out k =
     get_session_locks @ [Spawn [Acquire out Exclusive, Work, Release out]] @ get_session_locks @
     [Acquire (HandlesOf k) Exclusive, Push (SessionJobs k), Release (HandlesOf k)]"

definition stdout_locks :: "'k \<Rightarrow> 'k \<Rightarrow> 'k server_code" where
  "stdout_locks k k' = output_locks (StdoutOf k) k'"

definition stderr_locks :: "'k \<Rightarrow> 'k \<Rightarrow> 'k server_code" where
  "stderr_locks k k' = output_locks (StderrOf k) k'"

text \<open>The tasks of a session are waited for under the lock of its handles.\<close>

definition wait_locks :: "'k \<Rightarrow> 'k \<Rightarrow> 'k server_code" where
  "wait_locks k k' =
     get_session_locks @ [Acquire (ChildOf k) Exclusive, Work, Release (ChildOf k)] @ get_session_locks @
     [Acquire (HandlesOf k') Exclusive, JoinAll (SessionJobs k'), Release (HandlesOf k'),
      Acquire SessionTable Exclusive, Release SessionTable]"

inductive server_prog :: "'k server_code \<Rightarrow> bool" where
  "server_prog dial_locks"
| "server_prog (ninep_forward_locks p)"
| "server_prog (start_locks p k)"
| "server_prog (stdin_locks k)"
| "server_prog (stdout_locks k k')"
| "server_prog (stderr_locks k k')"
| "server_prog (wait_locks k k')"

section \<open>Their order\<close>

text \<open>The tables first, then the handles, then waiting for tasks, then what tasks lock.\<close>

fun server_rank :: "'k server_lock \<Rightarrow> nat" where
  "server_rank PendingTable = 0"
| "server_rank SessionTable = 1"
| "server_rank (HandlesOf k) = 2"
| "server_rank _ = 4"

lemmas server_progs = get_session_locks_def dial_locks_def ninep_forward_locks_def start_locks_def
  stdin_locks_def output_locks_def stdout_locks_def stderr_locks_def wait_locks_def

interpretation server_order: lock_order server_rank 3 server_prog
  by unfold_locales (auto simp: server_progs elim!: server_prog.cases)

section \<open>No deadlock\<close>

text \<open>
  C29. The session server cannot deadlock. Whatever calls have come, however their steps were
  interleaved and whichever of them failed or were given up while they waited: from then on the
  calls and tasks that are left get to their end, after a number of steps that is known in
  advance, because as long as one of them is not done, one of them can go on. What a step waits
  for outside, a child that exits or a stream that ends, is taken to happen.
\<close>

theorem server_no_deadlock:
  assumes "(open_step server_prog)\<^sup>*\<^sup>* locks_new s" "(lock_step ^^ n) s s'"
  shows "n \<le> steps_left s \<and> ((\<forall>i<length (ls_tasks s'). finished s' i) \<or> (\<exists>u. lock_step s' u))"
  by (rule server_order.all_finish [OF assms])

text \<open>A call of \<open>stdout\<close> and one of \<open>wait\<close>, which holds the handles while the output is still copied.\<close>

definition output_and_wait :: "(nat server_lock, nat server_jobs) lock_system" where
  "output_and_wait = arrived [stdout_locks 1 1, wait_locks 1 1]"

lemma output_and_wait_run:
  "map_option (\<lambda>s. map tk_rest (ls_tasks s))
     (lock_run (replicate 11 0 @ replicate 12 1 @ replicate 4 2 @ replicate 5 1) output_and_wait) = Some [[], [], []]"
  by code_simp

theorem server_no_deadlock_witness:
  "\<exists>s. (lock_step ^^ 32) output_and_wait s \<and> 32 \<le> steps_left output_and_wait \<and>
     map tk_rest (ls_tasks s) = [[], [], []]"
proof -
  from output_and_wait_run obtain s where
    s: "lock_run (replicate 11 0 @ replicate 12 1 @ replicate 4 2 @ replicate 5 1) output_and_wait = Some s"
    "map tk_rest (ls_tasks s) = [[], [], []]" by auto
  from lock_run_steps [OF s(1)] have steps: "(lock_step ^^ 32) output_and_wait s" by simp
  have "(open_step server_prog)\<^sup>*\<^sup>* locks_new output_and_wait"
    unfolding output_and_wait_def by (intro arrived_reachable) (simp add: server_prog.intros)
  from server_no_deadlock [OF this steps] have "32 \<le> steps_left output_and_wait" ..
  with s(2) steps show ?thesis by (intro exI [of _ s]) simp
qed

end
