(* ===== verification/Conn_Locks.thy ===== *)
theory Conn_Locks
  imports Locks Fcall_Types
begin

text \<open>
  The locks of a 9P connection on the file system, \<^verbatim>\<open>crates/9p/src/srv.rs\<close> and \<^verbatim>\<open>crates/9p/src/unpfs.rs\<close>:
  the table of fids is behind an \<open>RwLock\<close> that a task holds while its handler runs, each fid has an
  \<open>RwLock\<close> around its path and a \<open>Mutex\<close> around its file, and a \<open>Mutex\<close> is around the writer. A
  message is the program of what its task locks; \<open>'c\<close> are the objects behind the fids.
\<close>

section \<open>The task of a message\<close>

datatype 'c conn_lock = FidTable | PathOf 'c | FileOf 'c | WriterLock

type_synonym 'c conn_code = "('c conn_lock, unit) instr list"

definition with_lock :: "'c conn_lock \<Rightarrow> mode \<Rightarrow> 'c conn_code \<Rightarrow> 'c conn_code" where
  "with_lock l m body = Acquire l m # body @ [Release l]"

text \<open>
  The handlers of the file system, given what the fids of the message stand for, the new fid's
  object, and whether a file that is opened is a directory. The requests it does not implement
  fail at once.
\<close>

definition handler_locks :: "(u32 \<Rightarrow> 'c) \<Rightarrow> 'c \<Rightarrow> bool \<Rightarrow> Fcall \<Rightarrow> 'c conn_code" where
  "handler_locks cell new_cell dir body =
     (let path = (\<lambda>fid. with_lock (PathOf (cell fid)) Shared []);
          use_path = (\<lambda>fid. with_lock (PathOf (cell fid)) Shared [Work]);
          use_file = (\<lambda>fid. with_lock (FileOf (cell fid)) Exclusive [Work]);
          set_file = (\<lambda>fid. with_lock (FileOf (cell fid)) Exclusive [])
      in case body of
           Fcall.Tattach fid afid uname aname n_uname \<Rightarrow> with_lock (PathOf new_cell) Exclusive [] @ [Work]
         | Fcall.Twalk fid nfid wnames \<Rightarrow>
             path fid @ [Work] @ with_lock (PathOf new_cell) Exclusive []
         | Fcall.Tgetattr fid req_mask \<Rightarrow> use_path fid
         | Fcall.Tsetattr fid valid stat \<Rightarrow> path fid @ [Work]
         | Fcall.Treadlink fid \<Rightarrow> use_path fid
         | Fcall.Treaddir fid off cnt \<Rightarrow> [Work] @ use_path fid @ [Work]
         | Fcall.Tlopen fid flags \<Rightarrow> path fid @ [Work] @ (if dir then [] else set_file fid)
         | Fcall.Tlcreate fid name flags mode gid \<Rightarrow>
             path fid @ [Work] @ with_lock (PathOf (cell fid)) Exclusive [] @ set_file fid
         | Fcall.Tread fid off cnt \<Rightarrow> use_file fid
         | Fcall.Twrite fid off dat \<Rightarrow> use_file fid
         | Fcall.Tfsync fid \<Rightarrow> use_file fid
         | Fcall.Tmkdir dfid name mode gid \<Rightarrow> path dfid @ [Work]
         | Fcall.Trenameat olddirfid oldname newdirfid newname \<Rightarrow> path olddirfid @ path newdirfid @ [Work]
         | Fcall.Tunlinkat dirfd name flags \<Rightarrow> path dirfd @ [Work]
         | Fcall.Tstatfs fid \<Rightarrow> path fid @ [Work]
         | _ \<Rightarrow> [])"

text \<open>\<open>dispatch_once\<close>: the handler under the lock of the table, then the changes of the table.\<close>

definition dispatch_locks :: "(u32 \<Rightarrow> 'c) \<Rightarrow> 'c \<Rightarrow> bool \<Rightarrow> Fcall \<Rightarrow> 'c conn_code" where
  "dispatch_locks cell new_cell dir body =
     with_lock FidTable Shared (handler_locks cell new_cell dir body) @
     (case body of Fcall.Tclunk fid \<Rightarrow> with_lock FidTable Exclusive [] | _ \<Rightarrow> []) @
     (if newfid body = None then [] else with_lock FidTable Exclusive [])"

definition reply_locks :: "'c conn_code" where
  "reply_locks = with_lock WriterLock Exclusive [Work]"

text \<open>The task: what \<open>dispatch_once\<close> does up to an error after \<open>n\<close> instructions, if any, and the reply.\<close>

definition message_locks :: "(u32 \<Rightarrow> 'c) \<Rightarrow> 'c \<Rightarrow> bool \<Rightarrow> nat \<Rightarrow> Fcall \<Rightarrow> 'c conn_code" where
  "message_locks cell new_cell dir n body = cut_short n [] (dispatch_locks cell new_cell dir body) @ reply_locks"

inductive conn_prog :: "'c conn_code \<Rightarrow> bool" where
  "conn_prog (message_locks cell new_cell dir n body)"

section \<open>Their order\<close>

text \<open>The table before what is behind the fids; no task holds two of the latter.\<close>

fun conn_rank :: "'c conn_lock \<Rightarrow> nat" where
  "conn_rank FidTable = 0"
| "conn_rank _ = 1"

lemma ordered_with_lock:
  "ordered conn_rank jr [] (with_lock FidTable m body @ rest)"
  if "ordered conn_rank jr [FidTable] (body @ Release FidTable # rest)"
  using that by (simp add: with_lock_def)

lemma ordered_handler:
  "ordered conn_rank jr [] rest \<Longrightarrow>
     ordered conn_rank jr [FidTable] (handler_locks cell new_cell dir body @ Release FidTable # rest)"
  by (cases body) (auto simp: handler_locks_def with_lock_def)

lemma ordered_dispatch: "ordered conn_rank jr [] (dispatch_locks cell new_cell dir body)"
  unfolding dispatch_locks_def
  by (intro ordered_with_lock ordered_handler) (auto simp: with_lock_def split: Fcall.split)

interpretation conn_order: lock_order conn_rank 2 conn_prog
proof
  fix prog :: "'a conn_code"
  assume "conn_prog prog"
  then show "ordered conn_rank 2 [] prog"
    by cases (auto simp: message_locks_def reply_locks_def with_lock_def intro!: ordered_cut_short ordered_dispatch)
qed

section \<open>No deadlock\<close>

text \<open>
  C30. The tasks of a connection on the file system cannot deadlock. Whatever messages were read,
  whatever their fids stand for, however their tasks interleaved and whichever of them failed or
  panicked: the tasks that are left get to their reply within a number of steps known in advance,
  as one of them can always go on.
\<close>

theorem conn_no_deadlock:
  assumes "(open_step conn_prog)\<^sup>*\<^sup>* locks_new s" "(lock_step ^^ n) s s'"
  shows "n \<le> steps_left s \<and> ((\<forall>i<length (ls_tasks s'). finished s' i) \<or> (\<exists>u. lock_step s' u))"
  by (rule conn_order.all_finish [OF assms])

text \<open>A read of a file, a walk, and a request for the attributes of another fid.\<close>

definition three_messages :: "(u32 conn_lock, unit) lock_system" where
  "three_messages = arrived
     (map (message_locks (\<lambda>fid. fid) 9 False 100)
       [Fcall.Tread 1 0 10, Fcall.Twalk 2 3 [], Fcall.Tgetattr 2 0])"

lemma three_messages_reachable: "(open_step conn_prog)\<^sup>*\<^sup>* locks_new three_messages"
  unfolding three_messages_def by (intro arrived_reachable) (simp add: conn_prog.intros)

text \<open>
  A slow read holds up everybody: once the walk waits to enter its new fid into the table, the
  request for attributes, which came later, waits behind it, and only the read can go on.
\<close>

definition read_first :: "nat list" where
  "read_first = replicate 4 0 @ replicate 11 1 @ [2]"

lemma read_holds_up:
  "map_option (\<lambda>s. (map (\<lambda>i. case task_step i s of None \<Rightarrow> False | Some _ \<Rightarrow> True) [0, 1, 2],
      hd (tk_rest (ls_tasks s ! 0)), tk_rest (ls_tasks s ! 2) = message_locks (\<lambda>fid. fid) 9 False 100 (Fcall.Tgetattr 2 0)))
     (lock_run read_first three_messages) = Some ([True, False, False], Work, True)"
  by code_simp

text \<open>When the read is through, all three are answered.\<close>

lemma three_messages_run:
  "map_option (\<lambda>s. map tk_rest (ls_tasks s))
     (lock_run (read_first @ replicate 7 0 @ replicate 6 1 @ replicate 10 2) three_messages) = Some [[], [], []]"
  by code_simp

theorem conn_no_deadlock_witness:
  "\<exists>s. (lock_step ^^ 39) three_messages s \<and> 39 \<le> steps_left three_messages \<and>
     map tk_rest (ls_tasks s) = [[], [], []]"
proof -
  from three_messages_run obtain s where
    s: "lock_run (read_first @ replicate 7 0 @ replicate 6 1 @ replicate 10 2) three_messages = Some s"
    "map tk_rest (ls_tasks s) = [[], [], []]" by auto
  from lock_run_steps [OF s(1)] have steps: "(lock_step ^^ 39) three_messages s" by (simp add: read_first_def)
  from conn_no_deadlock [OF three_messages_reachable this] have "39 \<le> steps_left three_messages" ..
  with s(2) steps show ?thesis by (intro exI [of _ s]) simp
qed

end
