(* ===== verification/Spec2Isabelle.thy ===== *)
theory Spec2Isabelle
  imports Command_Properties Ninep_Properties Unpfs_Files Unit_Tests Fcall_Orders Error_Strings Apps P92000
    App_Properties Server_Locks Conn_Locks
begin

text \<open>
  A verification development of p9cpu, which runs a command on a remote machine in a name space
  that contains the files of the local one.

  \<^bold>\<open>The program.\<close> \<open>p9cpu\<close> builds a command from its arguments and asks \<open>p9cpud\<close>, over gRPC, to
  dial a session, to forward 9P for it, and to start the command. The session server spawns a
  launcher, sends it the command over a socket, and keeps the descriptors of its standard
  streams; the launcher makes the mounts of the command in a name space of its own and becomes
  the command. The mount of the local files speaks 9P2000.L to the session server, which
  forwards the bytes to the client, where a 9P server answers them from the file system. The
  streams of the command travel the same way; the client waits for the exit code.

  \<^bold>\<open>The theories, from the bottom.\<close>

  \<^item> \<open>Prelude\<close>, \<open>Actions\<close>, \<open>Text\<close>: integers, I/O errors, bytes, the sequencing of fallible
    operations on a state, and what the sources use of Rust's strings and paths.
  \<^item> \<open>Errors\<close>, \<open>Error_Strings\<close> (\<^verbatim>\<open>9p/src/error.rs\<close>), \<open>Fcall_Types\<close> and \<open>P92000\<close> (\<^verbatim>\<open>9p/src/fcall.rs\<close>):
    error numbers and strings, and the types of the protocol as records and datatypes with their
    methods. \<open>Fcall_Orders\<close>: the orders that the sources derive for message types, times and qids.
  \<^item> \<open>Wire\<close>, \<open>Serialize\<close> (\<^verbatim>\<open>9p/src/serialize.rs\<close>): writers that may fail, encoder and decoder. The
    traits \<open>Encodable\<close> and \<open>Decodable\<close> are the locales \<open>encodable\<close>, \<open>decodable\<close>, \<open>codec\<close> and
    \<open>closed_codec\<close>, interpreted for every type. \<open>Serialize_Properties\<close>: round trips, truncated and
    illegal input, what a decoded message guarantees, unambiguity, sizes, and the two places
    where encoder and decoder disagree. \<open>Unit_Tests\<close>: the unit tests of the file, which hold.
  \<^item> \<open>Srv\<close> (\<^verbatim>\<open>9p/src/srv.rs\<close>, \<^verbatim>\<open>9p/src/utils.rs\<close>): the trait \<open>Filesystem\<close> as a record, the handling
    of one message, and the connection as the step relation \<open>serve_step\<close>, whose tasks
    interleave; the locale \<open>filesystem\<close> is what the server needs of an implementation.
    \<open>Srv_Properties\<close>: the table of fids, one answer for each request, the end of a connection.
  \<^item> \<open>Unpfs\<close> (\<^verbatim>\<open>9p/src/unpfs.rs\<close>, \<^verbatim>\<open>9p/src/unpfs/utils.rs\<close>): the file system, over a record of system
    calls; the state behind a fid is a cell of a store. \<open>Unpfs_Properties\<close>: walks, directory
    listings, flags and attributes, what a message leaves alone, and that fids never share a
    cell in a reachable state.
  \<^item> \<open>Unpfs_Spec\<close>: what the file system promises, with a fid as a value, a path and perhaps an open
    file, instead of a reference to a cell: \<open>spec_call\<close> for each message, \<open>spec_session\<close> for a sequence
    of them, \<open>spec_step\<close> for the interleaved connection. \<open>Unpfs_Refinement\<close>: the code refines it
    (\<open>value_server\<close> reads the values out of the cells), call by call, for whole sessions, and, by the locale
    \<open>forward_simulation\<close>, for every interleaving of a connection.
  \<^item> \<open>Unpfs_Files\<close>: the handlers that use an open file at the steps between which others run: take
    the mutex, seek, transfer. Their interleavings amount to an order of whole handlers, and they
    never wait for each other forever.
  \<^item> \<open>Cmd\<close> (\<^verbatim>\<open>libp9cpu/src/cmd.rs\<close>, \<^verbatim>\<open>lib.rs\<close>, \<^verbatim>\<open>p9cpu.rs\<close>), \<open>Launcher\<close> (\<^verbatim>\<open>launcher.rs\<close>): commands, mount
    lines, name spaces; the launcher as a sequence of calls that may fail. \<open>Launch_Properties\<close>: from
    the name space option to the mounts, the frame of the command, what precedes the exec.
    \<open>Launch_Plan\<close>: the specification of a launch as the list of its calls (\<open>launch_plan\<close>), which the
    code follows (\<open>follows\<close>), and the same in terms of the arguments of \<open>p9cpu\<close> (\<open>cli_plan\<close>).
  \<^item> \<open>Streams\<close> (\<^verbatim>\<open>rpc.rs\<close>, \<^verbatim>\<open>client.rs\<close>, \<^verbatim>\<open>rpc_client.rs\<close>, \<^verbatim>\<open>rpc_server.rs\<close>), \<open>Async_Fd\<close> (\<^verbatim>\<open>async_fd.rs\<close>): polled
    streams and readers. The contracts of \<open>Stream\<close> and \<open>AsyncRead\<close> are the locales \<open>stream\<close>,
    \<open>finite_stream\<close> and \<open>byte_reader\<close>; each adapter is a sublocale that turns one contract into
    another, and the streams the program builds are interpretations.
  \<^item> \<open>Server\<close> (\<^verbatim>\<open>server.rs\<close>): the tables of dialed and running sessions and every operation; a call
    runs in phases, one for each stretch under a lock, and \<open>system_step\<close> interleaves the phases of
    all calls. \<open>Server_Properties\<close>: which entries a phase changes, the accounting of dials and
    starts in every reachable state, failed starts, calls that run alone, the 9P loop, and that
    calls return: k of them within 5k phases.
  \<^item> \<open>Rpc\<close> (\<^verbatim>\<open>rpc_server.rs\<close>, \<^verbatim>\<open>rpc_client.rs\<close>): the handlers over the session server and the calls of the
    client; \<open>direct\<close> connects them by a transport that loses nothing. \<open>RpcServer::serve\<close> and its
    listener stream for vsock are in \<open>Apps\<close>.
  \<^item> \<open>Client\<close> (\<^verbatim>\<open>client.rs\<close>), \<open>Apps\<close> (\<^verbatim>\<open>p9cpu.rs\<close>, \<^verbatim>\<open>p9cpud.rs\<close>): starting, waiting and the loops of the client over
    any transport, and the programs. \<open>Client_Properties\<close>: the order of calls, the terminal, and, by
    the locale \<open>session_transport\<close> interpreted for gRPC, a whole run of a command. The programs
    themselves are \<open>p9cpu_app\<close> and \<open>p9cpud_app\<close>, in \<open>Apps\<close>; \<open>App_Properties\<close>: how \<open>p9cpu\<close> ends.
  \<^item> \<open>Session_Properties\<close>: the parts together. The command the launcher reads is the one the
    client started; the bytes of the standard streams and of 9P arrive in order and complete
    up to an error of the transport. \<open>Ninep_Properties\<close>: 9P from the mount to the file system and
    back, through the session server, the transport and the 9P server of the client.
    \<open>Command_Properties\<close>: from the command line of \<open>p9cpu\<close> to the calls of the launcher.

  \<^item> \<open>Locks\<close>: a machine of tasks that take fair locks and wait for tasks, and the locale \<open>lock_order\<close>: tasks
    that keep to an order of the locks always get to their end, whatever happened before.
    \<open>Server_Locks\<close> (\<^verbatim>\<open>server.rs\<close>) and \<open>Conn_Locks\<close> (\<^verbatim>\<open>srv.rs\<close>, \<^verbatim>\<open>unpfs.rs\<close>): the programs of locks of the
    session server and of a connection, which interpret it.

  \<^bold>\<open>How the code is modelled.\<close> A function that may fail is an action on an explicit state with a
  sum as its result; an early return is the end of the action. What is not in the repository is
  an argument: the system calls (\<open>sys\<close>, \<open>kernel\<close>, \<open>os\<close>, \<open>fd_device\<close>, \<open>terminal\<close>), the generated gRPC client
  (\<open>stub\<close>), \<open>prost\<close>'s encoding, the \<open>uuid\<close> and \<open>nix\<close> crates. A theorem that needs their documented
  behaviour has it as a premise, and a witness with a concrete instance. Integers have their
  width and wrap, as in a release build. Strings are lists of bytes. The length of a
  buffer is a natural number, below \<open>2 ^ 64\<close> where it is written as a \<open>usize\<close>.

  \<^bold>\<open>Termination and fuel.\<close> Loops over data are recursive functions on it. Waiting for a stream is
  polling it so many times (\<open>poll_times\<close>); \<open>finite_stream\<close> bounds the polls a stream can answer,
  and \<open>stdin_items\<close> polls more often (\<open>stdin_items_rest\<close>). The retry loops of \<open>AsyncFd\<close> are partial
  functions, shown to return on pipes. A connection of n frames ends within 5n+1 steps,
  n handlers of open files within 3n, k calls of the session server within 5k; tasks that take
  locks within \<open>steps_left\<close>, the number of steps that their programs have left. The
  loops that wait for outside events (\<open>forward_loop\<close>, \<open>copy_to\<close>, \<open>stdin_loop\<close>, \<open>accept_loop\<close>) take the list of
  events, and have no result while the list has not ended them.

  \<^bold>\<open>Not modelled.\<close> Command-line parsing, logging and the runtime; the framing of \<open>tokio_util\<close>, a
  parameter of the composed theorem, the 9P server being given whole frames; tonic's router and
  the listeners of an address, parameters as well; the code generated from the protobuf files.
  In a connection a handler of the file system is one step: only those of
  \<open>Unpfs_Files\<close> are split. A phase of a call on a session is one step as well. \<open>Server_Locks\<close> and
  \<open>Conn_Locks\<close> have the locks at which they wait, without the data. Two calls of \<open>wait\<close> for the
  same session wait for the same tasks in \<open>Server\<close>; in the program the second panics when it gets
  to the handles before the session is removed. Buffers made by \<open>create_buffer\<close> are only modelled after they were filled.
\<close>

end
